(* ===== verification/Prelude.thy ===== *)
theory Prelude
  imports Main "HOL-Library.Word" "HOL-Library.Monad_Syntax"
begin

text \<open>
  Shared vocabulary of the development.

  \<^item> machine integers: \<open>u8\<close>, \<open>u16\<close>, \<open>u32\<close>, \<open>u64\<close> are the C types \<open>uint8_t\<close>, \<open>uint16_t\<close>,
    \<open>uint32_t\<close>, \<open>uint64_t\<close>; \<open>usize\<close> is \<open>size_t\<close> of a 64-bit target. Their arithmetic
    wraps around, as it does in C;
  \<^item> return codes: the functions that return an \<open>int\<close> return an \<open>int\<close> here, with the
    names of \<open>libssh.h\<close> for the values;
  \<^item> memory: \<open>blit\<close> is \<open>memcpy\<close>/\<open>memmove\<close> into a byte array at an offset. An array never
    changes its length in C; \<open>blit\<close> out of range would lengthen the list, so the
    invariant that an array still has the length it was allocated with says that no write
    was out of range;
  \<^item> the C allocator is a parameter: \<open>mem n\<close> is what \<open>malloc(n)\<close> returns, \<open>None\<close> for \<open>NULL\<close>
    and otherwise a block with arbitrary content. The only law the development uses is that
    the block has the requested size, the locale \<open>allocator\<close> below;
  \<^item> a result of an \<open>option\<close> type is \<open>None\<close> where the C program has undefined behaviour
    (a \<open>NULL\<close> dereference, a read of a variadic argument of the wrong type) or calls
    \<open>abort()\<close>, wherever a definition says so.
\<close>

unbundle bit_operations_syntax

section \<open>Types and constants\<close>

type_synonym u8 = "8 word"
type_synonym u16 = "16 word"
type_synonym u32 = "32 word"
type_synonym u64 = "64 word"
type_synonym usize = "64 word"
type_synonym bytes = "u8 list"
type_synonym allocator = "nat \<Rightarrow> bytes option"

abbreviation (input) SSH_OK :: int where "SSH_OK \<equiv> 0"
abbreviation (input) SSH_ERROR :: int where "SSH_ERROR \<equiv> - 1"
abbreviation (input) SSH_AGAIN :: int where "SSH_AGAIN \<equiv> - 2"
abbreviation (input) SSH_EOF :: int where "SSH_EOF \<equiv> - 127"

named_theorems layout \<open>lengths and slices of byte arrays\<close>
named_theorems wire \<open>byte-order conversions\<close>

section \<open>Byte arrays\<close>

definition blit :: "nat \<Rightarrow> 'a list \<Rightarrow> 'a list \<Rightarrow> 'a list" where
  "blit off src dst = take off dst @ src @ drop (off + length src) dst"

lemma length_blit [layout]:
  "off + length src \<le> length dst \<Longrightarrow> length (blit off src dst) = length dst"
  by (simp add: blit_def)

lemma take_blit_before [layout]:
  "n \<le> off \<Longrightarrow> off \<le> length dst \<Longrightarrow> take n (blit off src dst) = take n dst"
  by (simp add: blit_def min_def)

lemma take_blit_through [layout]:
  "off \<le> length dst \<Longrightarrow> take (off + length src) (blit off src dst) = take off dst @ src"
  by (simp add: blit_def)

lemma drop_blit_from [layout]:
  "off \<le> length dst \<Longrightarrow> drop (off + length src) (blit off src dst) = drop (off + length src) dst"
  by (simp add: blit_def)

lemma blit_0 [layout]: "blit 0 src dst = src @ drop (length src) dst"
  by (simp add: blit_def)

lemma blit_Nil [simp]: "blit off [] dst = dst"
  by (simp add: blit_def)

lemma blit_two: "pos + 2 \<le> length data \<Longrightarrow> blit pos [a, b] data = (data[pos := a])[pos + 1 := b]"
proof (rule nth_equalityI)
  assume le: "pos + 2 \<le> length data"
  then show "length (blit pos [a, b] data) = length ((data[pos := a])[pos + 1 := b])"
    by (simp add: length_blit)
  fix i assume "i < length (blit pos [a, b] data)"
  with le have i: "i < length data" by (simp add: length_blit)
  consider "i < pos" | "i = pos" | "i = pos + 1" | "i \<ge> pos + 2" by linarith
  then show "blit pos [a, b] data ! i = ((data[pos := a])[pos + 1 := b]) ! i"
  proof cases
    case 4
    then have "Suc (Suc (i - 2)) = i" by simp
    with 4 le i show ?thesis by (simp add: blit_def nth_append nth_list_update)
  qed (use le i in \<open>simp_all add: blit_def nth_append nth_list_update\<close>)
qed

lemma blit_blit: "off + length a + length b \<le> length dst \<Longrightarrow>
  blit (off + length a) b (blit off a dst) = blit off (a @ b) dst"
  by (simp add: blit_def ac_simps)

text \<open>The bytes \<open>[from, to)\<close> of an array.\<close>

definition segment :: "nat \<Rightarrow> nat \<Rightarrow> 'a list \<Rightarrow> 'a list" where
  "segment i j xs = drop i (take j xs)"

lemma length_segment [layout]: "j \<le> length xs \<Longrightarrow> length (segment i j xs) = j - i"
  by (simp add: segment_def)

lemma segment_empty [simp]: "segment i i xs = []"
  by (simp add: segment_def)

lemma segment_append [layout]: "i \<le> j \<Longrightarrow> j \<le> k \<Longrightarrow> segment i j xs @ segment j k xs = segment i k xs"
proof -
  assume le: "i \<le> j" "j \<le> k"
  have "take k xs = take j xs @ drop j (take k xs)"
    using le by (metis append_take_drop_id min.absorb1 take_take)
  then have "drop i (take k xs) = drop i (take j xs) @ drop (i - length (take j xs)) (drop j (take k xs))"
    by (metis drop_append)
  moreover have "drop (i - length (take j xs)) (drop j (take k xs)) = drop j (take k xs)"
    using le by (cases "j \<le> length xs") simp_all
  ultimately show ?thesis by (simp add: segment_def)
qed

lemma segment_blit_after [layout]:
  "off \<le> length dst \<Longrightarrow> i \<le> off \<Longrightarrow>
     segment i (off + length src) (blit off src dst) = segment i off dst @ src"
  by (simp add: segment_def take_blit_through)

lemma segment_blit_at [layout]:
  "off \<le> length dst \<Longrightarrow> segment off (off + length src) (blit off src dst) = src"
  by (simp add: segment_def take_blit_through)

lemma segment_blit_before [layout]:
  "j \<le> off \<Longrightarrow> off \<le> length dst \<Longrightarrow> segment i j (blit off src dst) = segment i j dst"
  by (simp add: segment_def take_blit_before)

section \<open>Results\<close>

lemma bind_SomeE: "m \<bind> f = Some y \<Longrightarrow> (\<And>x. m = Some x \<Longrightarrow> f x = Some y \<Longrightarrow> thesis) \<Longrightarrow> thesis"
  by (auto simp: bind_eq_Some_conv)

section \<open>Words\<close>

lemma unat32_less: "unat (w :: u32) < 4294967296"
  using unsigned_less [of w] by simp

lemma unat_ucast_up: "unat (ucast (w :: u32) :: u64) = unat w"
  using unat32_less [of w] by (simp add: unsigned_ucast_eq take_bit_nat_eq_self)

lemma unat_ucast_down: "unat (ucast (w :: u64) :: u32) = unat w mod 4294967296"
  by (simp add: unsigned_ucast_eq take_bit_eq_mod)

lemma ucast_down_up: "unat (w :: u64) < 4294967296 \<Longrightarrow> ucast (ucast w :: u32) = w"
  by (simp add: word_unat_eq_iff unat_ucast_up unat_ucast_down)

lemma unat_of_nat64: "n < 18446744073709551616 \<Longrightarrow> unat (of_nat n :: u64) = n"
  by (simp only: unat_of_nat) (simp add: take_bit_nat_eq_self)

lemma unat_of_nat32: "n < 4294967296 \<Longrightarrow> unat (of_nat n :: u32) = n"
  by (simp only: unat_of_nat) (simp add: take_bit_nat_eq_self)

section \<open>The allocator\<close>

locale allocator =
  fixes mem :: "nat \<Rightarrow> bytes option"
  assumes malloc_size: "mem n = Some block \<Longrightarrow> length block = n"
begin

lemma malloc_cases:
  obtains (oom) "mem n = None" | (block) block where "mem n = Some block" "length block = n"
  using malloc_size by (cases "mem n") auto

end

text \<open>An allocator that fills its blocks with zeroes and fails above a limit.\<close>

definition zero_alloc :: "nat \<Rightarrow> allocator" where
  "zero_alloc limit n = (if n \<le> limit then Some (replicate n 0) else None)"

interpretation zero_alloc: allocator "zero_alloc limit"
  by unfold_locales (auto simp: zero_alloc_def split: if_splits)

end
