(* ===== verification/Bytes.thy ===== *)
theory Bytes
  imports Prelude
begin

text \<open>
  Byte order. \<open>bytearray.h\<close> reads and writes integers in byte arrays with macros; here each
  macro is a function over a byte list. \<open>htonl\<close> and its kin are those of a little-endian
  host, which every platform the package supports is: the memory image of a \<open>uint32_t\<close> is
  \<open>le32\<close>, and \<open>htonl\<close> is the conversion after which the memory image is big-endian.
\<close>

section \<open>The macros of bytearray.h\<close>

definition PULL_LE_U16 :: "bytes \<Rightarrow> nat \<Rightarrow> u16" where
  "PULL_LE_U16 data pos = ucast (data ! pos) OR push_bit 8 (ucast (data ! (pos + 1)))"

definition PULL_LE_U32 :: "bytes \<Rightarrow> nat \<Rightarrow> u32" where
  "PULL_LE_U32 data pos =
     ucast (PULL_LE_U16 data pos) OR push_bit 16 (ucast (PULL_LE_U16 data (pos + 2)))"

definition PULL_LE_U64 :: "bytes \<Rightarrow> nat \<Rightarrow> u64" where
  "PULL_LE_U64 data pos =
     ucast (PULL_LE_U32 data pos) OR push_bit 32 (ucast (PULL_LE_U32 data (pos + 4)))"

definition PUSH_LE_U16 :: "bytes \<Rightarrow> nat \<Rightarrow> u16 \<Rightarrow> bytes" where
  "PUSH_LE_U16 data pos val =
     (data[pos := ucast (val AND 0xff)])[pos + 1 := ucast (drop_bit 8 val)]"

definition PUSH_LE_U32 :: "bytes \<Rightarrow> nat \<Rightarrow> u32 \<Rightarrow> bytes" where
  "PUSH_LE_U32 data pos val =
     PUSH_LE_U16 (PUSH_LE_U16 data pos (ucast (val AND 0xffff))) (pos + 2) (ucast (drop_bit 16 val))"

definition PUSH_LE_U64 :: "bytes \<Rightarrow> nat \<Rightarrow> u64 \<Rightarrow> bytes" where
  "PUSH_LE_U64 data pos val =
     PUSH_LE_U32 (PUSH_LE_U32 data pos (ucast (val AND 0xffffffff))) (pos + 4)
       (ucast (drop_bit 32 val))"

definition PULL_BE_U16 :: "bytes \<Rightarrow> nat \<Rightarrow> u16" where
  "PULL_BE_U16 data pos = push_bit 8 (ucast (data ! pos)) OR ucast (data ! (pos + 1))"

definition PULL_BE_U32 :: "bytes \<Rightarrow> nat \<Rightarrow> u32" where
  "PULL_BE_U32 data pos =
     push_bit 16 (ucast (PULL_BE_U16 data pos)) OR ucast (PULL_BE_U16 data (pos + 2))"

definition PULL_BE_U64 :: "bytes \<Rightarrow> nat \<Rightarrow> u64" where
  "PULL_BE_U64 data pos =
     push_bit 32 (ucast (PULL_BE_U32 data pos)) OR ucast (PULL_BE_U32 data (pos + 4))"

definition PUSH_BE_U8 :: "bytes \<Rightarrow> nat \<Rightarrow> u8 \<Rightarrow> bytes" where
  "PUSH_BE_U8 data pos val = data[pos := val]"

definition PUSH_BE_U16 :: "bytes \<Rightarrow> nat \<Rightarrow> u16 \<Rightarrow> bytes" where
  "PUSH_BE_U16 data pos val =
     PUSH_BE_U8 (PUSH_BE_U8 data pos (ucast (drop_bit 8 val))) (pos + 1) (ucast (val AND 0xff))"

definition PUSH_BE_U32 :: "bytes \<Rightarrow> nat \<Rightarrow> u32 \<Rightarrow> bytes" where
  "PUSH_BE_U32 data pos val =
     PUSH_BE_U16 (PUSH_BE_U16 data pos (ucast (drop_bit 16 val))) (pos + 2) (ucast (val AND 0xffff))"

definition PUSH_BE_U64 :: "bytes \<Rightarrow> nat \<Rightarrow> u64 \<Rightarrow> bytes" where
  "PUSH_BE_U64 data pos val =
     PUSH_BE_U32 (PUSH_BE_U32 data pos (ucast (drop_bit 32 val))) (pos + 4)
       (ucast (val AND 0xffffffff))"

section \<open>Big-endian and little-endian images\<close>

definition be16 :: "u16 \<Rightarrow> bytes" where
  "be16 w = [ucast (drop_bit 8 w), ucast w]"

definition be32 :: "u32 \<Rightarrow> bytes" where
  "be32 w = be16 (ucast (drop_bit 16 w)) @ be16 (ucast w)"

definition be64 :: "u64 \<Rightarrow> bytes" where
  "be64 w = be32 (ucast (drop_bit 32 w)) @ be32 (ucast w)"

definition le16 :: "u16 \<Rightarrow> bytes" where "le16 w = rev (be16 w)"
definition le32 :: "u32 \<Rightarrow> bytes" where "le32 w = rev (be32 w)"
definition le64 :: "u64 \<Rightarrow> bytes" where "le64 w = rev (be64 w)"

lemma length_be [layout, simp]: "length (be16 a) = 2" "length (be32 b) = 4" "length (be64 c) = 8"
  by (simp_all add: be16_def be32_def be64_def)

lemma length_le [layout, simp]: "length (le16 a) = 2" "length (le32 b) = 4" "length (le64 c) = 8"
  by (simp_all add: le16_def le32_def le64_def)

text \<open>Joining and splitting words at half their width.\<close>

lemma word_halves16: "push_bit 8 (ucast (ucast (drop_bit 8 w) :: u8)) OR ucast (ucast w :: u8) = (w :: u16)"
  by (rule bit_word_eqI) (auto simp: bit_simps)
lemma word_halves32: "push_bit 16 (ucast (ucast (drop_bit 16 w) :: u16)) OR ucast (ucast w :: u16) = (w :: u32)"
  by (rule bit_word_eqI) (auto simp: bit_simps)
lemma word_halves64: "push_bit 32 (ucast (ucast (drop_bit 32 w) :: u32)) OR ucast (ucast w :: u32) = (w :: u64)"
  by (rule bit_word_eqI) (auto simp: bit_simps)

lemmas word_halves [wire] = word_halves16 word_halves32 word_halves64
  word_halves16 [unfolded or.commute [of "push_bit _ _"]] word_halves32 [unfolded or.commute [of "push_bit _ _"]]
  word_halves64 [unfolded or.commute [of "push_bit _ _"]]

lemma ucast_mask [wire]:
  "ucast (a AND 0xff) = (ucast a :: u8)" "ucast (b AND 0xffff) = (ucast b :: u16)"
  "ucast (c AND 0xffffffff) = (ucast c :: u32)" for a :: u16 and b :: u32 and c :: u64
proof -
  have m: "(0xff :: u16) = mask 8" "(0xffff :: u32) = mask 16" "(0xffffffff :: u64) = mask 32"
    by (simp_all add: mask_eq_exp_minus_1)
  show "ucast (a AND 0xff) = (ucast a :: u8)" "ucast (b AND 0xffff) = (ucast b :: u16)"
    "ucast (c AND 0xffffffff) = (ucast c :: u32)"
    unfolding m by (auto intro!: bit_word_eqI simp: bit_simps)
qed

lemma ucast_high16: "ucast (drop_bit 8 (ucast a) OR drop_bit 8 (push_bit 8 (ucast b)) :: u16) = b" for a b :: u8
  by (rule bit_word_eqI) (auto simp: bit_simps dest: bit_imp_le_length)
lemma ucast_low16: "ucast (ucast a OR push_bit 8 (ucast b) :: u16) = a" for a b :: u8
  by (rule bit_word_eqI) (auto simp: bit_simps)
lemma ucast_high32: "ucast (drop_bit 16 (ucast a) OR drop_bit 16 (push_bit 16 (ucast b)) :: u32) = b" for a b :: u16
  by (rule bit_word_eqI) (auto simp: bit_simps dest: bit_imp_le_length)
lemma ucast_low32: "ucast (ucast a OR push_bit 16 (ucast b) :: u32) = a" for a b :: u16
  by (rule bit_word_eqI) (auto simp: bit_simps)
lemma ucast_high64: "ucast (drop_bit 32 (ucast a) OR drop_bit 32 (push_bit 32 (ucast b)) :: u64) = b" for a b :: u32
  by (rule bit_word_eqI) (auto simp: bit_simps dest: bit_imp_le_length)
lemma ucast_low64: "ucast (ucast a OR push_bit 32 (ucast b) :: u64) = a" for a b :: u32
  by (rule bit_word_eqI) (auto simp: bit_simps)

lemmas word_join [wire] = ucast_high16 ucast_low16 ucast_high32 ucast_low32 ucast_high64 ucast_low64

section \<open>Reading and writing through the macros\<close>

lemma PULL_BE_U16_app: "PULL_BE_U16 (pre @ be16 w @ post) (length pre) = w"
  by (simp add: PULL_BE_U16_def be16_def nth_append wire)

lemma PULL_BE_U32_app: "PULL_BE_U32 (pre @ be32 w @ post) (length pre) = w"
  using PULL_BE_U16_app [of pre "ucast (drop_bit 16 w)" "be16 (ucast w) @ post"]
    PULL_BE_U16_app [of "pre @ be16 (ucast (drop_bit 16 w))" "ucast w" post]
  by (simp add: PULL_BE_U32_def be32_def wire)

lemma PULL_BE_U64_app: "PULL_BE_U64 (pre @ be64 w @ post) (length pre) = w"
  using PULL_BE_U32_app [of pre "ucast (drop_bit 32 w)" "be32 (ucast w) @ post"]
    PULL_BE_U32_app [of "pre @ be32 (ucast (drop_bit 32 w))" "ucast w" post]
  by (simp add: PULL_BE_U64_def be64_def wire)

lemma PULL_LE_U16_app: "PULL_LE_U16 (pre @ le16 w @ post) (length pre) = w"
  by (simp add: PULL_LE_U16_def le16_def be16_def nth_append wire)

lemma PULL_LE_U32_app: "PULL_LE_U32 (pre @ le32 w @ post) (length pre) = w"
  using PULL_LE_U16_app [of pre "ucast w" "le16 (ucast (drop_bit 16 w)) @ post"]
    PULL_LE_U16_app [of "pre @ le16 (ucast w)" "ucast (drop_bit 16 w)" post]
  by (simp add: PULL_LE_U32_def le32_def le16_def be32_def wire)

lemma PULL_LE_U64_app: "PULL_LE_U64 (pre @ le64 w @ post) (length pre) = w"
  using PULL_LE_U32_app [of pre "ucast w" "le32 (ucast (drop_bit 32 w)) @ post"]
    PULL_LE_U32_app [of "pre @ le32 (ucast w)" "ucast (drop_bit 32 w)" post]
  by (simp add: PULL_LE_U64_def le64_def le32_def be64_def wire)

lemmas PULL_BE_0 [wire] =
  PULL_BE_U16_app [of "[]", simplified] PULL_BE_U32_app [of "[]", simplified]
  PULL_BE_U64_app [of "[]", simplified]
  PULL_BE_U16_app [of "[]" _ "[]", simplified] PULL_BE_U32_app [of "[]" _ "[]", simplified]
  PULL_BE_U64_app [of "[]" _ "[]", simplified]
lemmas PULL_LE_0 [wire] =
  PULL_LE_U16_app [of "[]" _ "[]", simplified] PULL_LE_U32_app [of "[]" _ "[]", simplified]
  PULL_LE_U64_app [of "[]" _ "[]", simplified]

lemma PUSH_BE_U16_blit: "pos + 2 \<le> length data \<Longrightarrow> PUSH_BE_U16 data pos w = blit pos (be16 w) data"
  by (simp add: blit_two be16_def PUSH_BE_U16_def PUSH_BE_U8_def wire)

lemma PUSH_BE_U32_blit: "pos + 4 \<le> length data \<Longrightarrow> PUSH_BE_U32 data pos w = blit pos (be32 w) data"
  using blit_blit [of pos "be16 (ucast (drop_bit 16 w))" "be16 (ucast w)" data]
  by (simp add: PUSH_BE_U32_def PUSH_BE_U16_blit length_blit be32_def wire)

lemma PUSH_BE_U64_blit: "pos + 8 \<le> length data \<Longrightarrow> PUSH_BE_U64 data pos w = blit pos (be64 w) data"
  using blit_blit [of pos "be32 (ucast (drop_bit 32 w))" "be32 (ucast w)" data]
  by (simp add: PUSH_BE_U64_def PUSH_BE_U32_blit length_blit be64_def wire)

lemma PUSH_LE_U16_blit: "pos + 2 \<le> length data \<Longrightarrow> PUSH_LE_U16 data pos w = blit pos (le16 w) data"
  by (simp add: blit_two le16_def be16_def PUSH_LE_U16_def wire)

lemma PUSH_LE_U32_blit: "pos + 4 \<le> length data \<Longrightarrow> PUSH_LE_U32 data pos w = blit pos (le32 w) data"
  using blit_blit [of pos "le16 (ucast w)" "le16 (ucast (drop_bit 16 w))" data]
  by (simp add: PUSH_LE_U32_def PUSH_LE_U16_blit length_blit le32_def be32_def le16_def wire)

lemma PUSH_LE_U64_blit: "pos + 8 \<le> length data \<Longrightarrow> PUSH_LE_U64 data pos w = blit pos (le64 w) data"
  using blit_blit [of pos "le32 (ucast w)" "le32 (ucast (drop_bit 32 w))" data]
  by (simp add: PUSH_LE_U64_def PUSH_LE_U32_blit length_blit le64_def be64_def le32_def wire)

lemmas push_blit = PUSH_BE_U16_blit PUSH_BE_U32_blit PUSH_BE_U64_blit
  PUSH_LE_U16_blit PUSH_LE_U32_blit PUSH_LE_U64_blit

lemma blit_split: "pos \<le> length data \<Longrightarrow>
  blit pos src data = take pos data @ src @ drop (pos + length src) data"
  by (simp add: blit_def)

section \<open>Network byte order\<close>

definition htons :: "u16 \<Rightarrow> u16" where "htons w = PULL_LE_U16 (be16 w) 0"
definition htonl :: "u32 \<Rightarrow> u32" where "htonl w = PULL_LE_U32 (be32 w) 0"

definition htonll :: "u64 \<Rightarrow> u64" where
  "htonll x = push_bit 32 (ucast (htonl (ucast (x AND 0xffffffff)))) OR ucast (htonl (ucast (drop_bit 32 x)))"

abbreviation ntohs :: "u16 \<Rightarrow> u16" where "ntohs \<equiv> htons"
abbreviation ntohl :: "u32 \<Rightarrow> u32" where "ntohl \<equiv> htonl"
abbreviation ntohll :: "u64 \<Rightarrow> u64" where "ntohll \<equiv> htonll"

lemma length_2_cases: "length xs = 2 \<Longrightarrow> \<exists>a b. xs = [a, b]"
  by (cases xs; cases "tl xs") auto

lemma length_4_split: "length xs = 4 \<Longrightarrow> \<exists>ys zs. xs = ys @ zs \<and> length ys = 2 \<and> length zs = 2"
  by (rule exI [of _ "take 2 xs"], rule exI [of _ "drop 2 xs"]) simp

lemma length_8_split: "length xs = 8 \<Longrightarrow> \<exists>ys zs. xs = ys @ zs \<and> length ys = 4 \<and> length zs = 4"
  by (rule exI [of _ "take 4 xs"], rule exI [of _ "drop 4 xs"]) simp

lemma le16_PULL: "length xs = 2 \<Longrightarrow> le16 (PULL_LE_U16 (xs @ post) 0) = xs"
  by (auto dest!: length_2_cases simp: le16_def be16_def PULL_LE_U16_def wire)

lemma PULL_LE_U16_shift: "length pre = n \<Longrightarrow> PULL_LE_U16 (pre @ xs) n = PULL_LE_U16 xs 0"
  by (auto simp: PULL_LE_U16_def nth_append)

lemma PULL_LE_U32_shift: "length pre = n \<Longrightarrow> PULL_LE_U32 (pre @ xs) n = PULL_LE_U32 xs 0"
  by (auto simp: PULL_LE_U32_def PULL_LE_U16_def nth_append numeral_eq_Suc)

lemma le32_PULL: "length xs = 4 \<Longrightarrow> le32 (PULL_LE_U32 (xs @ post) 0) = xs"
proof -
  assume "length xs = 4"
  then obtain ys zs where xs: "xs = ys @ zs" and l: "length ys = 2" "length zs = 2"
    using length_4_split by blast
  have "PULL_LE_U16 (ys @ zs @ post) 2 = PULL_LE_U16 (zs @ post) 0"
    using l by (simp add: PULL_LE_U16_shift)
  then have "PULL_LE_U32 (xs @ post) 0 =
      ucast (PULL_LE_U16 (ys @ zs @ post) 0) OR push_bit 16 (ucast (PULL_LE_U16 (zs @ post) 0))"
    unfolding PULL_LE_U32_def xs by (simp only: append_assoc add_0)
  then show ?thesis
    using le16_PULL [OF l(1), of "zs @ post"] le16_PULL [OF l(2), of post]
    by (simp add: le32_def be32_def le16_def wire xs)
qed

lemma le64_PULL: "length xs = 8 \<Longrightarrow> le64 (PULL_LE_U64 (xs @ post) 0) = xs"
proof -
  assume "length xs = 8"
  then obtain ys zs where xs: "xs = ys @ zs" and l: "length ys = 4" "length zs = 4"
    using length_8_split by blast
  have "PULL_LE_U32 (ys @ zs @ post) 4 = PULL_LE_U32 (zs @ post) 0"
    using l by (simp add: PULL_LE_U32_shift)
  then have "PULL_LE_U64 (xs @ post) 0 =
      ucast (PULL_LE_U32 (ys @ zs @ post) 0) OR push_bit 32 (ucast (PULL_LE_U32 (zs @ post) 0))"
    unfolding PULL_LE_U64_def xs by (simp only: append_assoc add_0)
  then show ?thesis
    using le32_PULL [OF l(1), of "zs @ post"] le32_PULL [OF l(2), of post]
    by (simp add: le64_def be64_def le32_def wire xs)
qed

lemma le16_htons [wire]: "le16 (htons w) = be16 w"
  using le16_PULL [of "be16 w" "[]"] by (simp add: htons_def)
lemma le32_htonl [wire]: "le32 (htonl w) = be32 w"
  using le32_PULL [of "be32 w" "[]"] by (simp add: htonl_def)
lemma le64_htonll [wire]: "le64 (htonll w) = be64 w"
proof -
  have "le64 (htonll w) = rev (be64 (ucast (htonl (ucast (drop_bit 32 w))) OR push_bit 32 (ucast (htonl (ucast w)))))"
    by (simp add: le64_def htonll_def wire or.commute)
  also have "\<dots> = le32 (htonl (ucast (drop_bit 32 w))) @ le32 (htonl (ucast w))"
    by (simp add: be64_def le32_def wire)
  finally show ?thesis by (simp add: wire be64_def)
qed

lemma le16_inject: "le16 a = le16 b \<longleftrightarrow> a = b" by (metis PULL_LE_0(1))
lemma le32_inject: "le32 a = le32 b \<longleftrightarrow> a = b" by (metis PULL_LE_0(2))
lemma le64_inject: "le64 a = le64 b \<longleftrightarrow> a = b" by (metis PULL_LE_0(3))

lemma ntohs_htons [simp]: "ntohs (htons w) = w"
  by (subst le16_inject [symmetric]) (metis le16_def le16_htons rev_rev_ident)
lemma ntohl_htonl [simp]: "ntohl (htonl w) = w"
  by (subst le32_inject [symmetric]) (metis le32_def le32_htonl rev_rev_ident)
lemma ntohll_htonll [simp]: "ntohll (htonll w) = w"
  by (subst le64_inject [symmetric]) (metis le64_def le64_htonll rev_rev_ident)

lemma htonl_eq_iff [simp]: "htonl a = htonl b \<longleftrightarrow> a = b" by (metis ntohl_htonl)

text \<open>Reading a big-endian image through a host variable.\<close>

lemma PULL_LE_be16 [wire]: "PULL_LE_U16 (be16 w @ r) 0 = htons w"
  by (subst le16_inject [symmetric]) (simp add: le16_PULL wire)
lemma PULL_LE_be32 [wire]: "PULL_LE_U32 (be32 w @ r) 0 = htonl w"
  by (subst le32_inject [symmetric]) (simp add: le32_PULL wire)
lemma PULL_LE_be64 [wire]: "PULL_LE_U64 (be64 w @ r) 0 = htonll w"
  by (subst le64_inject [symmetric]) (simp add: le64_PULL wire)
lemmas PULL_LE_be_end [wire] = PULL_LE_be16 [where r = "[]", simplified]
  PULL_LE_be32 [where r = "[]", simplified] PULL_LE_be64 [where r = "[]", simplified]

text \<open>Every four bytes are the image of a word.\<close>

lemma be32_surj: "length xs = 4 \<Longrightarrow> \<exists>w. xs = be32 w"
  by (metis le32_PULL le32_def le32_htonl append_Nil2 rev_rev_ident)
lemma be16_surj: "length xs = 2 \<Longrightarrow> \<exists>w. xs = be16 w"
  by (metis le16_PULL le16_def le16_htons append_Nil2 rev_rev_ident)
lemma be64_surj: "length xs = 8 \<Longrightarrow> \<exists>w. xs = be64 w"
  by (metis le64_PULL le64_def le64_htonll append_Nil2 rev_rev_ident)

section \<open>The macros agree with each other\<close>

text \<open>In each width and byte order, reading at a position where a word was just written
  gives the word back, writing touches no other byte, and what is written in big-endian order
  is the reverse of what is written in little-endian order.\<close>

theorem push_pull_roundtrip:
  assumes "pos + 8 \<le> length data"
  shows "PULL_BE_U64 (PUSH_BE_U64 data pos w64) pos = w64 \<and>
    PULL_LE_U64 (PUSH_LE_U64 data pos w64) pos = w64 \<and>
    PULL_BE_U32 (PUSH_BE_U32 data pos w32) pos = w32 \<and>
    PULL_LE_U32 (PUSH_LE_U32 data pos w32) pos = w32 \<and>
    PULL_BE_U16 (PUSH_BE_U16 data pos w16) pos = w16 \<and>
    PULL_LE_U16 (PUSH_LE_U16 data pos w16) pos = w16 \<and>
    PUSH_BE_U64 data pos w64 = take pos data @ be64 w64 @ drop (pos + 8) data \<and>
    PUSH_LE_U64 data pos w64 = take pos data @ rev (be64 w64) @ drop (pos + 8) data"
  using assms PULL_BE_U64_app [of "take pos data" w64] PULL_LE_U64_app [of "take pos data" w64]
    PULL_BE_U32_app [of "take pos data" w32] PULL_LE_U32_app [of "take pos data" w32]
    PULL_BE_U16_app [of "take pos data" w16] PULL_LE_U16_app [of "take pos data" w16]
  by (simp add: push_blit blit_split min_def flip: le64_def)

theorem push_pull_roundtrip_witness:
  "PULL_BE_U64 (PUSH_BE_U64 [9, 9, 9, 9, 9, 9, 9, 9, 9] 1 0x0102030405060708) 1 = 0x0102030405060708"
proof -
  have "1 + 8 \<le> length [9, 9, 9, 9, 9, 9, 9, 9, 9 :: u8]" by simp
  from push_pull_roundtrip [OF this, of "0x0102030405060708"] show ?thesis by blast
qed

end
