(* ===== verification/SshString.thy ===== *)
theory SshString
  imports Bytes
begin

text \<open>
  \<open>string.c\<close>: the length-prefixed strings of the protocol. An \<open>ssh_string\<close> is one memory
  block: four bytes of length in network order, the data, and one spare byte (the array
  \<open>data[1]\<close> of the C structure) in which \<open>ssh_string_get_char\<close> puts a terminator.
  \<open>str_size\<close> is the length field as stored, \<open>str_data\<close> all the bytes behind it, the spare
  byte included. A C string is the list of its bytes without the terminator. \<open>NULL\<close>
  arguments and results are \<open>None\<close>.
\<close>

record ssh_string =
  str_size :: u32
  str_data :: bytes

definition STRING_SIZE_MAX :: usize where "STRING_SIZE_MAX = 0x10000000"

text \<open>\<open>sizeof(struct ssh_string_struct)\<close>: the structure is packed.\<close>

definition sizeof_ssh_string :: nat where "sizeof_ssh_string = 5"

definition ssh_string_new :: "allocator \<Rightarrow> usize \<Rightarrow> ssh_string option" where
  "ssh_string_new mem sz =
     (if sz > STRING_SIZE_MAX then None
      else case mem (sizeof_ssh_string + unat sz) of
             None \<Rightarrow> None
           | Some block \<Rightarrow>
               Some \<lparr>str_size = htonl (ucast sz), str_data = (drop 4 block)[0 := 0]\<rparr>)"

definition ssh_string_len :: "ssh_string option \<Rightarrow> usize" where
  "ssh_string_len s = (case s of
     None \<Rightarrow> 0
   | Some s \<Rightarrow> (let sz = ucast (ntohl (str_size s)) in
       if sz > 0 \<and> sz \<le> STRING_SIZE_MAX then sz else 0))"

definition ssh_string_fill ::
  "ssh_string option \<Rightarrow> bytes option \<Rightarrow> usize \<Rightarrow> ssh_string option \<times> int" where
  "ssh_string_fill s data len = (case (s, data) of
     (Some str, Some d) \<Rightarrow>
       if len = 0 \<or> len > ssh_string_len s then (s, - 1)
       else (Some (str\<lparr>str_data := blit 0 (take (unat len) d) (str_data str)\<rparr>), 0)
   | _ \<Rightarrow> (s, - 1))"

definition ssh_string_from_char :: "allocator \<Rightarrow> bytes option \<Rightarrow> ssh_string option" where
  "ssh_string_from_char mem what = (case what of
     None \<Rightarrow> None
   | Some w \<Rightarrow> (case ssh_string_new mem (of_nat (length w)) of
       None \<Rightarrow> None
     | Some ptr \<Rightarrow> Some (ptr\<lparr>str_data := blit 0 w (str_data ptr)\<rparr>)))"

definition ssh_string_from_data :: "allocator \<Rightarrow> bytes option \<Rightarrow> usize \<Rightarrow> ssh_string option" where
  "ssh_string_from_data mem data len =
     (if len > 0 \<and> data = None then None
      else case ssh_string_new mem len of
             None \<Rightarrow> None
           | Some s \<Rightarrow>
               if len > 0 then
                 (case ssh_string_fill (Some s) data len of
                    (s', rc) \<Rightarrow> if rc \<noteq> 0 then None else s')
               else Some s)"

text \<open>Writes the terminator into the spare byte; the pointer returned is to the data.\<close>

definition ssh_string_get_char :: "ssh_string option \<Rightarrow> (ssh_string \<times> bytes) option" where
  "ssh_string_get_char s = (case s of
     None \<Rightarrow> None
   | Some str \<Rightarrow> (let d = (str_data str)[unat (ssh_string_len s) := 0]
                 in Some (str\<lparr>str_data := d\<rparr>, d)))"

definition ssh_string_to_char :: "allocator \<Rightarrow> ssh_string option \<Rightarrow> bytes option" where
  "ssh_string_to_char mem s = (case s of
     None \<Rightarrow> None
   | Some str \<Rightarrow> (let len = ssh_string_len s in
       if len + 1 < len then None
       else case mem (unat (len + 1)) of
              None \<Rightarrow> None
            | Some new \<Rightarrow>
                Some ((blit 0 (take (unat len) (str_data str)) new)[unat len := 0])))"

definition ssh_string_copy :: "allocator \<Rightarrow> ssh_string option \<Rightarrow> ssh_string option" where
  "ssh_string_copy mem s = (case s of
     None \<Rightarrow> None
   | Some str \<Rightarrow> (let len = ssh_string_len s in
       case ssh_string_new mem len of
         None \<Rightarrow> None
       | Some new \<Rightarrow>
           Some (new\<lparr>str_data := blit 0 (take (unat len) (str_data str)) (str_data new)\<rparr>)))"

text \<open>\<open>memcmp\<close>: the sign of the first difference, over \<open>n\<close> bytes of both blocks.\<close>

fun memcmp :: "bytes \<Rightarrow> bytes \<Rightarrow> nat \<Rightarrow> int" where
  "memcmp (a # as) (b # bs) (Suc n) =
     (if a < b then - 1 else if a > b then 1 else memcmp as bs n)"
| "memcmp _ _ _ = 0"

definition ssh_string_cmp :: "ssh_string option \<Rightarrow> ssh_string option \<Rightarrow> int" where
  "ssh_string_cmp s1 s2 = (case (s1, s2) of
     (None, None) \<Rightarrow> 0
   | (None, Some _) \<Rightarrow> - 1
   | (Some _, None) \<Rightarrow> 1
   | (Some a, Some b) \<Rightarrow>
       (let len1 = ssh_string_len s1; len2 = ssh_string_len s2; min_len = min len1 len2;
            cmp = (if min_len > 0 then memcmp (str_data a) (str_data b) (unat min_len) else 0)
        in if cmp \<noteq> 0 then cmp
           else if len1 < len2 then - 1 else if len1 > len2 then 1 else 0))"

definition ssh_string_burn :: "ssh_string option \<Rightarrow> ssh_string option" where
  "ssh_string_burn s = (case s of
     None \<Rightarrow> None
   | Some str \<Rightarrow>
       if str_size str = 0 then s
       else Some (str\<lparr>str_data :=
              blit 0 (replicate (unat (ssh_string_len s)) 0) (str_data str)\<rparr>))"

definition ssh_string_data :: "ssh_string option \<Rightarrow> bytes option" where
  "ssh_string_data s = map_option str_data s"

section \<open>Well-formed strings and their content\<close>

definition string_wf :: "ssh_string \<Rightarrow> bool" where
  "string_wf s \<longleftrightarrow> unat (ntohl (str_size s)) \<le> 0x10000000 \<and>
     length (str_data s) = unat (ntohl (str_size s)) + 1"

definition string_content :: "ssh_string \<Rightarrow> bytes" where
  "string_content s = take (unat (ntohl (str_size s))) (str_data s)"

lemma ssh_string_len_wf: "string_wf s \<Longrightarrow> ssh_string_len (Some s) = ucast (ntohl (str_size s))"
  by (auto simp: ssh_string_len_def string_wf_def STRING_SIZE_MAX_def Let_def word_le_nat_alt
      word_less_nat_alt unat_ucast_up word_unat_eq_iff)

lemma unat_ssh_string_len: "string_wf s \<Longrightarrow> unat (ssh_string_len (Some s)) = length (string_content s)"
  by (simp add: ssh_string_len_wf unat_ucast_up string_content_def string_wf_def)

lemma ssh_string_len_le: "unat (ssh_string_len s) \<le> 0x10000000"
  by (auto simp: ssh_string_len_def Let_def STRING_SIZE_MAX_def word_le_nat_alt split: option.splits)

section \<open>Operations that allocate\<close>

lemma take_blit_0: "take n (blit 0 src dst) = take n src @ take (n - length src) (drop (length src) dst)"
  by (simp add: blit_def)

context allocator
begin

lemma ssh_string_new_wf:
  assumes "ssh_string_new mem sz = Some s"
  shows "string_wf s" and "ntohl (str_size s) = ucast sz" and "unat (ntohl (str_size s)) = unat sz"
    and "length (string_content s) = unat sz" and "unat sz \<le> 0x10000000"
    and "length (str_data s) = unat sz + 1"
proof -
  from assms obtain block where b: "mem (5 + unat sz) = Some block" and le: "unat sz \<le> 0x10000000"
    and s: "s = \<lparr>str_size = htonl (ucast sz), str_data = (drop 4 block)[0 := 0]\<rparr>"
    by (auto simp: ssh_string_new_def sizeof_ssh_string_def STRING_SIZE_MAX_def word_less_nat_alt
        split: if_splits option.splits)
  have l: "length block = 5 + unat sz" using malloc_size [OF b] .
  show u: "unat (ntohl (str_size s)) = unat sz"
    using le by (simp add: s unat_ucast_down)
  show "string_wf s" using le l by (simp add: string_wf_def s unat_ucast_down)
  then show "length (string_content s) = unat sz" by (simp add: string_content_def string_wf_def u)
  show "ntohl (str_size s) = ucast sz" by (simp add: s)
  show "unat sz \<le> 0x10000000" by (fact le)
  show "length (str_data s) = unat sz + 1" using l by (simp add: s)
qed

lemma ssh_string_fill_wf:
  assumes "string_wf s" and "unat len \<le> length d"
    and "ssh_string_fill (Some s) (Some d) len = (s', rc)"
  shows "rc = 0 \<longleftrightarrow> 0 < len \<and> unat len \<le> length (string_content s)"
    and "rc \<noteq> 0 \<Longrightarrow> s' = Some s"
    and "rc = 0 \<Longrightarrow> \<exists>t. s' = Some t \<and> string_wf t \<and> str_size t = str_size s \<and>
           string_content t = take (unat len) d @ drop (unat len) (string_content s)"
proof -
  have le: "len > ssh_string_len (Some s) \<longleftrightarrow> unat len > length (string_content s)"
    using assms(1) by (simp add: word_less_nat_alt unat_ssh_string_len)
  show "rc = 0 \<longleftrightarrow> 0 < len \<and> unat len \<le> length (string_content s)" "rc \<noteq> 0 \<Longrightarrow> s' = Some s"
    using assms(3) le by (auto simp: ssh_string_fill_def word_neq_0_conv split: if_splits)
  assume "rc = 0"
  with assms(3) le have s': "s' = Some (s\<lparr>str_data := blit 0 (take (unat len) d) (str_data s)\<rparr>)"
    and l: "unat len \<le> length (string_content s)"
    by (auto simp: ssh_string_fill_def split: if_splits)
  with assms(1,2) show "\<exists>t. s' = Some t \<and> string_wf t \<and> str_size t = str_size s \<and>
           string_content t = take (unat len) d @ drop (unat len) (string_content s)"
    by (auto simp: string_wf_def string_content_def length_blit take_blit_0 min_def drop_take)
qed

lemma ssh_string_from_data_content:
  assumes "ssh_string_from_data mem (Some d) len = Some s" and "unat len \<le> length d"
  shows "string_wf s \<and> string_content s = take (unat len) d"
proof -
  from assms(1) obtain t where t: "ssh_string_new mem len = Some t"
    and cases: "len = 0 \<and> s = t \<or> len > 0 \<and> ssh_string_fill (Some t) (Some d) len = (Some s, 0)"
    by (auto simp: ssh_string_from_data_def word_gt_0 split: option.splits if_splits prod.splits)
  note n = ssh_string_new_wf [OF t]
  from cases show ?thesis
  proof
    assume "len = 0 \<and> s = t" with n show ?thesis by simp
  next
    assume "len > 0 \<and> ssh_string_fill (Some t) (Some d) len = (Some s, 0)"
    with ssh_string_fill_wf(3) [OF n(1) assms(2)] n(4) show ?thesis by fastforce
  qed
qed

lemma ssh_string_to_char_content:
  assumes "string_wf s" and "ssh_string_to_char mem (Some s) = Some c"
  shows "c = string_content s @ [0]"
proof -
  let ?n = "length (string_content s)"
  have u: "unat (ssh_string_len (Some s) + 1) = ?n + 1"
    using ssh_string_len_le [of "Some s"] unat_ssh_string_len [OF assms(1)]
    by (simp add: unat_word_ariths)
  from assms(2) obtain new where new: "mem (?n + 1) = Some new"
    and c: "c = (blit 0 (take ?n (str_data s)) new)[?n := 0]"
    by (auto simp: ssh_string_to_char_def Let_def u unat_ssh_string_len [OF assms(1)]
        split: if_splits option.splits)
  have "take ?n (str_data s) = string_content s"
    using assms(1) by (simp add: string_content_def string_wf_def)
  moreover have "length (drop ?n new) = Suc 0" using malloc_size [OF new] by simp
  then obtain x where "drop ?n new = [x]" by (metis length_0_conv length_Suc_conv)
  ultimately show ?thesis by (simp add: c blit_0 list_update_append)
qed

end

section \<open>The order of strings\<close>

lemma memcmp_lex:
  fixes xs ys :: bytes
  shows "(memcmp (xs @ p) (ys @ q) (min (length xs) (length ys)) < 0 \<or>
      memcmp (xs @ p) (ys @ q) (min (length xs) (length ys)) = 0 \<and> length xs < length ys)
    \<longleftrightarrow> ord_class.lexordp xs ys"
  and "(memcmp (xs @ p) (ys @ q) (min (length xs) (length ys)) > 0 \<or>
      memcmp (xs @ p) (ys @ q) (min (length xs) (length ys)) = 0 \<and> length xs > length ys)
    \<longleftrightarrow> ord_class.lexordp ys xs"
  by (induction xs ys rule: list_induct2') auto

lemma string_data_split: "string_wf s \<Longrightarrow> \<exists>z. str_data s = string_content s @ [z]"
proof -
  assume wf: "string_wf s"
  then have "length (drop (unat (ntohl (str_size s))) (str_data s)) = Suc 0"
    by (simp add: string_wf_def)
  then obtain z where "drop (unat (ntohl (str_size s))) (str_data s) = [z]"
    by (metis length_0_conv length_Suc_conv)
  then show ?thesis by (metis append_take_drop_id string_content_def)
qed

lemma three_way:
  fixes m :: int and lx ly :: nat
  assumes "c = (if m \<noteq> 0 then m else if lx < ly then - 1 else if ly < lx then 1 else 0)"
    and "(m < 0 \<or> m = 0 \<and> lx < ly) \<longleftrightarrow> P" and "(m > 0 \<or> m = 0 \<and> lx > ly) \<longleftrightarrow> Q"
    and "P \<or> E \<or> Q" and "E \<longrightarrow> \<not> P \<and> \<not> Q"
  shows "(c < 0 \<longleftrightarrow> P) \<and> (c > 0 \<longleftrightarrow> Q) \<and> (c = 0 \<longleftrightarrow> E)"
  using assms by (cases "m < 0"; cases "m = 0"; cases "lx < ly"; cases "ly < lx") auto

text \<open>On well-formed strings \<open>ssh_string_cmp\<close> is the three-way comparison of the contents
  in lexicographic byte order: negative, positive or zero exactly when the first content is
  below, above or equal to the second.\<close>

theorem ssh_string_cmp_order:
  assumes "string_wf a" and "string_wf b"
  shows "(ssh_string_cmp (Some a) (Some b) < 0 \<longleftrightarrow> ord_class.lexordp (string_content a) (string_content b)) \<and>
    (ssh_string_cmp (Some a) (Some b) > 0 \<longleftrightarrow> ord_class.lexordp (string_content b) (string_content a)) \<and>
    (ssh_string_cmp (Some a) (Some b) = 0 \<longleftrightarrow> string_content a = string_content b)"
proof -
  let ?x = "string_content a" and ?y = "string_content b"
  obtain p q where d: "str_data a = ?x @ [p]" "str_data b = ?y @ [q]"
    using assms string_data_split by blast
  let ?m = "memcmp (str_data a) (str_data b) (min (length ?x) (length ?y))"
  have min: "unat (min (ssh_string_len (Some a)) (ssh_string_len (Some b))) = min (length ?x) (length ?y)"
    using assms by (simp add: min_def word_le_nat_alt unat_ssh_string_len)
  have lens: "ssh_string_len (Some a) < ssh_string_len (Some b) \<longleftrightarrow> length ?x < length ?y"
    "ssh_string_len (Some b) < ssh_string_len (Some a) \<longleftrightarrow> length ?y < length ?x"
    using assms by (simp_all add: word_less_nat_alt unat_ssh_string_len)
  have "ssh_string_cmp (Some a) (Some b) =
    (if ?m \<noteq> 0 then ?m else if length ?x < length ?y then - 1 else if length ?y < length ?x then 1 else 0)"
  proof -
    let ?l = "min (ssh_string_len (Some a)) (ssh_string_len (Some b))"
    have "(if 0 < ?l then memcmp (str_data a) (str_data b) (unat ?l) else 0) = ?m"
    proof (cases "?l = 0")
      case True
      with min have "min (length ?x) (length ?y) = 0" by (metis unat_0)
      with True show ?thesis by simp
    next
      case False
      then show ?thesis by (simp only: min word_gt_0) simp
    qed
    then show ?thesis by (simp only: ssh_string_cmp_def Let_def lens prod.case option.case)
  qed
  then show ?thesis
  proof (rule three_way)
    show "(?m < 0 \<or> ?m = 0 \<and> length ?x < length ?y) = ord_class.lexordp ?x ?y"
      "(?m > 0 \<or> ?m = 0 \<and> length ?x > length ?y) = ord_class.lexordp ?y ?x"
      unfolding d by (rule memcmp_lex)+
    show "ord_class.lexordp ?x ?y \<or> ?x = ?y \<or> ord_class.lexordp ?y ?x" by (rule lexordp_linear)
    show "?x = ?y \<longrightarrow> \<not> ord_class.lexordp ?x ?y \<and> \<not> ord_class.lexordp ?y ?x"
      by (auto simp: lexordp_irreflexive')
  qed
qed

theorem ssh_string_cmp_order_witness:
  "ssh_string_cmp (Some \<lparr>str_size = 0x02000000, str_data = [1, 2, 0]\<rparr>)
     (Some \<lparr>str_size = 0x01000000, str_data = [1, 0]\<rparr>) > 0"
proof -
  have h: "ntohl 0x02000000 = 2" "ntohl 0x01000000 = 1" by code_simp+
  then have "string_wf \<lparr>str_size = 0x02000000, str_data = [1, 2, 0]\<rparr>"
    and "string_wf \<lparr>str_size = 0x01000000, str_data = [1, 0]\<rparr>"
    and "ord_class.lexordp (string_content \<lparr>str_size = 0x01000000, str_data = [1, 0]\<rparr>)
           (string_content \<lparr>str_size = 0x02000000, str_data = [1, 2, 0]\<rparr>)"
    by (simp_all add: string_wf_def string_content_def)
  then show ?thesis using ssh_string_cmp_order by blast
qed

section \<open>From bytes and back\<close>

text \<open>A string made from \<open>len\<close> bytes of data is well formed and holds exactly these bytes,
  its length is \<open>len\<close>, and \<open>ssh_string_to_char\<close> gives them back with a terminator, unless
  the allocation of the copy fails.\<close>

theorem ssh_string_data_roundtrip:
  assumes "allocator mem" and "ssh_string_from_data mem (Some d) len = Some s"
    and "unat len \<le> length d"
  shows "string_wf s \<and> string_content s = take (unat len) d \<and> ssh_string_len (Some s) = len \<and>
    ssh_string_to_char mem (Some s) \<in> {None, Some (take (unat len) d @ [0])}"
proof -
  note c = allocator.ssh_string_from_data_content [OF assms]
  then have "unat (ssh_string_len (Some s)) = unat len"
    using assms(3) by (simp add: unat_ssh_string_len)
  then have "ssh_string_len (Some s) = len" by (simp add: word_unat_eq_iff)
  moreover have "ssh_string_to_char mem (Some s) \<in> {None, Some (take (unat len) d @ [0])}"
    using allocator.ssh_string_to_char_content [OF assms(1)] c
    by (cases "ssh_string_to_char mem (Some s)") auto
  ultimately show ?thesis using c by blast
qed

theorem ssh_string_data_roundtrip_witness:
  "ssh_string_to_char (zero_alloc 100)
     (ssh_string_from_data (zero_alloc 100) (Some [7, 8, 9]) 2) \<in> {None, Some [7, 8, 0]}"
proof -
  have s: "ssh_string_from_data (zero_alloc 100) (Some [7, 8, 9]) 2 =
      Some \<lparr>str_size = 0x02000000, str_data = [7, 8, 0]\<rparr>"
    by code_simp
  have "unat (2 :: usize) \<le> length [7, 8, 9 :: u8]" by simp
  from ssh_string_data_roundtrip [OF zero_alloc.allocator_axioms s this]
  show ?thesis by (simp add: s)
qed


end
