(* ===== verification/Buffer.thy ===== *)
theory Buffer
  imports SshString
begin

text \<open>
  \<open>buffer.c\<close>: the growable byte queue every packet is built in and parsed from. The bytes
  between \<open>pos\<close> and \<open>used\<close> are the content; bytes are appended at \<open>used\<close>, consumed (or
  prepended) at \<open>pos\<close>. \<open>buf_data\<close> is the allocated block, \<open>[]\<close> when the C pointer is \<open>NULL\<close>.

  \<open>buf_freed\<close> is a ghost: the blocks this buffer has handed back to the C allocator, each
  with its content at that moment. It is written where the code frees or reallocates and
  never read by an operation; it states what a secure buffer leaves behind in the heap.

  A pointer to a buffer is the buffer itself and an operation returns the buffer as it
  leaves it; the guards against a \<open>NULL\<close> buffer have no counterpart, those against \<open>NULL\<close>
  data do. Out parameters are passed their old value and returned.
\<close>

section \<open>The structure\<close>

record ssh_buffer =
  buf_secure :: bool
  buf_used :: u32
  buf_allocated :: u32
  buf_pos :: u32
  buf_data :: bytes
  buf_freed :: "bytes list"

definition BUFFER_SIZE_MAX :: u32 where "BUFFER_SIZE_MAX = 0x10000000"

text \<open>The consistency check of debug builds: true where the code would go on.\<close>

definition buffer_verify :: "ssh_buffer \<Rightarrow> bool" where
  "buffer_verify buf \<longleftrightarrow> (if buf_data buf = [] then True
     else \<not> (buf_used buf > buf_allocated buf \<or> buf_pos buf > buf_used buf \<or>
             buf_pos buf > buf_allocated buf))"

section \<open>Allocation\<close>

text \<open>
  The loop of \<open>realloc_buffer\<close>: \<open>smallest\<close> doubles until it exceeds \<open>needed\<close>; when the
  doubling has wrapped to 0 the loop gives up.
\<close>

lemma push_bit_32_zero: "push_bit 32 (w :: u32) = 0"
  by (rule bit_word_eqI) (simp add: bit_simps)

function smallest_power :: "u32 \<Rightarrow> u32 \<Rightarrow> u32 option" where
  "smallest_power smallest needed =
     (if smallest \<le> needed then
        (if smallest = 0 then None else smallest_power (push_bit 1 smallest) needed)
      else Some smallest)"
  by pat_completeness auto
termination
proof (relation "measure (\<lambda>(s :: u32, needed :: u32). LEAST n. push_bit n s = 0)")
  fix s needed :: u32
  assume "s \<noteq> 0"
  then have "(LEAST n. push_bit n s = 0) = Suc (LEAST n. push_bit (Suc n) s = 0)"
    using push_bit_32_zero [of s] by (intro Least_Suc [of _ 32]) auto
  moreover have "push_bit (Suc n) s = push_bit n (push_bit 1 s)" for n
    by (simp add: push_bit_push_bit)
  ultimately show "((push_bit 1 s, needed), (s, needed)) \<in>
      measure (\<lambda>(s, needed). LEAST n. push_bit n s = 0)"
    by simp
qed auto

declare smallest_power.simps [simp del]

definition realloc_buffer :: "allocator \<Rightarrow> ssh_buffer \<Rightarrow> u32 \<Rightarrow> ssh_buffer \<times> int" where
  "realloc_buffer mem buffer needed = (case smallest_power 1 needed of
     None \<Rightarrow> (buffer, - 1)
   | Some needed \<Rightarrow>
       if needed > BUFFER_SIZE_MAX then (buffer, - 1)
       else (case mem (unat needed) of
         None \<Rightarrow> (buffer, - 1)
       | Some new \<Rightarrow>
           let old = buf_data buffer; used = unat (buf_used buffer);
               kept = (if buf_secure buffer then take used old
                       else take (min (length old) (unat needed)) old);
               freed = (if buf_secure buffer then blit 0 (replicate used 0) old else old)
           in (buffer\<lparr>buf_data := blit 0 kept new, buf_allocated := needed,
                      buf_freed := freed # buf_freed buffer\<rparr>, 0)))"

definition buffer_shift :: "ssh_buffer \<Rightarrow> ssh_buffer" where
  "buffer_shift buffer =
     (let burn_pos = buf_pos buffer in
      if buf_pos buffer = 0 then buffer
      else let buffer = buffer\<lparr>
                 buf_data := blit 0 (segment (unat (buf_pos buffer)) (unat (buf_used buffer))
                                      (buf_data buffer)) (buf_data buffer),
                 buf_used := buf_used buffer - buf_pos buffer, buf_pos := 0\<rparr>
           in if buf_secure buffer
              then buffer\<lparr>buf_data := blit (unat (buf_used buffer))
                            (replicate (unat burn_pos) 0) (buf_data buffer)\<rparr>
              else buffer)"

definition ssh_buffer_allocate_size :: "allocator \<Rightarrow> ssh_buffer \<Rightarrow> u32 \<Rightarrow> ssh_buffer \<times> int" where
  "ssh_buffer_allocate_size mem buffer len =
     (if buf_allocated buffer < len then
        let buffer = (if buf_pos buffer > 0 then buffer_shift buffer else buffer) in
        case realloc_buffer mem buffer len of
          (buffer, rc) \<Rightarrow> if rc < 0 then (buffer, - 1) else (buffer, 0)
      else (buffer, 0))"

definition ssh_buffer_new :: "allocator \<Rightarrow> ssh_buffer option" where
  "ssh_buffer_new mem =
     (case ssh_buffer_allocate_size mem
        \<lparr>buf_secure = False, buf_used = 0, buf_allocated = 0, buf_pos = 0, buf_data = [],
         buf_freed = []\<rparr> (64 - 1) of
        (buf, rc) \<Rightarrow> if rc \<noteq> 0 then None else Some buf)"

text \<open>What is left in the heap after \<open>ssh_buffer_free\<close>: the blocks freed, with their content.\<close>

definition ssh_buffer_free :: "ssh_buffer \<Rightarrow> bytes list" where
  "ssh_buffer_free buffer =
     (if buf_secure buffer \<and> buf_allocated buffer > 0
      then blit 0 (replicate (unat (buf_allocated buffer)) 0) (buf_data buffer) # buf_freed buffer
      else buf_data buffer # buf_freed buffer)"

definition ssh_buffer_set_secure :: "ssh_buffer \<Rightarrow> ssh_buffer" where
  "ssh_buffer_set_secure buffer = buffer\<lparr>buf_secure := True\<rparr>"

definition ssh_buffer_reinit :: "allocator \<Rightarrow> ssh_buffer \<Rightarrow> ssh_buffer \<times> int" where
  "ssh_buffer_reinit mem buffer =
     (let buffer = (if buf_secure buffer \<and> buf_allocated buffer > 0
                    then buffer\<lparr>buf_data := blit 0 (replicate (unat (buf_allocated buffer)) 0)
                                              (buf_data buffer)\<rparr>
                    else buffer);
          buffer = buffer\<lparr>buf_used := 0, buf_pos := 0\<rparr>
      in if buf_allocated buffer > 65536
         then (case realloc_buffer mem buffer (65536 - 1) of
                 (buffer, rc) \<Rightarrow> if rc \<noteq> 0 then (buffer, - 1) else (buffer, 0))
         else (buffer, 0))"

section \<open>Adding data\<close>

text \<open>The lines that make room for \<open>len\<close> more bytes, the same in two functions.\<close>

definition make_room :: "allocator \<Rightarrow> ssh_buffer \<Rightarrow> u32 \<Rightarrow> ssh_buffer \<times> int" where
  "make_room mem buffer len =
     (if buf_allocated buffer < buf_used buffer + len then
        let buffer = (if buf_pos buffer > 0 then buffer_shift buffer else buffer)
        in realloc_buffer mem buffer (buf_used buffer + len)
      else (buffer, 0))"

definition ssh_buffer_add_data ::
  "allocator \<Rightarrow> ssh_buffer \<Rightarrow> bytes option \<Rightarrow> u32 \<Rightarrow> ssh_buffer \<times> int" where
  "ssh_buffer_add_data mem buffer data len = (case data of
     None \<Rightarrow> (buffer, - 1)
   | Some d \<Rightarrow>
       if buf_used buffer + len < len then (buffer, - 1)
       else (case make_room mem buffer len of
         (buffer, rc) \<Rightarrow>
           if rc < 0 then (buffer, - 1)
           else (buffer\<lparr>buf_data := blit (unat (buf_used buffer)) (take (unat len) d) (buf_data buffer),
                        buf_used := buf_used buffer + len\<rparr>, 0)))"

text \<open>The result is the offset in \<open>buf_data\<close> the returned pointer points at.\<close>

definition ssh_buffer_allocate :: "allocator \<Rightarrow> ssh_buffer \<Rightarrow> u32 \<Rightarrow> ssh_buffer \<times> nat option" where
  "ssh_buffer_allocate mem buffer len =
     (if buf_used buffer + len < len then (buffer, None)
      else (case make_room mem buffer len of
        (buffer, rc) \<Rightarrow>
          if rc < 0 then (buffer, None)
          else (buffer\<lparr>buf_used := buf_used buffer + len\<rparr>, Some (unat (buf_used buffer)))))"

definition ssh_buffer_add_ssh_string ::
  "allocator \<Rightarrow> ssh_buffer \<Rightarrow> ssh_string option \<Rightarrow> ssh_buffer \<times> int" where
  "ssh_buffer_add_ssh_string mem buffer string = (case string of
     None \<Rightarrow> (buffer, - 1)
   | Some s \<Rightarrow>
       let len = ssh_string_len string + 4 in
       case ssh_buffer_add_data mem buffer (Some (le32 (str_size s) @ str_data s)) (ucast len) of
         (buffer, rc) \<Rightarrow> if rc < 0 then (buffer, - 1) else (buffer, 0))"

definition ssh_buffer_add_u8 :: "allocator \<Rightarrow> ssh_buffer \<Rightarrow> u8 \<Rightarrow> ssh_buffer \<times> int" where
  "ssh_buffer_add_u8 mem buffer data = (case ssh_buffer_add_data mem buffer (Some [data]) 1 of
     (buffer, rc) \<Rightarrow> if rc < 0 then (buffer, - 1) else (buffer, 0))"

definition ssh_buffer_add_u16 :: "allocator \<Rightarrow> ssh_buffer \<Rightarrow> u16 \<Rightarrow> ssh_buffer \<times> int" where
  "ssh_buffer_add_u16 mem buffer data = (case ssh_buffer_add_data mem buffer (Some (le16 data)) 2 of
     (buffer, rc) \<Rightarrow> if rc < 0 then (buffer, - 1) else (buffer, 0))"

definition ssh_buffer_add_u32 :: "allocator \<Rightarrow> ssh_buffer \<Rightarrow> u32 \<Rightarrow> ssh_buffer \<times> int" where
  "ssh_buffer_add_u32 mem buffer data = (case ssh_buffer_add_data mem buffer (Some (le32 data)) 4 of
     (buffer, rc) \<Rightarrow> if rc < 0 then (buffer, - 1) else (buffer, 0))"

definition ssh_buffer_add_u64 :: "allocator \<Rightarrow> ssh_buffer \<Rightarrow> u64 \<Rightarrow> ssh_buffer \<times> int" where
  "ssh_buffer_add_u64 mem buffer data = (case ssh_buffer_add_data mem buffer (Some (le64 data)) 8 of
     (buffer, rc) \<Rightarrow> if rc < 0 then (buffer, - 1) else (buffer, 0))"

definition ssh_buffer_prepend_data ::
  "allocator \<Rightarrow> ssh_buffer \<Rightarrow> bytes \<Rightarrow> u32 \<Rightarrow> ssh_buffer \<times> int" where
  "ssh_buffer_prepend_data mem buffer data len =
     (if len \<le> buf_pos buffer then
        (buffer\<lparr>buf_data := blit (unat (buf_pos buffer - len)) (take (unat len) data) (buf_data buffer),
                buf_pos := buf_pos buffer - len\<rparr>, 0)
      else if buf_used buffer - buf_pos buffer + len < len then (buffer, - 1)
      else (case (if buf_allocated buffer < buf_used buffer - buf_pos buffer + len
                  then realloc_buffer mem buffer (buf_used buffer - buf_pos buffer + len)
                  else (buffer, 0)) of
        (buffer, rc) \<Rightarrow>
          if rc < 0 then (buffer, - 1)
          else let moved = blit (unat len)
                     (segment (unat (buf_pos buffer)) (unat (buf_used buffer)) (buf_data buffer))
                     (buf_data buffer)
               in (buffer\<lparr>buf_data := blit 0 (take (unat len) data) moved,
                          buf_used := buf_used buffer + (len - buf_pos buffer), buf_pos := 0\<rparr>, 0)))"

section \<open>Reading\<close>

text \<open>The memory from the current position on, which is what the returned pointer gives.\<close>

definition ssh_buffer_get :: "ssh_buffer \<Rightarrow> bytes option" where
  "ssh_buffer_get buffer =
     (if buf_data buffer = [] then None else Some (drop (unat (buf_pos buffer)) (buf_data buffer)))"

definition ssh_buffer_get_len :: "ssh_buffer \<Rightarrow> u32" where
  "ssh_buffer_get_len buffer = buf_used buffer - buf_pos buffer"

definition ssh_buffer_add_buffer :: "allocator \<Rightarrow> ssh_buffer \<Rightarrow> ssh_buffer \<Rightarrow> ssh_buffer \<times> int" where
  "ssh_buffer_add_buffer mem buffer source =
     (case ssh_buffer_add_data mem buffer (ssh_buffer_get source) (ssh_buffer_get_len source) of
        (buffer, rc) \<Rightarrow> if rc < 0 then (buffer, - 1) else (buffer, 0))"

definition ssh_buffer_dup :: "allocator \<Rightarrow> ssh_buffer \<Rightarrow> ssh_buffer option" where
  "ssh_buffer_dup mem buffer = (case ssh_buffer_new mem of
     None \<Rightarrow> None
   | Some new_buffer \<Rightarrow>
       let new_buffer = new_buffer\<lparr>buf_secure := buf_secure buffer\<rparr> in
       if ssh_buffer_get_len buffer > 0
       then (case ssh_buffer_add_data mem new_buffer (ssh_buffer_get buffer) (ssh_buffer_get_len buffer) of
               (new_buffer, rc) \<Rightarrow> if rc \<noteq> SSH_OK then None else Some new_buffer)
       else Some new_buffer)"

definition ssh_buffer_pass_bytes :: "ssh_buffer \<Rightarrow> u32 \<Rightarrow> ssh_buffer \<times> u32" where
  "ssh_buffer_pass_bytes buffer len =
     (if buf_pos buffer + len < len \<or> buf_used buffer < buf_pos buffer + len then (buffer, 0)
      else let buffer = buffer\<lparr>buf_pos := buf_pos buffer + len\<rparr>
           in (if buf_pos buffer = buf_used buffer
               then buffer\<lparr>buf_pos := 0, buf_used := 0\<rparr> else buffer, len))"

definition ssh_buffer_pass_bytes_end :: "ssh_buffer \<Rightarrow> u32 \<Rightarrow> ssh_buffer \<times> u32" where
  "ssh_buffer_pass_bytes_end buffer len =
     (if buf_used buffer < len then (buffer, 0)
      else (buffer\<lparr>buf_used := buf_used buffer - len\<rparr>, len))"

definition ssh_buffer_validate_length :: "ssh_buffer \<Rightarrow> usize \<Rightarrow> int" where
  "ssh_buffer_validate_length buffer len =
     (if ucast (buf_pos buffer) + len < len \<or> ucast (buf_pos buffer) + len > ucast (buf_used buffer)
      then SSH_ERROR else SSH_OK)"

text \<open>The bytes stored through the out pointer (none on failure) and the count returned.\<close>

definition ssh_buffer_get_data :: "ssh_buffer \<Rightarrow> u32 \<Rightarrow> ssh_buffer \<times> bytes \<times> u32" where
  "ssh_buffer_get_data buffer len =
     (if ssh_buffer_validate_length buffer (ucast len) \<noteq> SSH_OK then (buffer, [], 0)
      else (buffer\<lparr>buf_pos := buf_pos buffer + len\<rparr>,
            take (unat len) (drop (unat (buf_pos buffer)) (buf_data buffer)), len))"

definition ssh_buffer_get_u8 :: "ssh_buffer \<Rightarrow> u8 \<Rightarrow> ssh_buffer \<times> u8 \<times> u32" where
  "ssh_buffer_get_u8 buffer old = (case ssh_buffer_get_data buffer 1 of
     (buffer, data, rc) \<Rightarrow> (buffer, if rc = 0 then old else data ! 0, rc))"

definition ssh_buffer_get_u32 :: "ssh_buffer \<Rightarrow> u32 \<Rightarrow> ssh_buffer \<times> u32 \<times> u32" where
  "ssh_buffer_get_u32 buffer old = (case ssh_buffer_get_data buffer 4 of
     (buffer, data, rc) \<Rightarrow> (buffer, if rc = 0 then old else PULL_LE_U32 data 0, rc))"

definition ssh_buffer_get_u64 :: "ssh_buffer \<Rightarrow> u64 \<Rightarrow> ssh_buffer \<times> u64 \<times> u32" where
  "ssh_buffer_get_u64 buffer old = (case ssh_buffer_get_data buffer 8 of
     (buffer, data, rc) \<Rightarrow> (buffer, if rc = 0 then old else PULL_LE_U64 data 0, rc))"

definition ssh_buffer_get_ssh_string :: "allocator \<Rightarrow> ssh_buffer \<Rightarrow> ssh_buffer \<times> ssh_string option" where
  "ssh_buffer_get_ssh_string mem buffer = (case ssh_buffer_get_u32 buffer 0 of
     (buffer, stringlen, rc) \<Rightarrow>
       if rc = 0 then (buffer, None)
       else let hostlen = ntohl stringlen in
         if ssh_buffer_validate_length buffer (ucast hostlen) \<noteq> SSH_OK then (buffer, None)
         else (case ssh_string_new mem (ucast hostlen) of
           None \<Rightarrow> (buffer, None)
         | Some str \<Rightarrow>
             (case ssh_buffer_get_data buffer hostlen of
                (buffer, data, stringlen) \<Rightarrow>
                  if stringlen \<noteq> hostlen then (buffer, None)
                  else (buffer, Some (str\<lparr>str_data := blit 0 data (str_data str)\<rparr>)))))"

end
