(* ===== verification/BufferInv.thy ===== *)
theory BufferInv
  imports Buffer
begin

text \<open>
  The invariant of \<open>ssh_buffer\<close>, the content it stands for, and what each operation of
  \<open>Buffer\<close> does to them, as case rules: one case per way the operation can end, with the
  new content in each. \<open>appends\<close> is the contract all the adding operations share. The
  proofs of every later theory go through these rules and never unfold an operation.
\<close>

section \<open>Growth\<close>

lemma unat_pow2: "i < 32 \<Longrightarrow> unat (2 ^ i :: u32) = 2 ^ i"
proof -
  assume "i < 32"
  then have "(2 :: nat) ^ i < 2 ^ 32" by (intro power_strict_increasing) simp_all
  then have "unat (of_nat (2 ^ i) :: u32) = 2 ^ i"
    by (simp only: unat_of_nat take_bit_nat_eq_self) (simp add: take_bit_nat_eq_self)
  then show ?thesis by simp
qed

lemma smallest_power_from:
  assumes "i \<le> 32" and "\<forall>j < i. 2 ^ j \<le> unat needed"
  shows "case smallest_power (2 ^ i) needed of
      None \<Rightarrow> 2 ^ 31 \<le> unat needed
    | Some m \<Rightarrow> (\<exists>k < 32. unat m = 2 ^ k \<and> unat needed < 2 ^ k \<and> (\<forall>j < k. 2 ^ j \<le> unat needed))"
  using assms
proof (induction "32 - i" arbitrary: i)
  case 0
  then have i: "i = 32" by simp
  have "smallest_power (2 ^ i) needed = None"
  proof -
    have z: "(2 :: u32) ^ 32 = 0" by simp
    show ?thesis by (simp only: i z) (simp add: smallest_power.simps [of 0])
  qed
  moreover have "2 ^ 31 \<le> unat needed" using spec [OF "0.prems"(2), of 31] i by simp
  ultimately show ?case by (simp only: option.case)
next
  case (Suc d)
  then have i: "i < 32" by simp
  note step = smallest_power.simps [of "2 ^ i" needed]
  show ?case
  proof (cases "2 ^ i \<le> unat needed")
    case True
    have "(2 ^ i :: u32) \<le> needed" "(2 ^ i :: u32) \<noteq> 0"
      using True by (simp_all add: word_le_nat_alt word_unat_eq_iff unat_pow2 [OF i])
    then have "smallest_power (2 ^ i) needed = smallest_power (2 ^ Suc i) needed"
      by (simp add: step push_bit_eq_mult mult.commute)
    moreover have "\<forall>j < Suc i. 2 ^ j \<le> unat needed" using True Suc.prems(2) by (simp add: less_Suc_eq)
    ultimately show ?thesis using Suc(1) [of "Suc i"] Suc(2) i by simp
  next
    case False
    with i have "\<not> (2 ^ i :: u32) \<le> needed" by (simp add: word_le_nat_alt unat_pow2)
    then have "smallest_power (2 ^ i) needed = Some (2 ^ i)" by (simp add: step)
    with i False Suc.prems(2) show ?thesis by (auto simp: unat_pow2 intro!: exI [of _ i])
  qed
qed

lemma smallest_power_Some:
  "smallest_power 1 needed = Some m \<Longrightarrow>
    \<exists>k < 32. unat m = 2 ^ k \<and> unat needed < 2 ^ k \<and> (\<forall>j < k. 2 ^ j \<le> unat needed)"
  using smallest_power_from [of 0 needed] by simp

lemma smallest_power_None: "smallest_power 1 needed = None \<longleftrightarrow> 2 ^ 31 \<le> unat needed"
proof -
  have "2 ^ 31 > unat needed" if "k < 32" "unat needed < 2 ^ k" for k
    using that power_increasing [of k 31 "2 :: nat"] by simp
  then show ?thesis
    using smallest_power_from [of 0 needed] by (fastforce split: option.splits)
qed

lemma smallest_power_gt: "smallest_power 1 needed = Some m \<Longrightarrow> unat needed < unat m"
  by (auto dest: smallest_power_Some)

section \<open>The invariant of a buffer and its content\<close>

definition buffer_inv :: "ssh_buffer \<Rightarrow> bool" where
  "buffer_inv b \<longleftrightarrow> unat (buf_pos b) \<le> unat (buf_used b) \<and>
     unat (buf_used b) \<le> unat (buf_allocated b) \<and> 0 < unat (buf_allocated b) \<and>
     unat (buf_allocated b) \<le> 0x10000000 \<and> length (buf_data b) = unat (buf_allocated b)"

definition contents :: "ssh_buffer \<Rightarrow> bytes" where
  "contents b = segment (unat (buf_pos b)) (unat (buf_used b)) (buf_data b)"

lemma buffer_inv_verify: "buffer_inv b \<Longrightarrow> buffer_verify b"
  by (auto simp: buffer_inv_def buffer_verify_def word_less_nat_alt)

lemma length_contents: "buffer_inv b \<Longrightarrow> length (contents b) = unat (buf_used b) - unat (buf_pos b)"
  by (simp add: contents_def buffer_inv_def length_segment)

lemma unat_get_len: "buffer_inv b \<Longrightarrow> unat (ssh_buffer_get_len b) = length (contents b)"
  by (simp add: length_contents ssh_buffer_get_len_def unat_sub_if' buffer_inv_def word_le_nat_alt)

lemma segment_take: "j \<le> n \<Longrightarrow> segment i j (take n xs) = segment i j xs"
  by (simp add: segment_def min_def)

lemma segment_eqI: "take j xs = take j ys \<Longrightarrow> segment i j xs = segment i j ys"
  by (simp add: segment_def)

lemma take_blit_0_eq: "n = length src \<Longrightarrow> take n (blit 0 src dst) = src"
  by (simp add: blit_0)

lemma add_overflow32: "(a :: u32) + b < b \<longleftrightarrow> 4294967296 \<le> unat a + unat b"
  using unat32_less [of a] unat32_less [of b]
  by (auto simp: word_less_nat_alt unat_plus_if')

lemma unat_add32: "unat a + unat b < 4294967296 \<Longrightarrow> unat ((a :: u32) + b) = unat a + unat b"
  by (simp add: unat_plus_if')

lemma unat_sub32: "unat b \<le> unat a \<Longrightarrow> unat ((a :: u32) - b) = unat a - unat b"
  by (simp add: unat_sub_if')

context allocator
begin

lemma realloc_cases:
  assumes "unat (buf_used b) \<le> length (buf_data b)" and "unat (buf_used b) \<le> unat needed"
  obtains (fail) "realloc_buffer mem b needed = (b, - 1)"
  | (ok) b' where "realloc_buffer mem b needed = (b', 0)"
      and "buf_used b' = buf_used b" and "buf_pos b' = buf_pos b" and "buf_secure b' = buf_secure b"
      and "take (unat (buf_used b)) (buf_data b') = take (unat (buf_used b)) (buf_data b)"
      and "unat needed < unat (buf_allocated b')" and "unat (buf_allocated b') \<le> 0x10000000"
      and "length (buf_data b') = unat (buf_allocated b')"
      and "buf_freed b' = (if buf_secure b
             then blit 0 (replicate (unat (buf_used b)) 0) (buf_data b) else buf_data b) # buf_freed b"
proof (cases "smallest_power 1 needed")
  case None
  then show ?thesis by (intro fail) (simp add: realloc_buffer_def)
next
  case (Some m)
  note gt = smallest_power_gt [OF Some]
  show ?thesis
  proof (cases "m > BUFFER_SIZE_MAX \<or> mem (unat m) = None")
    case True
    with Some show ?thesis by (intro fail) (auto simp: realloc_buffer_def)
  next
    case False
    then obtain new where new: "mem (unat m) = Some new" and le: "unat m \<le> 0x10000000"
      by (auto simp: BUFFER_SIZE_MAX_def word_less_nat_alt)
    define kept where "kept = (if buf_secure b then take (unat (buf_used b)) (buf_data b)
                       else take (min (length (buf_data b)) (unat m)) (buf_data b))"
    have l: "length new = unat m" using malloc_size [OF new] .
    have k: "take (unat (buf_used b)) kept = take (unat (buf_used b)) (buf_data b)"
      "length kept \<le> unat m" "unat (buf_used b) \<le> length kept"
      using assms gt by (auto simp: kept_def min_def)
    show ?thesis
      by (rule ok, simp add: realloc_buffer_def Some new le Let_def not_le [symmetric]
            BUFFER_SIZE_MAX_def word_le_nat_alt flip: kept_def)
        (use gt le l k assms in \<open>simp_all add: blit_0 length_blit\<close>)
  qed
qed
end

section \<open>Making room and adding\<close>

lemma buffer_shift_spec:
  assumes "buffer_inv b"
  shows "buffer_inv (buffer_shift b)" and "contents (buffer_shift b) = contents b"
    and "buf_pos (buffer_shift b) = 0" and "buf_allocated (buffer_shift b) = buf_allocated b"
    and "buf_secure (buffer_shift b) = buf_secure b" and "buf_freed (buffer_shift b) = buf_freed b"
    and "unat (buf_used (buffer_shift b)) = length (contents b)"
proof -
  let ?p = "unat (buf_pos b)" and ?u = "unat (buf_used b)" and ?c = "contents b"
  have pu: "?p \<le> ?u" "?u \<le> length (buf_data b)" and l: "length ?c = ?u - ?p"
    using assms by (auto simp: buffer_inv_def length_contents)
  have sub: "unat (buf_used b - buf_pos b) = length ?c" using pu l by (simp add: unat_sub32)
  let ?d = "blit 0 ?c (buf_data b)" and ?z = "replicate ?p (0 :: u8)"
  have d: "length ?d = length (buf_data b)" "take (length ?c) ?d = ?c"
    using pu l by (simp_all add: length_blit take_blit_0_eq)
  have z: "length (blit (length ?c) ?z ?d) = length (buf_data b)"
      "take (length ?c) (blit (length ?c) ?z ?d) = ?c"
    using pu l d by (simp_all add: length_blit take_blit_before)
  define D where "D = (if buf_secure b then blit (length ?c) ?z ?d else ?d)"
  have D: "length D = length (buf_data b)" "take (length ?c) D = ?c"
    by (simp_all add: D_def d z)
  have shift: "buffer_shift b = (if ?p = 0 then b else b\<lparr>buf_data := D,
      buf_used := buf_used b - buf_pos b, buf_pos := 0\<rparr>)"
    by (simp add: buffer_shift_def Let_def contents_def [symmetric] sub word_unat_eq_iff D_def)
  have le: "length ?c \<le> unat (buf_allocated b)"
    using assms l unfolding buffer_inv_def by linarith
  have c: "contents (b\<lparr>buf_data := D, buf_used := buf_used b - buf_pos b, buf_pos := 0\<rparr>) = ?c"
  proof -
    have "contents b' = take (length ?c) D"
      if "b' = b\<lparr>buf_data := D, buf_used := buf_used b - buf_pos b, buf_pos := 0\<rparr>" for b'
      unfolding contents_def [of b'] by (simp add: that sub segment_def)
    then show ?thesis using D(2) by simp
  qed
  show "buffer_inv (buffer_shift b)"
    using assms D(1) le by (auto simp: shift buffer_inv_def sub)
  show "contents (buffer_shift b) = ?c"
    using c by (simp add: shift)
  show "buf_pos (buffer_shift b) = 0" "buf_allocated (buffer_shift b) = buf_allocated b"
    "buf_secure (buffer_shift b) = buf_secure b" "buf_freed (buffer_shift b) = buf_freed b"
    "unat (buf_used (buffer_shift b)) = length ?c"
    using l by (simp_all add: shift sub word_unat_eq_iff)
qed

text \<open>Two buffers that differ in their memory only.\<close>

definition same_content :: "ssh_buffer \<Rightarrow> ssh_buffer \<Rightarrow> bool" where
  "same_content b b' \<longleftrightarrow> buffer_inv b' \<and> contents b' = contents b \<and> buf_secure b' = buf_secure b"

lemma same_content_refl [intro]: "buffer_inv b \<Longrightarrow> same_content b b"
  by (simp add: same_content_def)

context allocator
begin

lemma realloc_same_content:
  assumes "buffer_inv b" and "unat (buf_used b) \<le> unat needed"
  obtains (fail) "realloc_buffer mem b needed = (b, - 1)"
  | (ok) b' where "realloc_buffer mem b needed = (b', 0)" and "same_content b b'"
      and "buf_used b' = buf_used b" and "buf_pos b' = buf_pos b"
      and "unat needed < unat (buf_allocated b')"
proof -
  have le: "unat (buf_used b) \<le> length (buf_data b)" "unat (buf_pos b) \<le> unat (buf_used b)"
    using assms(1) by (auto simp: buffer_inv_def)
  from realloc_cases [OF le(1) assms(2)] show ?thesis
  proof cases
    case 1 then show ?thesis by (rule that(1))
  next
    case (2 b')
    then have "contents b' = contents b"
      by (simp add: contents_def) (metis segment_eqI)
    with 2 le assms(2) have "same_content b b'"
      by (simp add: same_content_def buffer_inv_def)
    with 2 show ?thesis by (intro that(2)) auto
  qed
qed

lemma make_room_cases:
  assumes "buffer_inv b" and "unat (buf_used b) + unat len < 4294967296"
  obtains (fail) b' where "make_room mem b len = (b', - 1)" and "same_content b b'"
  | (ok) b' where "make_room mem b len = (b', 0)" and "same_content b b'"
      and "unat (buf_used b') + unat len \<le> unat (buf_allocated b')"
proof (cases "buf_allocated b < buf_used b + len")
  case False
  then have "unat (buf_used b) + unat len \<le> unat (buf_allocated b)"
    using assms(2) by (simp add: word_less_nat_alt unat_add32)
  with False assms(1) show ?thesis by (intro ok [of b]) (auto simp: make_room_def)
next
  case True
  define s where "s = (if buf_pos b > 0 then buffer_shift b else b)"
  have s: "same_content b s" "unat (buf_used s) \<le> unat (buf_used b)"
    using assms(1) buffer_shift_spec [OF assms(1)] length_contents [OF assms(1)]
    by (auto simp: s_def same_content_def)
  have eq: "make_room mem b len = realloc_buffer mem s (buf_used s + len)"
    using True by (simp add: make_room_def s_def Let_def)
  have u: "unat (buf_used s + len) = unat (buf_used s) + unat len"
    using s(2) assms(2) by (intro unat_add32) simp
  have inv: "buffer_inv s" using s(1) by (simp add: same_content_def)
  have "unat (buf_used s) \<le> unat (buf_used s + len)" by (simp add: u)
  from realloc_same_content [OF inv this] show ?thesis
  proof cases
    case 1 with eq s(1) show ?thesis by (intro fail [of s]) auto
  next
    case (2 b') with eq s(1) u show ?thesis
      by (intro ok [of b']) (auto simp: same_content_def)
  qed
qed

lemma add_data_cases:
  assumes "buffer_inv b" and "unat len \<le> length d"
  obtains (fail) b' where "ssh_buffer_add_data mem b (Some d) len = (b', - 1)" and "same_content b b'"
  | (ok) b' where "ssh_buffer_add_data mem b (Some d) len = (b', 0)" and "buffer_inv b'"
      and "contents b' = contents b @ take (unat len) d" and "buf_secure b' = buf_secure b"
proof (cases "buf_used b + len < len")
  case True
  then show ?thesis using assms(1) by (intro fail [of b]) (auto simp: ssh_buffer_add_data_def)
next
  case False
  then have lt: "unat (buf_used b) + unat len < 4294967296" by (simp add: add_overflow32)
  from make_room_cases [OF assms(1) lt] show ?thesis
  proof cases
    case (1 s)
    with False show ?thesis by (intro fail [of s]) (auto simp: ssh_buffer_add_data_def)
  next
    case (2 s)
    let ?d = "take (unat len) d"
    have s: "buffer_inv s" "contents s = contents b" "buf_secure s = buf_secure b"
      using 2(2) by (auto simp: same_content_def)
    then have pu: "unat (buf_pos s) \<le> unat (buf_used s)" "unat (buf_used s) \<le> length (buf_data s)"
      by (auto simp: buffer_inv_def)
    have u: "unat (buf_used s + len) = unat (buf_used s) + unat len"
      using 2(3) s(1) by (intro unat_add32) (simp add: buffer_inv_def)
    have l: "length ?d = unat len" using assms(2) by simp
    have "segment (unat (buf_pos s)) (unat (buf_used s) + unat len)
        (blit (unat (buf_used s)) ?d (buf_data s)) = contents s @ ?d"
      using segment_blit_after [of "unat (buf_used s)" "buf_data s" "unat (buf_pos s)" ?d] pu l
      by (simp add: contents_def)
    then show ?thesis using 2 s False pu l u
      by (intro ok [of "s\<lparr>buf_data := blit (unat (buf_used s)) ?d (buf_data s),
            buf_used := buf_used s + len\<rparr>"])
        (simp_all add: ssh_buffer_add_data_def buffer_inv_def contents_def length_blit)
  qed
qed

lemma allocate_cases:
  assumes "buffer_inv b"
  obtains (fail) b' where "ssh_buffer_allocate mem b len = (b', None)" and "same_content b b'"
  | (ok) b' at where "ssh_buffer_allocate mem b len = (b', Some at)" and "buffer_inv b'"
      and "at = unat (buf_pos b') + length (contents b)" and "unat (buf_used b') = at + unat len"
      and "segment (unat (buf_pos b')) at (buf_data b') = contents b" and "buf_secure b' = buf_secure b"
proof (cases "buf_used b + len < len")
  case True
  then show ?thesis using assms(1) by (intro fail [of b]) (auto simp: ssh_buffer_allocate_def)
next
  case False
  then have lt: "unat (buf_used b) + unat len < 4294967296" by (simp add: add_overflow32)
  from make_room_cases [OF assms(1) lt] show ?thesis
  proof cases
    case (1 s)
    with False show ?thesis by (intro fail [of s]) (auto simp: ssh_buffer_allocate_def)
  next
    case (2 s)
    have s: "buffer_inv s" "contents s = contents b" "buf_secure s = buf_secure b"
      using 2(2) by (auto simp: same_content_def)
    have u: "unat (buf_used s + len) = unat (buf_used s) + unat len"
      using 2(3) s(1) by (intro unat_add32) (simp add: buffer_inv_def)
    from s 2 u False length_contents [OF s(1)] show ?thesis
      by (intro ok [of "s\<lparr>buf_used := buf_used s + len\<rparr>" "unat (buf_used s)"])
        (auto simp: ssh_buffer_allocate_def buffer_inv_def contents_def)
  qed
qed

lemma allocate_size_cases:
  assumes "buffer_inv b"
  obtains (fail) b' where "ssh_buffer_allocate_size mem b len = (b', - 1)" and "same_content b b'"
  | (ok) b' where "ssh_buffer_allocate_size mem b len = (b', 0)" and "same_content b b'"
      and "unat len \<le> unat (buf_allocated b')"
proof (cases "buf_allocated b < len")
  case False
  with assms show ?thesis
    by (intro ok [of b]) (auto simp: ssh_buffer_allocate_size_def word_less_nat_alt)
next
  case True
  define s where "s = (if buf_pos b > 0 then buffer_shift b else b)"
  have s: "same_content b s" "buf_allocated s = buf_allocated b"
    using assms(1) buffer_shift_spec [OF assms(1)] by (auto simp: s_def same_content_def)
  have eq: "ssh_buffer_allocate_size mem b len =
      (case realloc_buffer mem s len of (b, rc) \<Rightarrow> if rc < 0 then (b, - 1) else (b, 0))"
    using True by (simp add: ssh_buffer_allocate_size_def s_def Let_def)
  have inv: "buffer_inv s" and "unat (buf_used s) \<le> unat len"
    using s True by (auto simp: same_content_def buffer_inv_def word_less_nat_alt)
  from realloc_same_content [OF this] show ?thesis
  proof cases
    case 1 with eq s(1) show ?thesis by (intro fail [of s]) auto
  next
    case (2 b') with eq s(1) show ?thesis
      by (intro ok [of b']) (auto simp: same_content_def)
  qed
qed

end

section \<open>The contract of the adding operations\<close>

text \<open>The contract of the operations that append \<open>bs\<close>: all of it, or nothing and a code below 0.\<close>

definition appends :: "ssh_buffer \<Rightarrow> bytes \<Rightarrow> ssh_buffer \<times> int \<Rightarrow> bool" where
  "appends b bs r \<longleftrightarrow> buffer_inv (fst r) \<and> buf_secure (fst r) = buf_secure b \<and>
     (snd r = 0 \<and> contents (fst r) = contents b @ bs \<or> snd r = - 1 \<and> contents (fst r) = contents b)"

lemma appends_fail: "same_content b b' \<Longrightarrow> appends b bs (b', - 1)"
  by (simp add: appends_def same_content_def)

lemma appends_cases:
  assumes "appends b bs r"
  obtains (fail) b' where "r = (b', - 1)" and "same_content b b'"
  | (ok) b' where "r = (b', 0)" and "buffer_inv b'" and "contents b' = contents b @ bs"
      and "buf_secure b' = buf_secure b"
  using assms by (cases r) (auto simp: appends_def same_content_def)

lemma appends_check: "appends b bs r \<Longrightarrow>
   appends b bs (case r of (b', rc) \<Rightarrow> if rc < 0 then (b', - 1) else (b', 0))"
  by (auto simp: appends_def split: prod.splits)

lemma take_4_le32: "take (4 + n) (le32 w @ d) = le32 w @ take n d"
  by (simp add: take_append)

lemma be32_htonl: "le32 w = be32 (htonl w)"
  by (metis le32_htonl ntohl_htonl)

context allocator
begin

lemma add_data_appends:
  assumes "buffer_inv b" and "unat len \<le> length d"
  shows "appends b (take (unat len) d) (ssh_buffer_add_data mem b (Some d) len)"
  using add_data_cases [OF assms] by cases (auto simp: appends_def same_content_def)

lemma add_data_whole:
  assumes "buffer_inv b" and "unat len = length d"
  shows "appends b d (ssh_buffer_add_data mem b (Some d) len)"
  using add_data_appends [OF assms(1), of len d] assms(2) by simp

lemma add_ints:
  assumes "buffer_inv b"
  shows "appends b [w8] (ssh_buffer_add_u8 mem b w8)"
    and "appends b (le16 w16) (ssh_buffer_add_u16 mem b w16)"
    and "appends b (le32 w32) (ssh_buffer_add_u32 mem b w32)"
    and "appends b (le64 w64) (ssh_buffer_add_u64 mem b w64)"
  unfolding ssh_buffer_add_u8_def ssh_buffer_add_u16_def ssh_buffer_add_u32_def ssh_buffer_add_u64_def
  by (intro appends_check add_data_whole assms; simp)+

lemma add_ssh_string_appends:
  assumes "buffer_inv b" and "string_wf s"
  shows "appends b (be32 (of_nat (length (string_content s))) @ string_content s)
           (ssh_buffer_add_ssh_string mem b (Some s))"
proof -
  let ?n = "length (string_content s)"
  have n: "?n = unat (ntohl (str_size s))" "?n \<le> 0x10000000" "length (str_data s) = ?n + 1"
    using assms(2) by (simp_all add: string_content_def string_wf_def)
  have "unat (ssh_string_len (Some s) + 4) = ?n + 4"
    using n(2) unat_ssh_string_len [OF assms(2)] by (simp add: unat_word_ariths)
  then have u: "unat (ucast (ssh_string_len (Some s) + 4) :: u32) = 4 + ?n"
    using n(2) by (simp add: unat_ucast_down)
  have "take (unat (ucast (ssh_string_len (Some s) + 4) :: u32)) (le32 (str_size s) @ str_data s) =
      be32 (of_nat ?n) @ string_content s"
  proof -
    have "of_nat ?n = ntohl (str_size s)" using n(1) by simp
    moreover have "string_content s = take ?n (str_data s)" using n(1) by (simp add: string_content_def)
    ultimately show ?thesis by (simp only: u take_4_le32) (simp only: be32_htonl)
  qed
  with add_data_appends [OF assms(1), of "ucast (ssh_string_len (Some s) + 4)"
      "le32 (str_size s) @ str_data s"] u n(3)
  show ?thesis unfolding ssh_buffer_add_ssh_string_def Let_def option.case
    by (intro appends_check) simp
qed

lemma prepend_in_place:
  assumes "buffer_inv b" and "unat len \<le> length d" and "len \<le> buf_pos b"
  defines "b' \<equiv> b\<lparr>buf_data := blit (unat (buf_pos b - len)) (take (unat len) d) (buf_data b),
    buf_pos := buf_pos b - len\<rparr>"
  shows "buffer_inv b'" and "contents b' = take (unat len) d @ contents b"
proof -
  let ?p = "unat (buf_pos b)" and ?u = "unat (buf_used b)" and ?n = "unat len"
  have le: "?n \<le> ?p" "?p \<le> ?u" "?u \<le> length (buf_data b)" "unat (buf_pos b - len) = ?p - ?n"
    using assms(1,3) by (auto simp: word_le_nat_alt buffer_inv_def unat_sub32)
  have l: "length (take ?n d) = ?n" using assms(2) by simp
  define D where "D = blit (?p - ?n) (take ?n d) (buf_data b)"
  have b': "b' = b\<lparr>buf_data := D, buf_pos := buf_pos b - len\<rparr>"
    by (simp add: b'_def D_def le(4))
  have len: "length D = length (buf_data b)" unfolding D_def using le l by (intro length_blit) simp
  then show "buffer_inv b'" using assms(1) le by (simp add: b' buffer_inv_def)
  have "segment (?p - ?n) ?u D = segment (?p - ?n) ?p D @ segment ?p ?u D"
    using le by (simp add: segment_append)
  moreover have "segment (?p - ?n) ?p D = take ?n d"
    using segment_blit_at [of "?p - ?n" "buf_data b" "take ?n d"] le l by (simp add: D_def)
  moreover have "drop ?p D = drop ?p (buf_data b)"
    using drop_blit_from [of "?p - ?n" "buf_data b" "take ?n d"] le l by (simp add: D_def)
  then have "segment ?p ?u D = segment ?p ?u (buf_data b)"
    by (simp add: segment_def drop_take)
  ultimately show "contents b' = take ?n d @ contents b"
    by (simp add: b' contents_def le(4))
qed

lemma prepend_moving:
  assumes "buffer_inv b" and "unat len \<le> length d" and "buf_pos b < len"
    and "length (contents b) + unat len \<le> unat (buf_allocated b)"
  defines "b' \<equiv> b\<lparr>buf_data := blit 0 (take (unat len) d) (blit (unat len)
      (segment (unat (buf_pos b)) (unat (buf_used b)) (buf_data b)) (buf_data b)),
    buf_used := buf_used b + (len - buf_pos b), buf_pos := 0\<rparr>"
  shows "buffer_inv b'" and "contents b' = take (unat len) d @ contents b"
proof -
  let ?c = "contents b" and ?n = "unat len"
  define D where "D = blit 0 (take ?n d) (blit ?n ?c (buf_data b))"
  have b': "b' = b\<lparr>buf_data := D, buf_used := buf_used b + (len - buf_pos b), buf_pos := 0\<rparr>"
    by (simp add: b'_def D_def contents_def)
  have inv: "unat (buf_pos b) \<le> unat (buf_used b)" "length (buf_data b) = unat (buf_allocated b)"
    "unat (buf_allocated b) \<le> 0x10000000" "unat (buf_pos b) < ?n"
    using assms(1,3) by (auto simp: buffer_inv_def word_less_nat_alt)
  have "unat (len - buf_pos b) = ?n - unat (buf_pos b)" using inv(4) by (intro unat_sub32) simp
  then have used: "unat (buf_used b + (len - buf_pos b)) = ?n + length ?c"
    using inv assms(4) length_contents [OF assms(1)] by (subst unat_add32) linarith+
  have l: "length (take ?n d) = ?n" using assms(2) by simp
  have D: "length D = unat (buf_allocated b)" "take (?n + length ?c) D = take ?n d @ ?c"
    using assms(4) inv(2) l by (simp_all add: D_def length_blit blit_def)
  show "buffer_inv b'" using assms(1,4) D(1) used by (simp add: b' buffer_inv_def)
  show "contents b' = take ?n d @ ?c"
    unfolding contents_def [of b'] by (simp add: b' used segment_def D(2))
qed

lemma prepend_cases:
  assumes "buffer_inv b" and "unat len \<le> length d"
  obtains (fail) "ssh_buffer_prepend_data mem b d len = (b, - 1)"
  | (ok) b' where "ssh_buffer_prepend_data mem b d len = (b', 0)" and "buffer_inv b'"
      and "contents b' = take (unat len) d @ contents b" and "buf_secure b' = buf_secure b"
proof (cases "len \<le> buf_pos b")
  case True
  then show ?thesis
    by (intro ok [OF _ prepend_in_place [OF assms True]]) (simp_all add: ssh_buffer_prepend_data_def)
next
  case False
  let ?c = "contents b" and ?n = "unat len" and ?need = "buf_used b - buf_pos b + len"
  have lt: "buf_pos b < len" using False by simp
  have lc: "unat (buf_used b - buf_pos b) = length ?c"
    using unat_get_len [OF assms(1)] by (simp add: ssh_buffer_get_len_def)
  have used: "unat (buf_used b) = unat (buf_pos b) + length ?c"
    using assms(1) by (simp add: length_contents buffer_inv_def)
  consider "?need < len" | "\<not> ?need < len" "buf_allocated b < ?need"
    | "\<not> ?need < len" "\<not> buf_allocated b < ?need" by blast
  then show ?thesis
  proof cases
    case 1 with False show ?thesis by (intro fail) (simp add: ssh_buffer_prepend_data_def)
  next
    case 2
    then have un: "unat ?need = length ?c + ?n"
      by (simp add: add_overflow32 lc unat_add32)
    have "unat (buf_used b) \<le> unat ?need" using used un lt by (simp add: word_less_nat_alt)
    from realloc_same_content [OF assms(1) this] show ?thesis
    proof cases
      case 1 with 2 False show ?thesis by (intro fail) (simp add: ssh_buffer_prepend_data_def)
    next
      case (2 s)
      then have s: "buffer_inv s" "contents s = ?c" "buf_secure s = buf_secure b" "buf_pos s < len"
        "length (contents s) + ?n \<le> unat (buf_allocated s)"
        using un lt by (simp_all add: same_content_def)
      with 2 False \<open>\<not> ?need < len\<close> \<open>buf_allocated b < ?need\<close> show ?thesis
        using prepend_moving(2) [OF s(1) assms(2) s(4,5)]
        by (intro ok [OF _ prepend_moving(1) [OF s(1) assms(2) s(4,5)]])
          (simp_all add: ssh_buffer_prepend_data_def Let_def)
    qed
  next
    case 3
    then have "unat ?need = length ?c + ?n" by (simp add: add_overflow32 lc unat_add32)
    with 3(2) have room: "length ?c + ?n \<le> unat (buf_allocated b)" by (simp add: word_less_nat_alt)
    show ?thesis using 3 False prepend_moving(2) [OF assms lt room]
      by (intro ok [OF _ prepend_moving(1) [OF assms lt room]])
        (simp_all add: ssh_buffer_prepend_data_def Let_def)
  qed
qed

end

section \<open>Reading\<close>

lemma contents_nonempty_data: "buffer_inv b \<Longrightarrow> buf_data b \<noteq> []"
  by (auto simp: buffer_inv_def)

lemma ssh_buffer_get_contents:
  assumes "buffer_inv b"
  obtains d where "ssh_buffer_get b = Some d" and "take (unat (ssh_buffer_get_len b)) d = contents b"
    and "unat (ssh_buffer_get_len b) \<le> length d"
proof (rule that)
  show "ssh_buffer_get b = Some (drop (unat (buf_pos b)) (buf_data b))"
    using contents_nonempty_data [OF assms] by (simp add: ssh_buffer_get_def)
  show "take (unat (ssh_buffer_get_len b)) (drop (unat (buf_pos b)) (buf_data b)) = contents b"
    using assms by (simp add: unat_get_len length_contents) (auto simp: contents_def segment_def drop_take)
  show "unat (ssh_buffer_get_len b) \<le> length (drop (unat (buf_pos b)) (buf_data b))"
    using assms by (simp add: unat_get_len length_contents) (auto simp: buffer_inv_def)
qed

lemma pass_bytes_cases:
  assumes "buffer_inv b"
  obtains (fail) "ssh_buffer_pass_bytes b len = (b, 0)" and "length (contents b) < unat len"
  | (ok) b' where "ssh_buffer_pass_bytes b len = (b', len)" and "buffer_inv b'"
      and "unat len \<le> length (contents b)" and "contents b' = drop (unat len) (contents b)"
      and "buf_secure b' = buf_secure b"
proof -
  have le: "unat (buf_pos b) \<le> unat (buf_used b)" "unat (buf_used b) \<le> 0x10000000"
    using assms by (auto simp: buffer_inv_def)
  note lc = length_contents [OF assms]
  have guard: "(buf_pos b + len < len \<or> buf_used b < buf_pos b + len) \<longleftrightarrow> length (contents b) < unat len"
  proof (cases "unat (buf_pos b) + unat len < 4294967296")
    case True
    then show ?thesis using le lc by (auto simp: word_less_nat_alt unat_add32)
  next
    case False
    then show ?thesis using le lc by (auto simp: add_overflow32)
  qed
  show ?thesis
  proof (cases "length (contents b) < unat len")
    case True with guard show ?thesis by (intro fail) (auto simp: ssh_buffer_pass_bytes_def)
  next
    case False
    then have u: "unat (buf_pos b + len) = unat (buf_pos b) + unat len"
      using le lc by (intro unat_add32) simp
    define b' where "b' = (if buf_pos b + len = buf_used b
        then b\<lparr>buf_pos := 0, buf_used := 0\<rparr> else b\<lparr>buf_pos := buf_pos b + len\<rparr>)"
    have "ssh_buffer_pass_bytes b len = (b', len)"
      using False guard by (auto simp: ssh_buffer_pass_bytes_def Let_def b'_def)
    moreover have "buffer_inv b'" "buf_secure b' = buf_secure b"
      using assms False lc by (auto simp: buffer_inv_def b'_def u)
    moreover have "contents b' = drop (unat len) (contents b)"
    proof (cases "buf_pos b + len = buf_used b")
      case True
      then have "unat (buf_used b) = unat (buf_pos b) + unat len" by (metis u)
      with True show ?thesis using lc by (simp add: b'_def contents_def)
    next
      case False then show ?thesis by (simp add: b'_def contents_def segment_def u) (simp add: add.commute)
    qed
    ultimately show ?thesis using False by (intro ok [of b']) simp_all
  qed
qed

lemma pass_bytes_end_cases:
  assumes "buffer_inv b"
  obtains (too_long) "ssh_buffer_pass_bytes_end b len = (b, 0)" and "unat (buf_used b) < unat len"
  | (cut) b' where "ssh_buffer_pass_bytes_end b len = (b', len)"
      and "unat len \<le> length (contents b)" and "buffer_inv b'"
      and "contents b' = take (length (contents b) - unat len) (contents b)"
      and "buf_secure b' = buf_secure b"
  | (into_passed) b' where "ssh_buffer_pass_bytes_end b len = (b', len)"
      and "length (contents b) < unat len" and "buf_used b' < buf_pos b'"
proof -
  note lc = length_contents [OF assms]
  have le: "unat (buf_pos b) \<le> unat (buf_used b)" using assms by (simp add: buffer_inv_def)
  show ?thesis
  proof (cases "buf_used b < len")
    case True then show ?thesis
      by (intro too_long) (simp_all add: ssh_buffer_pass_bytes_end_def word_less_nat_alt)
  next
    case False
    then have u: "unat (buf_used b - len) = unat (buf_used b) - unat len" "unat len \<le> unat (buf_used b)"
      by (simp_all add: unat_sub32 word_less_nat_alt)
    let ?b = "b\<lparr>buf_used := buf_used b - len\<rparr>"
    have eq: "ssh_buffer_pass_bytes_end b len = (?b, len)"
      using False by (simp add: ssh_buffer_pass_bytes_end_def)
    show ?thesis
    proof (cases "unat len \<le> length (contents b)")
      case True
      have "buffer_inv ?b" using assms True u lc by (auto simp: buffer_inv_def)
      moreover have "contents ?b = take (length (contents b) - unat len) (contents b)"
        using True u lc le by (simp add: contents_def segment_def take_drop min_def)
      ultimately show ?thesis using eq True by (intro cut [of ?b]) simp_all
    next
      case False
      then show ?thesis using eq u le lc
        by (intro into_passed [of ?b]) (simp_all add: word_less_nat_alt)
    qed
  qed
qed

lemma validate_length_ok:
  assumes "buffer_inv b" and "unat len < 4294967296"
  shows "ssh_buffer_validate_length b len = (if unat len \<le> length (contents b) then SSH_OK else SSH_ERROR)"
proof -
  have le: "unat (buf_pos b) \<le> unat (buf_used b)" "unat (buf_used b) \<le> 0x10000000"
    using assms(1) by (auto simp: buffer_inv_def)
  have u: "unat (ucast (buf_pos b) + len) = unat (buf_pos b) + unat len"
    using le assms(2) by (simp add: unat_plus_if' unat_ucast_up)
  show ?thesis using le length_contents [OF assms(1)]
    by (auto simp: ssh_buffer_validate_length_def word_less_nat_alt u unat_ucast_up)
qed

lemma get_data_cases:
  assumes "buffer_inv b"
  obtains (short) "ssh_buffer_get_data b len = (b, [], 0)" and "length (contents b) < unat len"
  | (ok) b' where "ssh_buffer_get_data b len = (b', take (unat len) (contents b), len)"
      and "buffer_inv b'" and "unat len \<le> length (contents b)"
      and "contents b' = drop (unat len) (contents b)" and "buf_secure b' = buf_secure b"
proof (cases "unat len \<le> length (contents b)")
  case False
  then show ?thesis using unat32_less [of len]
    by (intro short) (simp_all add: ssh_buffer_get_data_def validate_length_ok assms unat_ucast_up)
next
  case True
  note lc = length_contents [OF assms]
  let ?b = "b\<lparr>buf_pos := buf_pos b + len\<rparr>"
  have le: "unat (buf_pos b) \<le> unat (buf_used b)" "unat (buf_used b) \<le> 0x10000000"
    using assms by (auto simp: buffer_inv_def)
  then have u: "unat (buf_pos b + len) = unat (buf_pos b) + unat len"
    using True lc by (intro unat_add32) simp
  have "take (unat len) (drop (unat (buf_pos b)) (buf_data b)) = take (unat len) (contents b)"
    using True lc le by (simp add: contents_def segment_def drop_take min_def)
  then have "ssh_buffer_get_data b len = (?b, take (unat len) (contents b), len)"
    using True unat32_less [of len]
    by (simp add: ssh_buffer_get_data_def validate_length_ok assms unat_ucast_up)
  moreover have "buffer_inv ?b" using assms True lc by (auto simp: buffer_inv_def u)
  moreover have "contents ?b = drop (unat len) (contents b)"
    by (simp add: contents_def segment_def u) (simp add: add.commute)
  ultimately show ?thesis using True by (intro ok [of ?b]) simp_all
qed

lemma get_u32_be:
  assumes "buffer_inv b" and "contents b = be32 w @ rest"
  obtains b' where "ssh_buffer_get_u32 b old = (b', htonl w, 4)" and "buffer_inv b'"
    and "contents b' = rest" and "buf_secure b' = buf_secure b"
  using get_data_cases [OF assms(1), of 4]
proof cases
  case 1 with assms(2) show ?thesis by simp
next
  case (2 b') with assms(2) show ?thesis
    by (intro that [of b']) (simp_all add: ssh_buffer_get_u32_def wire)
qed

lemma get_u32_short:
  assumes "buffer_inv b" and "length (contents b) < 4"
  shows "ssh_buffer_get_u32 b old = (b, old, 0)"
  using get_data_cases [OF assms(1), of 4] assms(2)
  by cases (auto simp: ssh_buffer_get_u32_def)

lemma contents_u32_cases:
  obtains "length xs < 4" | w rest where "xs = be32 w @ (rest :: bytes)"
proof (cases "length xs < 4")
  case False
  then obtain w where "take 4 xs = be32 w" using be32_surj [of "take 4 xs"] by auto
  then show ?thesis using that(2) by (metis append_take_drop_id)
qed

end
