(* ===== verification/BufferSpec.thy ===== *)
theory BufferSpec
  imports BufferInv
begin

text \<open>
  What \<open>buffer.c\<close> promises. The locale \<open>byte_queue\<close> is the interface the rest of the program
  relies on, a queue of bytes with a put that keeps everything or nothing and a get that
  gives exactly the bytes asked for or none; it holds for \<open>ssh_buffer\<close> over every allocator.
  The properties of the buffer follow.
\<close>

section \<open>Creation, reinitialisation and strings\<close>

lemma be32_app_eq: assumes "be32 a @ xs = be32 b @ ys" shows "a = b" and "xs = ys"
proof -
  have "be32 a = be32 b" "xs = ys" using assms append_eq_append_conv [of "be32 a" "be32 b" xs ys] by simp_all
  then show "a = b" "xs = ys" by (simp_all only: PULL_BE_0(5)) (metis PULL_BE_0(5))
qed


lemma take_be32_app: "take 4 (be32 w @ xs) = be32 w" "drop 4 (be32 w @ xs) = xs"
  by simp_all

context allocator
begin

lemma new_cases:
  obtains (fail) "ssh_buffer_new mem = None"
  | (ok) b where "ssh_buffer_new mem = Some b" and "buffer_inv b" and "contents b = []"
      and "\<not> buf_secure b" and "buf_freed b = [[]]"
proof -
  let ?z = "\<lparr>buf_secure = False, buf_used = 0, buf_allocated = 0, buf_pos = 0, buf_data = [], buf_freed = []\<rparr>"
  have "unat (buf_used ?z) \<le> length (buf_data ?z)" "unat (buf_used ?z) \<le> unat (63 :: u32)" by simp_all
  from realloc_cases [OF this] show ?thesis
  proof cases
    case 1 then show ?thesis
      by (intro fail) (simp add: ssh_buffer_new_def ssh_buffer_allocate_size_def)
  next
    case (2 b')
    then show ?thesis
      by (intro ok [of b']) (simp_all add: ssh_buffer_new_def ssh_buffer_allocate_size_def
          buffer_inv_def contents_def)
  qed
qed

lemma reinit_cases:
  assumes "buffer_inv b"
  obtains (fail) b' where "ssh_buffer_reinit mem b = (b', - 1)" and "buffer_inv b'" and "contents b' = []"
      and "buf_secure b' = buf_secure b"
  | (ok) b' where "ssh_buffer_reinit mem b = (b', 0)" and "buffer_inv b'" and "contents b' = []"
      and "buf_secure b' = buf_secure b" and "unat (buf_allocated b') \<le> 65536"
proof -
  define s where "s = (if buf_secure b \<and> buf_allocated b > 0
    then b\<lparr>buf_data := blit 0 (replicate (unat (buf_allocated b)) 0) (buf_data b)\<rparr>
    else b)\<lparr>buf_used := 0, buf_pos := 0\<rparr>"
  have s: "buffer_inv s" "contents s = []" "buf_secure s = buf_secure b" "buf_used s = 0"
    using assms by (auto simp: s_def buffer_inv_def contents_def length_blit)
  have eq: "ssh_buffer_reinit mem b = (if buf_allocated s > 65536
      then (case realloc_buffer mem s 65535 of (b, rc) \<Rightarrow> if rc \<noteq> 0 then (b, - 1) else (b, 0))
      else (s, 0))"
    by (simp add: ssh_buffer_reinit_def Let_def s_def)
  show ?thesis
  proof (cases "buf_allocated s > 65536")
    case False with eq s show ?thesis by (intro ok [of s]) (auto simp: word_less_nat_alt)
  next
    case True
    have u: "unat (buf_used s) \<le> length (buf_data s)" "unat (buf_used s) \<le> unat (65535 :: u32)"
      by (simp_all add: s)
    from realloc_cases [OF u] show ?thesis
    proof cases
      case 1 with True eq s show ?thesis by (intro fail [of s]) simp_all
    next
      case (2 b')
      have "smallest_power 1 65535 = Some 65536" by code_simp
      then have "unat (buf_allocated b') = 65536"
        using 2(1) by (auto simp: realloc_buffer_def Let_def split: if_splits option.splits)
      moreover have "buffer_inv b'" "contents b' = []"
        using 2 s by (auto simp: buffer_inv_def contents_def)
      ultimately show ?thesis using 2 True eq s by (intro ok [of b']) simp_all
    qed
  qed
qed

lemma get_ssh_string_cases:
  assumes "buffer_inv b"
  obtains (short) "ssh_buffer_get_ssh_string mem b = (b, None)" and "length (contents b) < 4"
  | (overrun) b' w rest where "ssh_buffer_get_ssh_string mem b = (b', None)" and "buffer_inv b'"
      and "contents b = be32 w @ rest" and "contents b' = rest" and "length rest < unat w"
      and "buf_secure b' = buf_secure b"
  | (oom) b' w rest where "ssh_buffer_get_ssh_string mem b = (b', None)" and "buffer_inv b'"
      and "contents b = be32 w @ rest" and "contents b' = rest" and "unat w \<le> length rest"
      and "ssh_string_new mem (ucast w) = None" and "buf_secure b' = buf_secure b"
  | (ok) b' s w rest where "ssh_buffer_get_ssh_string mem b = (b', Some s)" and "buffer_inv b'"
      and "contents b = be32 w @ rest" and "unat w \<le> length rest" and "string_wf s"
      and "string_content s = take (unat w) rest" and "contents b' = drop (unat w) rest"
      and "buf_secure b' = buf_secure b"
proof (cases "contents b" rule: contents_u32_cases)
  case 1
  then show ?thesis
    by (intro short) (simp_all add: ssh_buffer_get_ssh_string_def get_u32_short assms)
next
  case (2 w rest)
  from get_u32_be [OF assms 2, of 0] obtain a where
    a: "ssh_buffer_get_u32 b 0 = (a, htonl w, 4)" "buffer_inv a" "contents a = rest"
      "buf_secure a = buf_secure b" by blast
  have v: "ssh_buffer_validate_length a (ucast w) = (if unat w \<le> length rest then SSH_OK else SSH_ERROR)"
    using validate_length_ok [OF a(2), of "ucast w"] unat32_less [of w] a(3)
    by (simp add: unat_ucast_up)
  show ?thesis
  proof (cases "unat w \<le> length rest")
    case False
    with a v 2 show ?thesis
      by (intro overrun [of a w rest]) (simp_all add: ssh_buffer_get_ssh_string_def)
  next
    case True
    show ?thesis
    proof (cases "ssh_string_new mem (ucast w)")
      case None
      with True a v 2 show ?thesis
        by (intro oom [of a w rest]) (simp_all add: ssh_buffer_get_ssh_string_def)
    next
      case (Some t)
      note t = ssh_string_new_wf [OF Some, unfolded unat_ucast_up]
      from get_data_cases [OF a(2), of w] show ?thesis
      proof cases
        case 1 with True a(3) show ?thesis by simp
      next
        case (2 b')
        let ?s = "t\<lparr>str_data := blit 0 (take (unat w) rest) (str_data t)\<rparr>"
        have "ssh_buffer_get_ssh_string mem b = (b', Some ?s)"
          using 2 a True v Some by (simp add: ssh_buffer_get_ssh_string_def)
        moreover have "string_wf ?s" "string_content ?s = take (unat w) rest"
          using t True by (simp_all add: string_wf_def string_content_def length_blit take_blit_0)
        ultimately show ?thesis
          using 2 a True \<open>contents b = be32 w @ rest\<close> by (intro ok [of b' ?s w rest]) simp_all
      qed
    qed
  qed
qed

lemma add_get_ssh_string:
  assumes "buffer_inv b" and "contents b = []" and "string_wf s"
    and "ssh_buffer_add_ssh_string mem b (Some s) = (b1, 0)"
    and "ssh_buffer_get_ssh_string mem b1 = (b2, Some t)"
  shows "string_content t = string_content s \<and> contents b2 = [] \<and> buffer_inv b2"
proof -
  let ?n = "length (string_content s)"
  have b1: "buffer_inv b1" "contents b1 = be32 (of_nat ?n) @ string_content s"
    using add_ssh_string_appends [OF assms(1,3)] assms(2,4) by (auto simp: appends_def)
  have n: "unat (of_nat ?n :: u32) = ?n"
    using assms(3) by (simp add: string_wf_def string_content_def)
  from get_ssh_string_cases [OF b1(1)] show ?thesis
  proof cases
    case (4 b' s' w rest)
    have "be32 (of_nat ?n) @ string_content s = be32 w @ rest" by (rule trans [OF b1(2) [symmetric] 4(3)])
    then have eq: "of_nat ?n = w" "string_content s = rest" by (rule be32_app_eq)+
    with n have "unat w = length rest" by simp
    with 4 assms(5) eq show ?thesis by simp
  qed (use assms(5) in simp_all)
qed

end

section \<open>A buffer is a queue of bytes\<close>

fun put_all :: "('q \<Rightarrow> bytes \<Rightarrow> 'q \<times> int) \<Rightarrow> 'q \<Rightarrow> bytes list \<Rightarrow> 'q \<times> int" where
  "put_all put q [] = (q, 0)"
| "put_all put q (x # xs) =
     (case put q x of (q', rc) \<Rightarrow> if rc \<noteq> 0 then (q', rc) else put_all put q' xs)"

fun get_all :: "('q \<Rightarrow> u32 \<Rightarrow> 'q \<times> bytes \<times> u32) \<Rightarrow> 'q \<Rightarrow> nat list \<Rightarrow> 'q \<times> bytes list" where
  "get_all get q [] = (q, [])"
| "get_all get q (n # ns) = (case get q (of_nat n) of (q', x, r) \<Rightarrow>
     case get_all get q' ns of (q'', xs) \<Rightarrow> (q'', x # xs))"

locale byte_queue =
  fixes ok :: "'q \<Rightarrow> bool" and content :: "'q \<Rightarrow> bytes"
    and put :: "'q \<Rightarrow> bytes \<Rightarrow> 'q \<times> int" and get :: "'q \<Rightarrow> u32 \<Rightarrow> 'q \<times> bytes \<times> u32"
  assumes put_law: "ok q \<Longrightarrow> length bs < 4294967296 \<Longrightarrow> put q bs = (q', rc) \<Longrightarrow>
      ok q' \<and> (rc = 0 \<and> content q' = content q @ bs \<or> rc < 0 \<and> content q' = content q)"
    and get_law: "ok q \<Longrightarrow> get q n = (q', bs, r) \<Longrightarrow>
      ok q' \<and> (if unat n \<le> length (content q)
               then r = n \<and> bs = take (unat n) (content q) \<and> content q' = drop (unat n) (content q)
               else r = 0 \<and> bs = [] \<and> content q' = content q)"
begin

lemma put_all_content:
  "ok q \<Longrightarrow> \<forall>x \<in> set xs. length x < 4294967296 \<Longrightarrow> put_all put q xs = (q', 0) \<Longrightarrow>
    ok q' \<and> content q' = content q @ concat xs"
proof (induction xs arbitrary: q)
  case Nil
  then show ?case by simp
next
  case (Cons x xs)
  obtain q1 rc where p: "put q x = (q1, rc)" by (cases "put q x")
  with Cons.prems have "rc = 0" "put_all put q1 xs = (q', 0)" by (auto split: if_splits)
  with put_law [OF Cons.prems(1) _ p] Cons.prems(2) Cons.IH [of q1] show ?case by auto
qed

lemma get_all_content:
  "ok q \<Longrightarrow> \<forall>x \<in> set xs. length x < 4294967296 \<Longrightarrow> content q = concat xs @ rest \<Longrightarrow>
    \<exists>q'. get_all get q (map length xs) = (q', xs) \<and> ok q' \<and> content q' = rest"
proof (induction xs arbitrary: q)
  case Nil
  then show ?case by simp
next
  case (Cons x xs)
  obtain q1 y r where g: "get q (of_nat (length x)) = (q1, y, r)" by (cases "get q (of_nat (length x))") auto
  have u: "unat (of_nat (length x) :: u32) = length x"
    using Cons.prems(2) by (simp add: take_bit_nat_eq_self unat_of_nat)
  from get_law [OF Cons.prems(1) g] Cons.prems(3)
  have "ok q1" "y = x" "content q1 = concat xs @ rest" by (simp_all add: u)
  with Cons.IH [of q1] Cons.prems(2) obtain q' where
    "get_all get q1 (map length xs) = (q', xs)" "ok q'" "content q' = rest" by auto
  with g \<open>y = x\<close> show ?case by simp
qed

lemma put_get_all:
  assumes "ok q" and "\<forall>x \<in> set xs. length x < 4294967296" and "content q = []"
    and "put_all put q xs = (q', 0)"
  shows "\<exists>q''. get_all get q' (map length xs) = (q'', xs) \<and> ok q'' \<and> content q'' = []"
  using get_all_content [of q' xs "[]"] put_all_content [OF assms(1,2,4)] assms(2,3) by simp

end

definition buffer_put :: "allocator \<Rightarrow> ssh_buffer \<Rightarrow> bytes \<Rightarrow> ssh_buffer \<times> int" where
  "buffer_put mem b bs = ssh_buffer_add_data mem b (Some bs) (of_nat (length bs))"

sublocale allocator \<subseteq> queue: byte_queue buffer_inv contents "buffer_put mem" ssh_buffer_get_data
proof
  fix b b' :: ssh_buffer and bs :: bytes and rc
  assume inv: "buffer_inv b" and l: "length bs < 4294967296" and put: "buffer_put mem b bs = (b', rc)"
  have u: "unat (of_nat (length bs) :: u32) = length bs"
    using l by (simp add: take_bit_nat_eq_self unat_of_nat)
  from add_data_whole [OF inv u] put
  show "buffer_inv b' \<and> (rc = 0 \<and> contents b' = contents b @ bs \<or> rc < 0 \<and> contents b' = contents b)"
    by (auto simp: appends_def buffer_put_def)
next
  fix b b' :: ssh_buffer and n r :: u32 and bs :: bytes
  assume inv: "buffer_inv b" and get: "ssh_buffer_get_data b n = (b', bs, r)"
  from get_data_cases [OF inv, of n] get
  show "buffer_inv b' \<and> (if unat n \<le> length (contents b)
      then r = n \<and> bs = take (unat n) (contents b) \<and> contents b' = drop (unat n) (contents b)
      else r = 0 \<and> bs = [] \<and> contents b' = contents b)"
    by cases (use inv in auto)
qed

section \<open>Properties\<close>

context allocator
begin

lemma add_buffer_appends:
  assumes "buffer_inv b" and "buffer_inv src"
  shows "appends b (contents src) (ssh_buffer_add_buffer mem b src)"
proof -
  from ssh_buffer_get_contents [OF assms(2)] obtain d where
    d: "ssh_buffer_get src = Some d" "take (unat (ssh_buffer_get_len src)) d = contents src"
      "unat (ssh_buffer_get_len src) \<le> length d" .
  show ?thesis unfolding ssh_buffer_add_buffer_def d(1)
    using add_data_appends [OF assms(1) d(3)] d(2) by (intro appends_check) simp
qed

lemma fifo:
  assumes "buffer_inv b" and "contents b = []" and "\<forall>x \<in> set xs. length x < 4294967296"
    and "put_all (buffer_put mem) b xs = (b', 0)"
  shows "\<exists>b''. get_all ssh_buffer_get_data b' (map length xs) = (b'', xs) \<and>
    buffer_inv b'' \<and> contents b'' = []"
  using queue.put_get_all [OF assms(1,3,2,4)] .

end

text \<open>C28: every operation that adds to a buffer refines appending to a byte list: on a buffer
  that satisfies the invariant, and over any allocator, it either returns 0 and the content
  grows at its end by exactly the bytes given (an integer as its image in memory, a string as
  its length in network order and its content), or returns -1 and the content is unchanged.
  The invariant and the secure flag are kept in both cases.\<close>

theorem ssh_buffer_add_refines_append:
  assumes "allocator mem" and "buffer_inv b" and "buffer_inv src" and "string_wf s"
    and "unat len \<le> length d"
  shows "appends b (take (unat len) d) (ssh_buffer_add_data mem b (Some d) len) \<and>
    appends b [w8] (ssh_buffer_add_u8 mem b w8) \<and>
    appends b (le16 w16) (ssh_buffer_add_u16 mem b w16) \<and>
    appends b (be32 w32) (ssh_buffer_add_u32 mem b (htonl w32)) \<and>
    appends b (be64 w64) (ssh_buffer_add_u64 mem b (htonll w64)) \<and>
    appends b (be32 (of_nat (length (string_content s))) @ string_content s)
      (ssh_buffer_add_ssh_string mem b (Some s)) \<and>
    appends b (contents src) (ssh_buffer_add_buffer mem b src)"
  using allocator.add_data_appends [OF assms(1,2,5)] allocator.add_ints [OF assms(1,2)]
    allocator.add_ssh_string_appends [OF assms(1,2,4)] allocator.add_buffer_appends [OF assms(1,2,3)]
  by (metis le32_htonl le64_htonll)

text \<open>A buffer with an eight byte block whose first byte has been consumed.\<close>

definition sample_buffer :: ssh_buffer where
  "sample_buffer = \<lparr>buf_secure = True, buf_used = 5, buf_allocated = 8, buf_pos = 2,
     buf_data = [1, 2, 3, 4, 5, 0, 0, 0], buf_freed = []\<rparr>"

lemma sample_buffer_inv: "buffer_inv sample_buffer" "contents sample_buffer = [3, 4, 5]"
  by (simp_all add: sample_buffer_def buffer_inv_def contents_def segment_def)

lemma sample_string_wf: "string_wf \<lparr>str_size = 0x02000000, str_data = [7, 8, 0]\<rparr>"
proof -
  have "ntohl 0x02000000 = 2" by code_simp
  then show ?thesis by (simp add: string_wf_def)
qed

theorem ssh_buffer_add_refines_append_witness:
  "appends sample_buffer [3, 4, 5] (ssh_buffer_add_buffer (zero_alloc 100) sample_buffer sample_buffer)"
proof -
  have "unat (1 :: u32) \<le> length [9 :: u8]" by simp
  from ssh_buffer_add_refines_append [OF zero_alloc.allocator_axioms sample_buffer_inv(1)
      sample_buffer_inv(1) sample_string_wf this]
  show ?thesis by (simp add: sample_buffer_inv(2))
qed

text \<open>C29: a buffer is a first-in first-out queue. Whatever non-overlong chunks are added to an
  empty buffer one after the other, if every addition succeeds then reading chunks of the same
  lengths gives them back in order and leaves the buffer empty.\<close>

theorem ssh_buffer_fifo:
  assumes "allocator mem" and "buffer_inv b" and "contents b = []"
    and "\<forall>x \<in> set xs. length x < 4294967296"
    and "put_all (buffer_put mem) b xs = (b', 0)"
  shows "\<exists>b''. get_all ssh_buffer_get_data b' (map length xs) = (b'', xs) \<and>
    buffer_inv b'' \<and> contents b'' = []"
  using allocator.fifo [OF assms] .

theorem ssh_buffer_fifo_witness:
  "\<exists>b''. get_all ssh_buffer_get_data
      (fst (put_all (buffer_put (zero_alloc 100)) (the (ssh_buffer_new (zero_alloc 100))) [[1], [2, 3], []]))
      (map length [[1 :: u8], [2, 3], []]) = (b'', [[1], [2, 3], []]) \<and>
    buffer_inv b'' \<and> contents b'' = []"
proof -
  let ?b = "the (ssh_buffer_new (zero_alloc 100))"
  have b: "ssh_buffer_new (zero_alloc 100) \<noteq> None" by code_simp
  have inv: "buffer_inv ?b" "contents ?b = []"
    using b by (cases rule: zero_alloc.new_cases [of 100]; simp)+
  have "snd (put_all (buffer_put (zero_alloc 100)) ?b [[1], [2, 3], []]) = 0" by code_simp
  then have p: "put_all (buffer_put (zero_alloc 100)) ?b [[1], [2, 3], []] =
      (fst (put_all (buffer_put (zero_alloc 100)) ?b [[1], [2, 3], []]), 0)"
    by (metis prod.collapse)
  have "\<forall>x \<in> set [[1], [2, 3], []]. length (x :: bytes) < 4294967296" by simp
  from ssh_buffer_fifo [OF zero_alloc.allocator_axioms inv this p] show ?thesis .
qed

context allocator
begin

lemma new_fresh: "ssh_buffer_new mem = Some n \<Longrightarrow> buffer_inv n \<and> contents n = [] \<and> \<not> buf_secure n"
  by (cases rule: new_cases) simp_all

lemma reinit_fresh:
  assumes "buffer_inv b"
  shows "case ssh_buffer_reinit mem b of (b', rc) \<Rightarrow> buffer_inv b' \<and> contents b' = [] \<and>
       buf_secure b' = buf_secure b \<and> (rc = 0 \<and> unat (buf_allocated b') \<le> 65536 \<or> rc = - 1)"
  using reinit_cases [OF assms] by cases simp_all

lemma dup_same:
  assumes "buffer_inv b" and "ssh_buffer_dup mem b = Some d"
  shows "buffer_inv d \<and> contents d = contents b \<and> buf_secure d = buf_secure b"
proof -
  obtain n where n: "ssh_buffer_new mem = Some n" using assms(2)
    by (auto simp: ssh_buffer_dup_def split: option.splits)
  let ?n = "n\<lparr>buf_secure := buf_secure b\<rparr>"
  have inv: "buffer_inv ?n" "contents ?n = []"
    using new_fresh [OF n] by (simp_all add: buffer_inv_def contents_def)
  from ssh_buffer_get_contents [OF assms(1)] obtain c where
    c: "ssh_buffer_get b = Some c" "take (unat (ssh_buffer_get_len b)) c = contents b"
      "unat (ssh_buffer_get_len b) \<le> length c" .
  show ?thesis
  proof (cases "ssh_buffer_get_len b > 0")
    case False
    then have "ssh_buffer_get_len b = 0" by (simp add: word_gt_0)
    then have "contents b = []" using c(2) by simp
    with False assms(2) n inv show ?thesis by (auto simp: ssh_buffer_dup_def)
  next
    case True
    with assms(2) n c(1) have "ssh_buffer_add_data mem ?n (Some c) (ssh_buffer_get_len b) = (d, 0)"
      by (auto simp: ssh_buffer_dup_def Let_def split: prod.splits if_splits)
    with add_data_appends [OF inv(1) c(3)] c(2) inv(2) show ?thesis by (auto simp: appends_def)
  qed
qed

end

section \<open>Growth and failure\<close>

lemma two_power_bounds: "k < 32 \<Longrightarrow> n < 2 ^ k \<Longrightarrow> \<forall>j < k. (2 :: nat) ^ j \<le> n \<Longrightarrow>
    2 ^ k \<le> (0x10000000 :: nat) \<longleftrightarrow> n < 0x10000000"
proof -
  assume k: "k < 32" "n < 2 ^ k" "\<forall>j < k. (2 :: nat) ^ j \<le> n"
  have p: "(2 :: nat) ^ 28 = 0x10000000" by simp
  show ?thesis
  proof (cases "k \<le> 28")
    case True
    then have "(2 :: nat) ^ k \<le> 2 ^ 28" by (intro power_increasing) simp_all
    with k(2) show ?thesis unfolding p by linarith
  next
    case False
    then have "(2 :: nat) ^ 28 < 2 ^ k" by (intro power_strict_increasing) simp_all
    moreover have "(2 :: nat) ^ 28 \<le> n" using False spec [OF k(3), of 28] by simp
    ultimately show ?thesis unfolding p by linarith
  qed
qed

text \<open>\<open>realloc_buffer\<close> terminates for every request, and the size it allocates is the
  smallest power of two strictly greater than the request: it succeeds exactly when the request
  is below the 256 MiB limit and the allocator gives a block of that size; on failure the
  buffer is untouched.\<close>

theorem realloc_buffer_size:
  "\<exists>k. unat needed < 2 ^ k \<and> (\<forall>j < k. 2 ^ j \<le> unat needed) \<and>
    (if unat needed < 0x10000000 \<and> mem (2 ^ k) \<noteq> None
     then snd (realloc_buffer mem b needed) = 0 \<and>
          unat (buf_allocated (fst (realloc_buffer mem b needed))) = 2 ^ k
     else realloc_buffer mem b needed = (b, - 1))"
proof (cases "smallest_power 1 needed")
  case None
  then have big: "2 ^ 31 \<le> unat needed" by (simp add: smallest_power_None)
  have "realloc_buffer mem b needed = (b, - 1)" by (simp add: realloc_buffer_def None)
  moreover have "\<forall>j < 32. (2 :: nat) ^ j \<le> unat needed"
  proof (intro allI impI)
    fix j :: nat assume "j < 32"
    then have "(2 :: nat) ^ j \<le> 2 ^ 31" by (intro power_increasing) simp_all
    with big show "2 ^ j \<le> unat needed" by linarith
  qed
  ultimately show ?thesis using big unat32_less [of needed] by (intro exI [of _ 32]) simp
next
  case (Some m)
  then obtain k where k: "k < 32" "unat m = 2 ^ k" "unat needed < 2 ^ k"
    "\<forall>j < k. 2 ^ j \<le> unat needed" using smallest_power_Some by blast
  have "m > BUFFER_SIZE_MAX \<longleftrightarrow> \<not> unat needed < 0x10000000"
    using two_power_bounds [OF k(1,3,4)] by (simp add: BUFFER_SIZE_MAX_def word_less_nat_alt k(2) not_le [symmetric])
  then have "if unat needed < 0x10000000 \<and> mem (2 ^ k) \<noteq> None
     then snd (realloc_buffer mem b needed) = 0 \<and>
          unat (buf_allocated (fst (realloc_buffer mem b needed))) = 2 ^ k
     else realloc_buffer mem b needed = (b, - 1)"
    by (auto simp: realloc_buffer_def Some k(2) Let_def)
  with k show ?thesis by blast
qed

theorem realloc_buffer_size_witness:
  "unat (buf_allocated (fst (realloc_buffer (zero_alloc 1000) sample_buffer 100))) = 128"
proof -
  obtain k where k: "unat (100 :: u32) < 2 ^ k" "\<forall>j < k. 2 ^ j \<le> unat (100 :: u32)"
    and r: "if unat (100 :: u32) < 0x10000000 \<and> zero_alloc 1000 (2 ^ k) \<noteq> None
      then snd (realloc_buffer (zero_alloc 1000) sample_buffer 100) = 0 \<and>
        unat (buf_allocated (fst (realloc_buffer (zero_alloc 1000) sample_buffer 100))) = 2 ^ k
      else realloc_buffer (zero_alloc 1000) sample_buffer 100 = (sample_buffer, - 1)"
    using realloc_buffer_size [of 100 "zero_alloc 1000" sample_buffer] by blast
  have "\<not> 7 < k" using spec [OF k(2), of 7] by auto
  moreover have "\<not> k < 7"
  proof
    assume "k < 7"
    then have "(2 :: nat) ^ k \<le> 2 ^ 6" by (intro power_increasing) simp_all
    with k(1) show False by simp
  qed
  ultimately have "k = 7" by linarith
  with r show ?thesis by (simp add: zero_alloc_def)
qed

text \<open>Prepending either fails with the buffer untouched, or puts exactly the bytes given in
  front of the content, whether it uses the space already consumed or moves the content; the
  invariant, and so memory safety of the moves, is kept.\<close>

theorem ssh_buffer_prepend_data_spec:
  assumes "allocator mem" and "buffer_inv b" and "unat len \<le> length d"
  shows "case ssh_buffer_prepend_data mem b d len of (b', rc) \<Rightarrow>
    buffer_inv b' \<and> (rc = - 1 \<and> b' = b \<or> rc = 0 \<and> contents b' = take (unat len) d @ contents b)"
  using allocator.prepend_cases [OF assms] by (rule) (use assms(2) in auto)

theorem ssh_buffer_prepend_data_spec_witness:
  "case ssh_buffer_prepend_data (zero_alloc 100) sample_buffer [7, 8, 9] 3 of (b', rc) \<Rightarrow>
    buffer_inv b' \<and> (rc = - 1 \<and> b' = sample_buffer \<or> rc = 0 \<and> contents b' = [7, 8, 9, 3, 4, 5])"
proof -
  have "unat (3 :: u32) \<le> length [7, 8, 9 :: u8]" by simp
  from ssh_buffer_prepend_data_spec [OF zero_alloc.allocator_axioms sample_buffer_inv(1) this]
  show ?thesis by (simp add: sample_buffer_inv(2))
qed

section \<open>Strings on the wire\<close>

text \<open>Reading a string takes the length prefix and that many bytes. If fewer than four
  bytes are left nothing is consumed; if the prefix promises more bytes than are left, or the
  allocation fails, no string is returned and only the prefix is consumed; otherwise the string
  is well formed, holds exactly the promised bytes, and the rest of the content remains.
  A string that was added to an empty buffer is read back unchanged.\<close>

theorem ssh_buffer_get_ssh_string_spec:
  assumes "allocator mem" and "buffer_inv b" and "string_wf s0"
  shows "(case ssh_buffer_get_ssh_string mem b of (b', r) \<Rightarrow> buffer_inv b' \<and>
      (r = None \<and> (length (contents b) < 4 \<and> b' = b \<or>
         (\<exists>w rest. contents b = be32 w @ rest \<and> contents b' = rest \<and>
            (length rest < unat w \<or> ssh_string_new mem (ucast w) = None))) \<or>
       (\<exists>s w rest. r = Some s \<and> contents b = be32 w @ rest \<and> unat w \<le> length rest \<and> string_wf s \<and>
          string_content s = take (unat w) rest \<and> contents b' = drop (unat w) rest))) \<and>
    (\<forall>b1 b2 t. contents b = [] \<and> ssh_buffer_add_ssh_string mem b (Some s0) = (b1, 0) \<and>
       ssh_buffer_get_ssh_string mem b1 = (b2, Some t) \<longrightarrow>
       string_content t = string_content s0 \<and> contents b2 = [])"
proof
  show "case ssh_buffer_get_ssh_string mem b of (b', r) \<Rightarrow> buffer_inv b' \<and>
      (r = None \<and> (length (contents b) < 4 \<and> b' = b \<or>
         (\<exists>w rest. contents b = be32 w @ rest \<and> contents b' = rest \<and>
            (length rest < unat w \<or> ssh_string_new mem (ucast w) = None))) \<or>
       (\<exists>s w rest. r = Some s \<and> contents b = be32 w @ rest \<and> unat w \<le> length rest \<and> string_wf s \<and>
          string_content s = take (unat w) rest \<and> contents b' = drop (unat w) rest))"
    using allocator.get_ssh_string_cases [OF assms(1,2)] by (rule) (use assms(2) in auto)
  show "\<forall>b1 b2 t. contents b = [] \<and> ssh_buffer_add_ssh_string mem b (Some s0) = (b1, 0) \<and>
       ssh_buffer_get_ssh_string mem b1 = (b2, Some t) \<longrightarrow>
       string_content t = string_content s0 \<and> contents b2 = []"
    using allocator.add_get_ssh_string [OF assms(1,2) _ assms(3)] by blast
qed

definition sample_wire :: ssh_buffer where
  "sample_wire = \<lparr>buf_secure = False, buf_used = 7, buf_allocated = 8, buf_pos = 0,
     buf_data = [0, 0, 0, 2, 7, 8, 9, 0], buf_freed = []\<rparr>"

lemma sample_wire_inv: "buffer_inv sample_wire" "contents sample_wire = be32 2 @ [7, 8, 9]"
  by (simp_all add: sample_wire_def buffer_inv_def contents_def segment_def be32_def be16_def)

theorem ssh_buffer_get_ssh_string_spec_witness:
  "\<exists>b' s. ssh_buffer_get_ssh_string (zero_alloc 100) sample_wire = (b', Some s) \<and>
     string_content s = [7, 8] \<and> contents b' = [9]"
proof -
  obtain b' r where e: "ssh_buffer_get_ssh_string (zero_alloc 100) sample_wire = (b', r)"
    by (cases "ssh_buffer_get_ssh_string (zero_alloc 100) sample_wire")
  have "snd (ssh_buffer_get_ssh_string (zero_alloc 100) sample_wire) \<noteq> None" by code_simp
  then have r: "r \<noteq> None" by (simp add: e)
  have "case ssh_buffer_get_ssh_string (zero_alloc 100) sample_wire of (b', r) \<Rightarrow> buffer_inv b' \<and>
      (r = None \<and> (length (contents sample_wire) < 4 \<and> b' = sample_wire \<or>
         (\<exists>w rest. contents sample_wire = be32 w @ rest \<and> contents b' = rest \<and>
            (length rest < unat w \<or> ssh_string_new (zero_alloc 100) (ucast w) = None))) \<or>
       (\<exists>s w rest. r = Some s \<and> contents sample_wire = be32 w @ rest \<and> unat w \<le> length rest \<and> string_wf s \<and>
          string_content s = take (unat w) rest \<and> contents b' = drop (unat w) rest))"
    using ssh_buffer_get_ssh_string_spec [OF zero_alloc.allocator_axioms sample_wire_inv(1) sample_string_wf]
    by (rule conjunct1)
  then obtain s w rest where s: "r = Some s" "be32 2 @ [7, 8, 9] = be32 w @ rest"
      "string_content s = take (unat w) rest" "contents b' = drop (unat w) rest"
    using r unfolding e sample_wire_inv(2) by auto
  from be32_app_eq [OF s(2)] have "w = 2" "rest = [7, 8, 9]" by simp_all
  with s e show ?thesis by simp
qed

section \<open>Consuming\<close>

text \<open>Consuming and reading take bytes from the front only if that many are there, and
  otherwise change nothing; taking bytes off the end with \<open>ssh_buffer_pass_bytes_end\<close> keeps
  the invariant exactly when it stays within the content.\<close>

theorem ssh_buffer_consume_spec:
  assumes "buffer_inv b"
  shows "(case ssh_buffer_pass_bytes b len of (b', n) \<Rightarrow> buffer_inv b' \<and>
      (if unat len \<le> length (contents b) then n = len \<and> contents b' = drop (unat len) (contents b)
       else n = 0 \<and> b' = b)) \<and>
    (case ssh_buffer_get_data b len of (b', d, n) \<Rightarrow> buffer_inv b' \<and>
      (if unat len \<le> length (contents b)
       then n = len \<and> d = take (unat len) (contents b) \<and> contents b' = drop (unat len) (contents b)
       else n = 0 \<and> d = [] \<and> b' = b)) \<and>
    (case ssh_buffer_pass_bytes_end b len of (b', n) \<Rightarrow>
      if unat len \<le> length (contents b)
      then buffer_inv b' \<and> n = len \<and> contents b' = take (length (contents b) - unat len) (contents b)
      else b' = b \<and> n = 0 \<or> \<not> buffer_verify b')"
proof (intro conjI)
  show "case ssh_buffer_pass_bytes b len of (b', n) \<Rightarrow> buffer_inv b' \<and>
      (if unat len \<le> length (contents b) then n = len \<and> contents b' = drop (unat len) (contents b)
       else n = 0 \<and> b' = b)"
    using pass_bytes_cases [OF assms, of len] by cases (use assms in simp_all)
  show "case ssh_buffer_get_data b len of (b', d, n) \<Rightarrow> buffer_inv b' \<and>
      (if unat len \<le> length (contents b)
       then n = len \<and> d = take (unat len) (contents b) \<and> contents b' = drop (unat len) (contents b)
       else n = 0 \<and> d = [] \<and> b' = b)"
    using get_data_cases [OF assms, of len] by cases (use assms in simp_all)
  show "case ssh_buffer_pass_bytes_end b len of (b', n) \<Rightarrow>
      if unat len \<le> length (contents b)
      then buffer_inv b' \<and> n = len \<and> contents b' = take (length (contents b) - unat len) (contents b)
      else b' = b \<and> n = 0 \<or> \<not> buffer_verify b'"
    using pass_bytes_end_cases [OF assms, of len]
  proof cases
    case 1
    then have "\<not> unat len \<le> length (contents b)" using length_contents [OF assms] by linarith
    with 1 show ?thesis by simp
  next
    case (3 b')
    then have "buf_data b' = buf_data b"
      by (auto simp: ssh_buffer_pass_bytes_end_def split: if_splits)
    then have "\<not> buffer_verify b'"
      using 3 contents_nonempty_data [OF assms] by (simp add: buffer_verify_def)
    with 3 show ?thesis by simp
  qed simp
qed

theorem ssh_buffer_consume_spec_witness:
  "(case ssh_buffer_pass_bytes sample_buffer 2 of (b', n) \<Rightarrow> n = 2 \<and> contents b' = [5]) \<and>
   (case ssh_buffer_pass_bytes_end sample_buffer 4 of (b', n) \<Rightarrow>
      b' = sample_buffer \<and> n = 0 \<or> \<not> buffer_verify b')"
  using ssh_buffer_consume_spec [OF sample_buffer_inv(1), of 2]
    ssh_buffer_consume_spec [OF sample_buffer_inv(1), of 4]
  by (auto simp: sample_buffer_inv(2))

text \<open>\<open>ssh_buffer_pass_bytes_end\<close> compares the bytes to drop with the end of the data, not
  with the content, so dropping more than the content but no more than the data reports success
  and leaves the end before the position: the consistency check of debug builds fails and the
  length reported wraps to almost 4 GiB.\<close>

theorem ssh_buffer_pass_bytes_end_breaks:
  "buffer_inv sample_buffer \<and> length (contents sample_buffer) = 3 \<and>
   snd (ssh_buffer_pass_bytes_end sample_buffer 4) = 4 \<and>
   \<not> buffer_verify (fst (ssh_buffer_pass_bytes_end sample_buffer 4)) \<and>
   ssh_buffer_get_len (fst (ssh_buffer_pass_bytes_end sample_buffer 4)) = 4294967295"
  using sample_buffer_inv
  by (simp add: sample_buffer_def ssh_buffer_pass_bytes_end_def buffer_verify_def ssh_buffer_get_len_def)

section \<open>Secure buffers\<close>

text \<open>C30: what a secure buffer leaves in the heap. Growing it burns the used part of the old
  block and nothing else, and freeing it burns the whole block; but a secret that was consumed
  by \<open>ssh_buffer_pass_bytes\<close> before the block is reallocated is behind the used part and stays
  readable in the freed block.\<close>

theorem secure_buffer_burn:
  "(\<forall>mem b needed. buf_secure b \<and> snd (realloc_buffer mem b needed) = 0 \<longrightarrow>
      buf_freed (fst (realloc_buffer mem b needed)) =
        (replicate (unat (buf_used b)) 0 @ drop (unat (buf_used b)) (buf_data b)) # buf_freed b) \<and>
   (\<forall>b. buffer_inv b \<and> buf_secure b \<longrightarrow>
      ssh_buffer_free b = replicate (unat (buf_allocated b)) 0 # buf_freed b) \<and>
   (let b = fst (ssh_buffer_pass_bytes sample_buffer 3); 
        b' = fst (ssh_buffer_add_data (zero_alloc 100) b (Some (replicate 9 7)) 9)
    in buf_secure b' \<and> buf_freed b' = [[1, 2, 3, 4, 5, 0, 0, 0]])"
proof (intro conjI allI impI)
  fix mem b needed
  assume "buf_secure b \<and> snd (realloc_buffer mem b needed) = 0"
  then show "buf_freed (fst (realloc_buffer mem b needed)) =
        (replicate (unat (buf_used b)) 0 @ drop (unat (buf_used b)) (buf_data b)) # buf_freed b"
    by (auto simp: realloc_buffer_def Let_def blit_0 split: option.splits if_splits)
next
  fix b assume "buffer_inv b \<and> buf_secure b"
  then show "ssh_buffer_free b = replicate (unat (buf_allocated b)) 0 # buf_freed b"
    by (auto simp: ssh_buffer_free_def buffer_inv_def blit_0 word_less_nat_alt)
next
  show "let b = fst (ssh_buffer_pass_bytes sample_buffer 3); 
        b' = fst (ssh_buffer_add_data (zero_alloc 100) b (Some (replicate 9 7)) 9)
    in buf_secure b' \<and> buf_freed b' = [[1, 2, 3, 4, 5, 0, 0, 0]]"
    by code_simp
qed

theorem secure_buffer_burn_witness: "ssh_buffer_free sample_buffer = [[0, 0, 0, 0, 0, 0, 0, 0]]"
proof -
  have "buffer_inv sample_buffer \<and> buf_secure sample_buffer"
    using sample_buffer_inv by (simp add: sample_buffer_def)
  then have "ssh_buffer_free sample_buffer =
      replicate (unat (buf_allocated sample_buffer)) 0 # buf_freed sample_buffer"
    using secure_buffer_burn by blast
  moreover have "replicate (unat (buf_allocated sample_buffer)) 0 # buf_freed sample_buffer =
      [[0, 0, 0, 0, 0, 0, 0, 0 :: u8]]" by code_simp
  ultimately show ?thesis by simp
qed

section \<open>Copies\<close>

text \<open>A new buffer is empty, a reinitialised one is empty and keeps at most 64 KiB, and a
  duplicate holds the content and the secure flag of the original; all satisfy the invariant,
  and each may fail only by saying so.\<close>

theorem ssh_buffer_copies:
  assumes "allocator mem" and "buffer_inv b"
  shows "(\<forall>n. ssh_buffer_new mem = Some n \<longrightarrow> buffer_inv n \<and> contents n = [] \<and> \<not> buf_secure n) \<and>
    (case ssh_buffer_reinit mem b of (b', rc) \<Rightarrow> buffer_inv b' \<and> contents b' = [] \<and>
       buf_secure b' = buf_secure b \<and> (rc = 0 \<and> unat (buf_allocated b') \<le> 65536 \<or> rc = - 1)) \<and>
    (\<forall>d. ssh_buffer_dup mem b = Some d \<longrightarrow>
       buffer_inv d \<and> contents d = contents b \<and> buf_secure d = buf_secure b)"
  using allocator.new_fresh [OF assms(1)] allocator.reinit_fresh [OF assms]
    allocator.dup_same [OF assms] by blast

theorem ssh_buffer_copies_witness:
  "\<exists>d. ssh_buffer_dup (zero_alloc 100) sample_buffer = Some d \<and> contents d = [3, 4, 5]"
proof -
  have "ssh_buffer_dup (zero_alloc 100) sample_buffer \<noteq> None" by code_simp
  then obtain d where "ssh_buffer_dup (zero_alloc 100) sample_buffer = Some d" by blast
  with ssh_buffer_copies [OF zero_alloc.allocator_axioms sample_buffer_inv(1), of 100]
  show ?thesis by (simp add: sample_buffer_inv(2))
qed

end
