(* ===== verification/Session.thy ===== *)
theory Session
  imports BufferSpec
begin

text \<open>
  The state of a session: the enumerations of \<open>session.h\<close>, \<open>auth.h\<close>, \<open>packet.h\<close>, \<open>wrapper.h\<close>,
  \<open>crypto.h\<close>, \<open>gssapi.h\<close> and \<open>channels.h\<close>, and the fields of \<open>ssh_session_struct\<close>, of the
  two crypto contexts and of a channel that the modelled code reads or writes.

  A C pointer that may be \<open>NULL\<close> is an \<open>option\<close>; an \<open>int\<close> used as a truth value is a \<open>bool\<close>; a
  bit set (\<open>flags\<close>, the directions of a crypto context) is a word. \<open>ses_socket\<close> is the data given to
  \<open>ssh_socket_write\<close> so far, one element per call, and \<open>ses_error\<close> the class of the last error
  set; both are what an observer sees of the session, no operation reads them.
\<close>

section \<open>Enumerations\<close>

datatype ssh_session_state =
    SSH_SESSION_STATE_NONE | SSH_SESSION_STATE_CONNECTING | SSH_SESSION_STATE_SOCKET_CONNECTED
  | SSH_SESSION_STATE_BANNER_RECEIVED | SSH_SESSION_STATE_INITIAL_KEX
  | SSH_SESSION_STATE_KEXINIT_RECEIVED | SSH_SESSION_STATE_DH | SSH_SESSION_STATE_AUTHENTICATING
  | SSH_SESSION_STATE_AUTHENTICATED | SSH_SESSION_STATE_ERROR | SSH_SESSION_STATE_DISCONNECTED

datatype ssh_dh_state =
    DH_STATE_INIT | DH_STATE_GROUP_SENT | DH_STATE_REQUEST_SENT | DH_STATE_INIT_SENT
  | DH_STATE_NEWKEYS_SENT | DH_STATE_FINISHED

datatype ssh_auth_state =
    SSH_AUTH_STATE_NONE | SSH_AUTH_STATE_PARTIAL | SSH_AUTH_STATE_SUCCESS | SSH_AUTH_STATE_FAILED
  | SSH_AUTH_STATE_ERROR | SSH_AUTH_STATE_INFO | SSH_AUTH_STATE_PK_OK | SSH_AUTH_STATE_KBDINT_SENT
  | SSH_AUTH_STATE_GSSAPI_REQUEST_SENT | SSH_AUTH_STATE_GSSAPI_TOKEN
  | SSH_AUTH_STATE_GSSAPI_MIC_SENT | SSH_AUTH_STATE_PUBKEY_OFFER_SENT
  | SSH_AUTH_STATE_PUBKEY_AUTH_SENT | SSH_AUTH_STATE_PASSWORD_AUTH_SENT
  | SSH_AUTH_STATE_AUTH_NONE_SENT | SSH_AUTH_STATE_GSSAPI_KEYEX_MIC_SENT

datatype ssh_pending_call =
    SSH_PENDING_CALL_NONE | SSH_PENDING_CALL_CONNECT | SSH_PENDING_CALL_AUTH_NONE
  | SSH_PENDING_CALL_AUTH_PASSWORD | SSH_PENDING_CALL_AUTH_OFFER_PUBKEY | SSH_PENDING_CALL_AUTH_PUBKEY
  | SSH_PENDING_CALL_AUTH_AGENT | SSH_PENDING_CALL_AUTH_KBDINT_INIT | SSH_PENDING_CALL_AUTH_KBDINT_SEND
  | SSH_PENDING_CALL_AUTH_GSSAPI_MIC | SSH_PENDING_CALL_AUTH_GSSAPI_KEYEX

datatype ssh_auth_service_state =
    SSH_AUTH_SERVICE_NONE | SSH_AUTH_SERVICE_SENT | SSH_AUTH_SERVICE_ACCEPTED
  | SSH_AUTH_SERVICE_DENIED

datatype ssh_packet_state =
    PACKET_STATE_INIT | PACKET_STATE_SIZEREAD | PACKET_STATE_PROCESSING

datatype ssh_packet_filter_result = SSH_PACKET_UNKNOWN | SSH_PACKET_ALLOWED | SSH_PACKET_DENIED

datatype ssh_gssapi_state =
    SSH_GSSAPI_STATE_NONE | SSH_GSSAPI_STATE_RCV_TOKEN | SSH_GSSAPI_STATE_RCV_MIC

text \<open>\<open>SSH_HMAC_UNSET\<close> and \<open>SSH_KEX_UNSET\<close> are the value 0 that these two enumerations, which
  start at 1, have in a crypto context fresh from \<open>calloc\<close>.\<close>

datatype ssh_hmac =
    SSH_HMAC_UNSET | SSH_HMAC_SHA1 | SSH_HMAC_SHA256 | SSH_HMAC_SHA512 | SSH_HMAC_MD5 | SSH_HMAC_AEAD_POLY1305
  | SSH_HMAC_AEAD_GCM | SSH_HMAC_NONE

datatype ssh_key_exchange =
    SSH_KEX_UNSET | SSH_KEX_DH_GROUP1_SHA1 | SSH_KEX_DH_GROUP14_SHA1 | SSH_KEX_DH_GEX_SHA1 | SSH_KEX_DH_GEX_SHA256
  | SSH_KEX_ECDH_SHA2_NISTP256 | SSH_KEX_ECDH_SHA2_NISTP384 | SSH_KEX_ECDH_SHA2_NISTP521
  | SSH_KEX_CURVE25519_SHA256_LIBSSH_ORG | SSH_KEX_CURVE25519_SHA256 | SSH_KEX_DH_GROUP16_SHA512
  | SSH_KEX_DH_GROUP18_SHA512 | SSH_KEX_DH_GROUP14_SHA256
  | SSH_KEX_SNTRUP761X25519_SHA512_OPENSSH_COM | SSH_KEX_SNTRUP761X25519_SHA512
  | SSH_KEX_MLKEM768X25519_SHA256 | SSH_KEX_MLKEM768NISTP256_SHA256
  | SSH_KEX_MLKEM1024NISTP384_SHA384 | SSH_GSS_KEX_DH_GROUP14_SHA256
  | SSH_GSS_KEX_DH_GROUP16_SHA512 | SSH_GSS_KEX_ECDH_NISTP256_SHA256
  | SSH_GSS_KEX_CURVE25519_SHA256

datatype ssh_channel_request_state =
    SSH_CHANNEL_REQ_STATE_NONE | SSH_CHANNEL_REQ_STATE_PENDING | SSH_CHANNEL_REQ_STATE_ACCEPTED
  | SSH_CHANNEL_REQ_STATE_DENIED | SSH_CHANNEL_REQ_STATE_ERROR

datatype ssh_channel_state =
    SSH_CHANNEL_STATE_NOT_OPEN | SSH_CHANNEL_STATE_OPENING | SSH_CHANNEL_STATE_OPEN_DENIED
  | SSH_CHANNEL_STATE_OPEN | SSH_CHANNEL_STATE_CLOSED

datatype ssh_error_class = SSH_REQUEST_DENIED | SSH_FATAL

section \<open>Crypto contexts\<close>

text \<open>The directions are the bits \<open>IN\<close> (1), \<open>OUT\<close> (2) and their union. \<open>ciph_key\<close> stands for the key
  schedule and the chaining state, which only the crypto library reads.\<close>

abbreviation (input) SSH_DIRECTION_IN :: u32 where "SSH_DIRECTION_IN \<equiv> 1"
abbreviation (input) SSH_DIRECTION_OUT :: u32 where "SSH_DIRECTION_OUT \<equiv> 2"
abbreviation (input) SSH_DIRECTION_BOTH :: u32 where "SSH_DIRECTION_BOTH \<equiv> 3"

record ssh_cipher =
  ciph_blocksize :: u32
  ciph_lenfield_blocksize :: u32
  ciph_aead :: bool
  ciph_packets :: u32
  ciph_blocks :: u64
  ciph_max_blocks :: u64
  ciph_key :: bytes

record ssh_crypto =
  cry_session_id :: bytes
  cry_in_cipher :: "ssh_cipher option"
  cry_out_cipher :: "ssh_cipher option"
  cry_in_hmac :: ssh_hmac
  cry_out_hmac :: ssh_hmac
  cry_in_hmac_etm :: bool
  cry_out_hmac_etm :: bool
  cry_encryptMAC :: bytes
  cry_decryptMAC :: bytes
  cry_hmacbuf :: bytes
  cry_do_compress_in :: bool
  cry_do_compress_out :: bool
  cry_delayed_compress_in :: bool
  cry_delayed_compress_out :: bool
  cry_kex_type :: ssh_key_exchange
  cry_used :: u32

definition hmac_digest_len :: "ssh_hmac \<Rightarrow> nat" where
  "hmac_digest_len type = (case type of
     SSH_HMAC_SHA1 \<Rightarrow> 20 | SSH_HMAC_SHA256 \<Rightarrow> 32 | SSH_HMAC_SHA512 \<Rightarrow> 64 | SSH_HMAC_MD5 \<Rightarrow> 16
   | SSH_HMAC_AEAD_POLY1305 \<Rightarrow> 16 | SSH_HMAC_AEAD_GCM \<Rightarrow> 16 | _ \<Rightarrow> 0)"

text \<open>\<open>crypto\<close> is dereferenced without a check: \<open>None\<close> is the crash.\<close>

definition ssh_kex_is_gss :: "ssh_crypto option \<Rightarrow> bool option" where
  "ssh_kex_is_gss crypto = (case crypto of
     None \<Rightarrow> None
   | Some c \<Rightarrow> Some (cry_kex_type c \<in> {SSH_GSS_KEX_DH_GROUP14_SHA256, SSH_GSS_KEX_DH_GROUP16_SHA512,
                        SSH_GSS_KEX_ECDH_NISTP256_SHA256, SSH_GSS_KEX_CURVE25519_SHA256}))"

section \<open>Packets, channels, sessions\<close>

record packet_struct =
  pkt_valid :: bool
  pkt_len :: u32
  pkt_type :: u8

text \<open>\<open>chan_addr\<close> is the address of the structure: a channel pointer is such an address, valid while the
  channel is on the list of its session. The callbacks and the counters of a channel are left out.\<close>

record ssh_channel =
  chan_addr :: nat
  chan_local_channel :: u32
  chan_local_window :: u32
  chan_local_eof :: bool
  chan_local_maxpacket :: u32
  chan_remote_channel :: u32
  chan_remote_window :: u32
  chan_remote_eof :: bool
  chan_remote_maxpacket :: u32
  chan_state :: ssh_channel_state
  chan_delayed_close :: bool
  chan_flags :: u32
  chan_stdout_buffer :: "ssh_buffer option"
  chan_stderr_buffer :: "ssh_buffer option"
  chan_exit_status :: bool
  chan_exit_code :: u32
  chan_exit_signal :: "bytes option"
  chan_exit_core_dumped :: bool
  chan_request_state :: ssh_channel_request_state

text \<open>The questions of a server and the answers of the user; a text is its memory block, terminator included.\<close>

record ssh_kbdint =
  kbd_nprompts :: u32
  kbd_nanswers :: u32
  kbd_name :: "bytes option"
  kbd_instruction :: "bytes option"
  kbd_prompts :: "bytes option list option"
  kbd_echo :: "bytes option"
  kbd_answers :: "bytes option list option"

record ssh_session =
  ses_server :: bool
  ses_client :: bool
  ses_send_seq :: u32
  ses_recv_seq :: u32
  ses_flags :: u32
  ses_alive :: bool
  ses_in_buffer :: "ssh_buffer option"
  ses_in_packet :: packet_struct
  ses_out_buffer :: "ssh_buffer option"
  ses_out_queue :: "ssh_buffer list"
  ses_session_state :: ssh_session_state
  ses_packet_state :: ssh_packet_state
  ses_dh_handshake_state :: ssh_dh_state
  ses_global_req_state :: ssh_channel_request_state
  ses_auth_service_state :: ssh_auth_service_state
  ses_auth_state :: ssh_auth_state
  ses_auth_supported_methods :: u32
  ses_auth_current_method :: u32
  ses_pending_call_state :: ssh_pending_call
  ses_kbdint :: "ssh_kbdint option"
  ses_banner :: "ssh_string option"
  ses_current_crypto :: "ssh_crypto option"
  ses_next_crypto :: "ssh_crypto option"
  ses_channels :: "ssh_channel list"
  ses_maxchannel :: u32
  ses_gssapi :: "ssh_gssapi_state option"
  ses_rekey_data :: u64
  ses_rekey_time :: u32
  ses_error :: "ssh_error_class option"
  ses_socket :: "bytes list"

abbreviation (input) SSH_SESSION_FLAG_BLOCKING :: u32 where "SSH_SESSION_FLAG_BLOCKING \<equiv> 0x0001"
abbreviation (input) SSH_SESSION_FLAG_AUTHENTICATED :: u32 where
  "SSH_SESSION_FLAG_AUTHENTICATED \<equiv> 0x0002"
abbreviation (input) SSH_SESSION_FLAG_KEXINIT_SENT :: u32 where
  "SSH_SESSION_FLAG_KEXINIT_SENT \<equiv> 0x0008"
abbreviation (input) SSH_SESSION_FLAG_KEX_STRICT :: u32 where
  "SSH_SESSION_FLAG_KEX_STRICT \<equiv> 0x0010"
abbreviation (input) SSH_SESSION_FLAG_KEX_TAINTED :: u32 where
  "SSH_SESSION_FLAG_KEX_TAINTED \<equiv> 0x0020"

definition has_flag :: "u32 \<Rightarrow> u32 \<Rightarrow> bool" where
  "has_flag flags flag \<longleftrightarrow> flags AND flag \<noteq> 0"

definition ssh_set_error :: "ssh_error_class \<Rightarrow> ssh_session \<Rightarrow> ssh_session" where
  "ssh_set_error code session = session\<lparr>ses_error := Some code\<rparr>"

section \<open>Message numbers\<close>

abbreviation (input) SSH2_MSG_DISCONNECT :: u8 where "SSH2_MSG_DISCONNECT \<equiv> 1"
abbreviation (input) SSH2_MSG_IGNORE :: u8 where "SSH2_MSG_IGNORE \<equiv> 2"
abbreviation (input) SSH2_MSG_UNIMPLEMENTED :: u8 where "SSH2_MSG_UNIMPLEMENTED \<equiv> 3"
abbreviation (input) SSH2_MSG_DEBUG :: u8 where "SSH2_MSG_DEBUG \<equiv> 4"
abbreviation (input) SSH2_MSG_SERVICE_REQUEST :: u8 where "SSH2_MSG_SERVICE_REQUEST \<equiv> 5"
abbreviation (input) SSH2_MSG_SERVICE_ACCEPT :: u8 where "SSH2_MSG_SERVICE_ACCEPT \<equiv> 6"
abbreviation (input) SSH2_MSG_EXT_INFO :: u8 where "SSH2_MSG_EXT_INFO \<equiv> 7"
abbreviation (input) SSH2_MSG_KEXINIT :: u8 where "SSH2_MSG_KEXINIT \<equiv> 20"
abbreviation (input) SSH2_MSG_NEWKEYS :: u8 where "SSH2_MSG_NEWKEYS \<equiv> 21"
abbreviation (input) SSH2_MSG_KEXDH_INIT :: u8 where "SSH2_MSG_KEXDH_INIT \<equiv> 30"
abbreviation (input) SSH2_MSG_KEXDH_REPLY :: u8 where "SSH2_MSG_KEXDH_REPLY \<equiv> 31"
abbreviation (input) SSH2_MSG_KEX_DH_GEX_INIT :: u8 where "SSH2_MSG_KEX_DH_GEX_INIT \<equiv> 32"
abbreviation (input) SSH2_MSG_KEX_DH_GEX_REPLY :: u8 where "SSH2_MSG_KEX_DH_GEX_REPLY \<equiv> 33"
abbreviation (input) SSH2_MSG_KEX_DH_GEX_REQUEST :: u8 where "SSH2_MSG_KEX_DH_GEX_REQUEST \<equiv> 34"
abbreviation (input) SSH2_MSG_USERAUTH_REQUEST :: u8 where "SSH2_MSG_USERAUTH_REQUEST \<equiv> 50"
abbreviation (input) SSH2_MSG_USERAUTH_FAILURE :: u8 where "SSH2_MSG_USERAUTH_FAILURE \<equiv> 51"
abbreviation (input) SSH2_MSG_USERAUTH_SUCCESS :: u8 where "SSH2_MSG_USERAUTH_SUCCESS \<equiv> 52"
abbreviation (input) SSH2_MSG_USERAUTH_BANNER :: u8 where "SSH2_MSG_USERAUTH_BANNER \<equiv> 53"
abbreviation (input) SSH2_MSG_USERAUTH_PK_OK :: u8 where "SSH2_MSG_USERAUTH_PK_OK \<equiv> 60"
abbreviation (input) SSH2_MSG_USERAUTH_INFO_RESPONSE :: u8 where
  "SSH2_MSG_USERAUTH_INFO_RESPONSE \<equiv> 61"
abbreviation (input) SSH2_MSG_USERAUTH_GSSAPI_EXCHANGE_COMPLETE :: u8 where
  "SSH2_MSG_USERAUTH_GSSAPI_EXCHANGE_COMPLETE \<equiv> 63"
abbreviation (input) SSH2_MSG_USERAUTH_GSSAPI_ERROR :: u8 where
  "SSH2_MSG_USERAUTH_GSSAPI_ERROR \<equiv> 64"
abbreviation (input) SSH2_MSG_USERAUTH_GSSAPI_ERRTOK :: u8 where
  "SSH2_MSG_USERAUTH_GSSAPI_ERRTOK \<equiv> 65"
abbreviation (input) SSH2_MSG_USERAUTH_GSSAPI_MIC :: u8 where "SSH2_MSG_USERAUTH_GSSAPI_MIC \<equiv> 66"
abbreviation (input) SSH2_MSG_GLOBAL_REQUEST :: u8 where "SSH2_MSG_GLOBAL_REQUEST \<equiv> 80"
abbreviation (input) SSH2_MSG_REQUEST_SUCCESS :: u8 where "SSH2_MSG_REQUEST_SUCCESS \<equiv> 81"
abbreviation (input) SSH2_MSG_REQUEST_FAILURE :: u8 where "SSH2_MSG_REQUEST_FAILURE \<equiv> 82"
abbreviation (input) SSH2_MSG_CHANNEL_OPEN :: u8 where "SSH2_MSG_CHANNEL_OPEN \<equiv> 90"
abbreviation (input) SSH2_MSG_CHANNEL_OPEN_CONFIRMATION :: u8 where
  "SSH2_MSG_CHANNEL_OPEN_CONFIRMATION \<equiv> 91"
abbreviation (input) SSH2_MSG_CHANNEL_OPEN_FAILURE :: u8 where
  "SSH2_MSG_CHANNEL_OPEN_FAILURE \<equiv> 92"
abbreviation (input) SSH2_MSG_CHANNEL_WINDOW_ADJUST :: u8 where
  "SSH2_MSG_CHANNEL_WINDOW_ADJUST \<equiv> 93"
abbreviation (input) SSH2_MSG_CHANNEL_DATA :: u8 where "SSH2_MSG_CHANNEL_DATA \<equiv> 94"
abbreviation (input) SSH2_MSG_CHANNEL_EXTENDED_DATA :: u8 where
  "SSH2_MSG_CHANNEL_EXTENDED_DATA \<equiv> 95"
abbreviation (input) SSH2_MSG_CHANNEL_EOF :: u8 where "SSH2_MSG_CHANNEL_EOF \<equiv> 96"
abbreviation (input) SSH2_MSG_CHANNEL_CLOSE :: u8 where "SSH2_MSG_CHANNEL_CLOSE \<equiv> 97"
abbreviation (input) SSH2_MSG_CHANNEL_REQUEST :: u8 where "SSH2_MSG_CHANNEL_REQUEST \<equiv> 98"
abbreviation (input) SSH2_MSG_CHANNEL_SUCCESS :: u8 where "SSH2_MSG_CHANNEL_SUCCESS \<equiv> 99"
abbreviation (input) SSH2_MSG_CHANNEL_FAILURE :: u8 where "SSH2_MSG_CHANNEL_FAILURE \<equiv> 100"

end
