(* ===== verification/PacketFilter.thy ===== *)
theory PacketFilter
  imports Session
begin

text \<open>
  \<open>ssh_packet_incoming_filter\<close> of \<open>packet.c\<close>: which message may be processed in which state
  of the session. The switch over the message type is split into one definition per run of
  cases; each takes the rest of the switch as \<open>otherwise\<close> and the whole filter is their
  composition in the order of the source. \<open>gssapi\<close> says whether the code is compiled with
  \<open>WITH_GSSAPI\<close>. The result is \<open>None\<close> where a \<open>NULL\<close> pointer is dereferenced.
\<close>

section \<open>The filter\<close>

type_synonym filter_step = "ssh_session \<Rightarrow> ssh_packet_filter_result option"

definition filter_transport :: "filter_step \<Rightarrow> filter_step" where
  "filter_transport otherwise session = (let type = pkt_type (ses_in_packet session) in
     if type = SSH2_MSG_DISCONNECT then Some SSH_PACKET_ALLOWED
     else if type = SSH2_MSG_IGNORE then Some SSH_PACKET_ALLOWED
     else if type = SSH2_MSG_UNIMPLEMENTED then Some SSH_PACKET_ALLOWED
     else if type = SSH2_MSG_DEBUG then Some SSH_PACKET_ALLOWED
     else if type = SSH2_MSG_SERVICE_REQUEST then
       (if ses_client session then Some SSH_PACKET_DENIED
        else if ses_session_state session \<noteq> SSH_SESSION_STATE_AUTHENTICATING \<and>
                ses_session_state session \<noteq> SSH_SESSION_STATE_AUTHENTICATED
        then Some SSH_PACKET_DENIED
        else if ses_dh_handshake_state session \<noteq> DH_STATE_FINISHED then Some SSH_PACKET_DENIED
        else Some SSH_PACKET_ALLOWED)
     else otherwise session)"

definition filter_service :: "filter_step \<Rightarrow> filter_step" where
  "filter_service otherwise session = (let type = pkt_type (ses_in_packet session) in
     if type = SSH2_MSG_SERVICE_ACCEPT then
       (if ses_session_state session \<noteq> SSH_SESSION_STATE_AUTHENTICATING \<and>
           ses_session_state session \<noteq> SSH_SESSION_STATE_AUTHENTICATED
        then Some SSH_PACKET_DENIED
        else if ses_dh_handshake_state session \<noteq> DH_STATE_FINISHED then Some SSH_PACKET_DENIED
        else if ses_auth_service_state session \<noteq> SSH_AUTH_SERVICE_SENT
        then Some SSH_PACKET_DENIED
        else Some SSH_PACKET_ALLOWED)
     else if type = SSH2_MSG_EXT_INFO then
       (if ses_session_state session \<noteq> SSH_SESSION_STATE_AUTHENTICATING \<and>
           ses_session_state session \<noteq> SSH_SESSION_STATE_AUTHENTICATED
        then Some SSH_PACKET_DENIED
        else if ses_dh_handshake_state session \<noteq> DH_STATE_FINISHED then Some SSH_PACKET_DENIED
        else Some SSH_PACKET_ALLOWED)
     else otherwise session)"

definition filter_kexinit_newkeys :: "filter_step \<Rightarrow> filter_step" where
  "filter_kexinit_newkeys otherwise session = (let type = pkt_type (ses_in_packet session) in
     if type = SSH2_MSG_KEXINIT then
       (if ses_session_state session \<noteq> SSH_SESSION_STATE_AUTHENTICATED \<and>
           ses_session_state session \<noteq> SSH_SESSION_STATE_INITIAL_KEX
        then Some SSH_PACKET_DENIED
        else if ses_dh_handshake_state session \<noteq> DH_STATE_INIT \<and>
                ses_dh_handshake_state session \<noteq> DH_STATE_INIT_SENT \<and>
                ses_dh_handshake_state session \<noteq> DH_STATE_REQUEST_SENT \<and>
                ses_dh_handshake_state session \<noteq> DH_STATE_FINISHED
        then Some SSH_PACKET_DENIED
        else Some SSH_PACKET_ALLOWED)
     else if type = SSH2_MSG_NEWKEYS then
       (if ses_session_state session \<noteq> SSH_SESSION_STATE_DH then Some SSH_PACKET_DENIED
        else if ses_dh_handshake_state session \<noteq> DH_STATE_NEWKEYS_SENT then Some SSH_PACKET_DENIED
        else Some SSH_PACKET_ALLOWED)
     else otherwise session)"

definition filter_kexdh :: "filter_step \<Rightarrow> filter_step" where
  "filter_kexdh otherwise session = (let type = pkt_type (ses_in_packet session) in
     if type = SSH2_MSG_KEXDH_INIT then
       (if ses_client session then Some SSH_PACKET_DENIED
        else if ses_session_state session \<noteq> SSH_SESSION_STATE_DH then Some SSH_PACKET_DENIED
        else if ses_dh_handshake_state session \<noteq> DH_STATE_INIT then Some SSH_PACKET_DENIED
        else Some SSH_PACKET_ALLOWED)
     else if type = SSH2_MSG_KEXDH_REPLY then
       (if ses_server session then Some SSH_PACKET_DENIED
        else if ses_session_state session \<noteq> SSH_SESSION_STATE_DH then Some SSH_PACKET_DENIED
        else if ses_dh_handshake_state session \<noteq> DH_STATE_INIT_SENT \<and>
                ses_dh_handshake_state session \<noteq> DH_STATE_REQUEST_SENT
        then Some SSH_PACKET_DENIED
        else Some SSH_PACKET_ALLOWED)
     else otherwise session)"

definition filter_kexgex :: "filter_step \<Rightarrow> filter_step" where
  "filter_kexgex otherwise session = (let type = pkt_type (ses_in_packet session) in
     if type = SSH2_MSG_KEX_DH_GEX_INIT then
       (case ssh_kex_is_gss (ses_next_crypto session) of
          None \<Rightarrow> None
        | Some True \<Rightarrow>
            if \<not> ses_client session then Some SSH_PACKET_DENIED
            else if ses_session_state session \<noteq> SSH_SESSION_STATE_DH then Some SSH_PACKET_DENIED
            else if ses_dh_handshake_state session \<noteq> DH_STATE_INIT_SENT then Some SSH_PACKET_DENIED
            else Some SSH_PACKET_ALLOWED
        | Some False \<Rightarrow>
            if ses_client session then Some SSH_PACKET_DENIED
            else if ses_session_state session \<noteq> SSH_SESSION_STATE_DH then Some SSH_PACKET_DENIED
            else if ses_dh_handshake_state session \<noteq> DH_STATE_GROUP_SENT then Some SSH_PACKET_DENIED
            else Some SSH_PACKET_ALLOWED)
     else if type = SSH2_MSG_KEX_DH_GEX_REPLY then
       (if ses_server session then Some SSH_PACKET_DENIED
        else if ses_session_state session \<noteq> SSH_SESSION_STATE_DH then Some SSH_PACKET_DENIED
        else if ses_dh_handshake_state session \<noteq> DH_STATE_INIT_SENT then Some SSH_PACKET_DENIED
        else Some SSH_PACKET_ALLOWED)
     else if type = SSH2_MSG_KEX_DH_GEX_REQUEST then
       (if ses_client session then Some SSH_PACKET_DENIED
        else if ses_session_state session \<noteq> SSH_SESSION_STATE_DH then Some SSH_PACKET_DENIED
        else if ses_dh_handshake_state session \<noteq> DH_STATE_INIT then Some SSH_PACKET_DENIED
        else Some SSH_PACKET_ALLOWED)
     else otherwise session)"

definition filter_userauth :: "filter_step \<Rightarrow> filter_step" where
  "filter_userauth otherwise session = (let type = pkt_type (ses_in_packet session) in
     if type = SSH2_MSG_USERAUTH_REQUEST then
       (if ses_client session then Some SSH_PACKET_DENIED
        else if ses_dh_handshake_state session \<noteq> DH_STATE_FINISHED then Some SSH_PACKET_DENIED
        else if ses_session_state session \<noteq> SSH_SESSION_STATE_AUTHENTICATING
        then Some SSH_PACKET_DENIED
        else Some SSH_PACKET_ALLOWED)
     else if type = SSH2_MSG_USERAUTH_FAILURE then
       (if ses_server session then Some SSH_PACKET_DENIED
        else if ses_dh_handshake_state session \<noteq> DH_STATE_FINISHED then Some SSH_PACKET_DENIED
        else if ses_session_state session \<noteq> SSH_SESSION_STATE_AUTHENTICATING
        then Some SSH_PACKET_DENIED
        else Some SSH_PACKET_ALLOWED)
     else if type = SSH2_MSG_USERAUTH_SUCCESS then
       (if ses_server session then Some SSH_PACKET_DENIED
        else if ses_dh_handshake_state session \<noteq> DH_STATE_FINISHED then Some SSH_PACKET_DENIED
        else if ses_session_state session \<noteq> SSH_SESSION_STATE_AUTHENTICATING
        then Some SSH_PACKET_DENIED
        else if ses_auth_state session \<noteq> SSH_AUTH_STATE_KBDINT_SENT \<and>
                ses_auth_state session \<noteq> SSH_AUTH_STATE_PUBKEY_AUTH_SENT \<and>
                ses_auth_state session \<noteq> SSH_AUTH_STATE_PASSWORD_AUTH_SENT \<and>
                ses_auth_state session \<noteq> SSH_AUTH_STATE_GSSAPI_MIC_SENT \<and>
                ses_auth_state session \<noteq> SSH_AUTH_STATE_GSSAPI_KEYEX_MIC_SENT \<and>
                ses_auth_state session \<noteq> SSH_AUTH_STATE_AUTH_NONE_SENT
        then Some SSH_PACKET_DENIED
        else Some SSH_PACKET_ALLOWED)
     else otherwise session)"

definition filter_userauth_dialog :: "filter_step \<Rightarrow> filter_step" where
  "filter_userauth_dialog otherwise session = (let type = pkt_type (ses_in_packet session) in
     if type = SSH2_MSG_USERAUTH_BANNER then
       (if ses_session_state session \<noteq> SSH_SESSION_STATE_AUTHENTICATING
        then Some SSH_PACKET_DENIED
        else Some SSH_PACKET_ALLOWED)
     else if type = SSH2_MSG_USERAUTH_PK_OK then
       (if ses_session_state session \<noteq> SSH_SESSION_STATE_AUTHENTICATING
        then Some SSH_PACKET_DENIED
        else if ses_auth_state session \<noteq> SSH_AUTH_STATE_KBDINT_SENT \<and>
                ses_auth_state session \<noteq> SSH_AUTH_STATE_PUBKEY_OFFER_SENT \<and>
                ses_auth_state session \<noteq> SSH_AUTH_STATE_GSSAPI_REQUEST_SENT
        then Some SSH_PACKET_DENIED
        else Some SSH_PACKET_ALLOWED)
     else if type = SSH2_MSG_USERAUTH_INFO_RESPONSE then
       (if ses_session_state session \<noteq> SSH_SESSION_STATE_AUTHENTICATING
        then Some SSH_PACKET_DENIED
        else if ses_auth_state session \<noteq> SSH_AUTH_STATE_INFO \<and>
                ses_auth_state session \<noteq> SSH_AUTH_STATE_GSSAPI_TOKEN
        then Some SSH_PACKET_DENIED
        else Some SSH_PACKET_ALLOWED)
     else otherwise session)"

definition filter_userauth_gssapi :: "bool \<Rightarrow> filter_step \<Rightarrow> filter_step" where
  "filter_userauth_gssapi gssapi otherwise session =
    (let type = pkt_type (ses_in_packet session) in
     if type = SSH2_MSG_USERAUTH_GSSAPI_EXCHANGE_COMPLETE then
       (if gssapi then
          (if ses_client session then Some SSH_PACKET_DENIED
           else if ses_session_state session \<noteq> SSH_SESSION_STATE_AUTHENTICATING
           then Some SSH_PACKET_DENIED
           else case ses_gssapi session of
                  None \<Rightarrow> Some SSH_PACKET_DENIED
                | Some state \<Rightarrow> if state \<noteq> SSH_GSSAPI_STATE_RCV_MIC then Some SSH_PACKET_DENIED
                                 else Some SSH_PACKET_ALLOWED)
        else Some SSH_PACKET_DENIED)
     else if type = SSH2_MSG_USERAUTH_GSSAPI_ERROR then
       (if gssapi then
          (if ses_server session then Some SSH_PACKET_DENIED
           else if ses_session_state session \<noteq> SSH_SESSION_STATE_AUTHENTICATING
           then Some SSH_PACKET_DENIED
           else Some SSH_PACKET_ALLOWED)
        else Some SSH_PACKET_DENIED)
     else if type = SSH2_MSG_USERAUTH_GSSAPI_ERRTOK then
       (if gssapi then
          (if ses_session_state session \<noteq> SSH_SESSION_STATE_AUTHENTICATING
           then Some SSH_PACKET_DENIED
           else Some SSH_PACKET_ALLOWED)
        else Some SSH_PACKET_DENIED)
     else if type = SSH2_MSG_USERAUTH_GSSAPI_MIC then
       (if gssapi then
          (if ses_client session then Some SSH_PACKET_DENIED
           else if ses_dh_handshake_state session \<noteq> DH_STATE_FINISHED then Some SSH_PACKET_DENIED
           else if ses_session_state session \<noteq> SSH_SESSION_STATE_AUTHENTICATING
           then Some SSH_PACKET_DENIED
           else Some SSH_PACKET_ALLOWED)
        else Some SSH_PACKET_DENIED)
     else otherwise session)"

text \<open>All cases of the connection protocol have the same body.\<close>

definition filter_authenticated :: filter_step where
  "filter_authenticated session =
     (if ses_session_state session \<noteq> SSH_SESSION_STATE_AUTHENTICATED then Some SSH_PACKET_DENIED
      else Some SSH_PACKET_ALLOWED)"

definition filter_global :: "filter_step \<Rightarrow> filter_step" where
  "filter_global otherwise session = (let type = pkt_type (ses_in_packet session) in
     if type = SSH2_MSG_GLOBAL_REQUEST then filter_authenticated session
     else if type = SSH2_MSG_REQUEST_SUCCESS then filter_authenticated session
     else if type = SSH2_MSG_REQUEST_FAILURE then filter_authenticated session
     else if type = SSH2_MSG_CHANNEL_OPEN then filter_authenticated session
     else if type = SSH2_MSG_CHANNEL_OPEN_CONFIRMATION then filter_authenticated session
     else if type = SSH2_MSG_CHANNEL_OPEN_FAILURE then filter_authenticated session
     else otherwise session)"

definition filter_channel :: "filter_step \<Rightarrow> filter_step" where
  "filter_channel otherwise session = (let type = pkt_type (ses_in_packet session) in
     if type = SSH2_MSG_CHANNEL_WINDOW_ADJUST then filter_authenticated session
     else if type = SSH2_MSG_CHANNEL_DATA then filter_authenticated session
     else if type = SSH2_MSG_CHANNEL_EXTENDED_DATA then filter_authenticated session
     else if type = SSH2_MSG_CHANNEL_EOF then filter_authenticated session
     else if type = SSH2_MSG_CHANNEL_CLOSE then filter_authenticated session
     else if type = SSH2_MSG_CHANNEL_REQUEST then filter_authenticated session
     else if type = SSH2_MSG_CHANNEL_SUCCESS then filter_authenticated session
     else if type = SSH2_MSG_CHANNEL_FAILURE then filter_authenticated session
     else otherwise session)"

definition filter_unknown :: filter_step where
  "filter_unknown session = Some SSH_PACKET_UNKNOWN"

definition ssh_packet_incoming_filter :: "bool \<Rightarrow> filter_step" where
  "ssh_packet_incoming_filter gssapi =
     filter_transport (filter_service (filter_kexinit_newkeys (filter_kexdh (filter_kexgex
       (filter_userauth (filter_userauth_dialog (filter_userauth_gssapi gssapi
         (filter_global (filter_channel filter_unknown)))))))))"


lemmas filter_defs = filter_transport_def filter_service_def filter_kexinit_newkeys_def
  filter_kexdh_def filter_kexgex_def filter_userauth_def filter_userauth_dialog_def
  filter_userauth_gssapi_def filter_authenticated_def filter_global_def filter_channel_def
  filter_unknown_def ssh_packet_incoming_filter_def Let_def

section \<open>The filter as a table\<close>

text \<open>
  The specification: per message type, what a session must satisfy to receive it. A message
  is bound to a role by saying which role rejects it (a session may be neither before it is
  set up). \<open>None\<close> leaves a state unconstrained.
\<close>

record packet_rule =
  rule_rejected_by_client :: bool
  rule_rejected_by_server :: bool
  rule_requires_client :: bool
  rule_session :: "ssh_session_state list option"
  rule_dh :: "ssh_dh_state list option"
  rule_auth :: "ssh_auth_state list option"
  rule_service :: "ssh_auth_service_state list option"
  rule_gssapi :: "ssh_gssapi_state list option"

definition any_packet :: packet_rule where
  "any_packet = \<lparr>rule_rejected_by_client = False, rule_rejected_by_server = False,
     rule_requires_client = False, rule_session = None, rule_dh = None, rule_auth = None,
     rule_service = None, rule_gssapi = None\<rparr>"

definition no_packet :: packet_rule where
  "no_packet = any_packet\<lparr>rule_session := Some []\<rparr>"

definition to_server :: "packet_rule \<Rightarrow> packet_rule" where
  "to_server r = r\<lparr>rule_rejected_by_client := True\<rparr>"

definition to_client :: "packet_rule \<Rightarrow> packet_rule" where
  "to_client r = r\<lparr>rule_rejected_by_server := True\<rparr>"

definition in_states :: "ssh_session_state list \<Rightarrow> packet_rule" where
  "in_states xs = any_packet\<lparr>rule_session := Some xs\<rparr>"

definition in_dh :: "ssh_dh_state list \<Rightarrow> packet_rule" where
  "in_dh xs = any_packet\<lparr>rule_session := Some [SSH_SESSION_STATE_DH], rule_dh := Some xs\<rparr>"

definition in_auth :: packet_rule where
  "in_auth = any_packet\<lparr>rule_session := Some [SSH_SESSION_STATE_AUTHENTICATING],
     rule_dh := Some [DH_STATE_FINISHED]\<rparr>"

definition after_kex :: packet_rule where
  "after_kex = any_packet\<lparr>rule_session := Some [SSH_SESSION_STATE_AUTHENTICATING,
     SSH_SESSION_STATE_AUTHENTICATED], rule_dh := Some [DH_STATE_FINISHED]\<rparr>"

definition packet_table :: "bool \<Rightarrow> bool \<Rightarrow> (u8 \<times> packet_rule) list" where
  "packet_table gssapi gss_kex =
    [(1, any_packet), (2, any_packet), (3, any_packet), (4, any_packet),
     (5, to_server after_kex),
     (6, after_kex\<lparr>rule_service := Some [SSH_AUTH_SERVICE_SENT]\<rparr>),
     (7, after_kex),
     (20, any_packet\<lparr>
        rule_session := Some [SSH_SESSION_STATE_AUTHENTICATED, SSH_SESSION_STATE_INITIAL_KEX],
        rule_dh := Some [DH_STATE_INIT, DH_STATE_INIT_SENT, DH_STATE_REQUEST_SENT, DH_STATE_FINISHED]\<rparr>),
     (21, in_dh [DH_STATE_NEWKEYS_SENT]),
     (30, to_server (in_dh [DH_STATE_INIT])),
     (31, to_client (in_dh [DH_STATE_INIT_SENT, DH_STATE_REQUEST_SENT])),
     (32, if gss_kex then (in_dh [DH_STATE_INIT_SENT])\<lparr>rule_requires_client := True\<rparr>
          else to_server (in_dh [DH_STATE_GROUP_SENT])),
     (33, to_client (in_dh [DH_STATE_INIT_SENT])),
     (34, to_server (in_dh [DH_STATE_INIT])),
     (50, to_server in_auth),
     (51, to_client in_auth),
     (52, to_client (in_auth\<lparr>rule_auth := Some [SSH_AUTH_STATE_KBDINT_SENT,
        SSH_AUTH_STATE_PUBKEY_AUTH_SENT, SSH_AUTH_STATE_PASSWORD_AUTH_SENT,
        SSH_AUTH_STATE_GSSAPI_MIC_SENT, SSH_AUTH_STATE_GSSAPI_KEYEX_MIC_SENT,
        SSH_AUTH_STATE_AUTH_NONE_SENT]\<rparr>)),
     (53, in_states [SSH_SESSION_STATE_AUTHENTICATING]),
     (60, (in_states [SSH_SESSION_STATE_AUTHENTICATING])\<lparr>rule_auth := Some
        [SSH_AUTH_STATE_KBDINT_SENT, SSH_AUTH_STATE_PUBKEY_OFFER_SENT,
         SSH_AUTH_STATE_GSSAPI_REQUEST_SENT]\<rparr>),
     (61, (in_states [SSH_SESSION_STATE_AUTHENTICATING])\<lparr>rule_auth := Some
        [SSH_AUTH_STATE_INFO, SSH_AUTH_STATE_GSSAPI_TOKEN]\<rparr>),
     (63, if gssapi then to_server ((in_states [SSH_SESSION_STATE_AUTHENTICATING])\<lparr>
        rule_gssapi := Some [SSH_GSSAPI_STATE_RCV_MIC]\<rparr>) else no_packet),
     (64, if gssapi then to_client (in_states [SSH_SESSION_STATE_AUTHENTICATING]) else no_packet),
     (65, if gssapi then in_states [SSH_SESSION_STATE_AUTHENTICATING] else no_packet),
     (66, if gssapi then to_server in_auth else no_packet)] @
    map (\<lambda>type. (type, in_states [SSH_SESSION_STATE_AUTHENTICATED]))
      [80, 81, 82, 90, 91, 92, 93, 94, 95, 96, 97, 98, 99, 100]"

definition among :: "'a \<Rightarrow> 'a list option \<Rightarrow> bool" where
  "among x allowed = (case allowed of None \<Rightarrow> True | Some xs \<Rightarrow> x \<in> set xs)"

definition satisfies :: "ssh_session \<Rightarrow> packet_rule \<Rightarrow> bool" where
  "satisfies session r \<longleftrightarrow> \<not> (rule_rejected_by_client r \<and> ses_client session) \<and>
     \<not> (rule_rejected_by_server r \<and> ses_server session) \<and>
     (rule_requires_client r \<longrightarrow> ses_client session) \<and>
     among (ses_session_state session) (rule_session r) \<and>
     among (ses_dh_handshake_state session) (rule_dh r) \<and>
     among (ses_auth_state session) (rule_auth r) \<and>
     among (ses_auth_service_state session) (rule_service r) \<and>
     (case rule_gssapi r of None \<Rightarrow> True
      | Some xs \<Rightarrow> (case ses_gssapi session of None \<Rightarrow> False | Some g \<Rightarrow> g \<in> set xs))"

definition gss_kex :: "ssh_session \<Rightarrow> bool" where
  "gss_kex session \<longleftrightarrow> ssh_kex_is_gss (ses_next_crypto session) = Some True"

lemmas rule_defs = packet_table_def any_packet_def no_packet_def to_server_def to_client_def
  in_states_def in_dh_def in_auth_def after_kex_def

lemma map_of_packet_table_None:
  "map_of (packet_table gssapi gss) type = None \<longleftrightarrow>
     type \<notin> {1, 2, 3, 4, 5, 6, 7, 20, 21, 30, 31, 32, 33, 34, 50, 51, 52, 53, 60, 61, 63, 64, 65,
       66, 80, 81, 82, 90, 91, 92, 93, 94, 95, 96, 97, 98, 99, 100}"
  by (simp add: packet_table_def map_of_eq_None_iff)

lemma filter_lookup:
  "ssh_packet_incoming_filter gssapi session =
    (if pkt_type (ses_in_packet session) = SSH2_MSG_KEX_DH_GEX_INIT \<and> ses_next_crypto session = None
     then None
     else Some (case map_of (packet_table gssapi (gss_kex session)) (pkt_type (ses_in_packet session)) of
       None \<Rightarrow> SSH_PACKET_UNKNOWN
     | Some r \<Rightarrow> if satisfies session r then SSH_PACKET_ALLOWED else SSH_PACKET_DENIED))"
proof (cases "map_of (packet_table gssapi (gss_kex session)) (pkt_type (ses_in_packet session))")
  case None
  then show ?thesis unfolding map_of_packet_table_None by (simp add: filter_defs rule_defs)
next
  case (Some r)
  then have "pkt_type (ses_in_packet session) \<in>
      {1, 2, 3, 4, 5, 6, 7, 20, 21, 30, 31, 32, 33, 34, 50, 51, 52, 53, 60, 61, 63, 64, 65,
       66, 80, 81, 82, 90, 91, 92, 93, 94, 95, 96, 97, 98, 99, 100}"
    using map_of_packet_table_None by (metis option.distinct(1))
  then show ?thesis unfolding insert_iff empty_iff
    by (elim disjE)
      (simp_all add: filter_defs rule_defs satisfies_def among_def gss_kex_def ssh_kex_is_gss_def
        split: option.splits bool.splits)
qed

definition allowed :: "bool \<Rightarrow> ssh_session \<Rightarrow> bool" where
  "allowed gssapi session \<longleftrightarrow> ssh_packet_incoming_filter gssapi session = Some SSH_PACKET_ALLOWED"

text \<open>A fact about every rule of the table holds of what the filter allows.\<close>

lemma allowed_rule:
  assumes "allowed gssapi session"
    and "\<And>b r. (pkt_type (ses_in_packet session), r) \<in> set (packet_table gssapi b) \<Longrightarrow>
      satisfies session r \<Longrightarrow> P"
  shows P
proof -
  from assms(1) obtain r where
    "map_of (packet_table gssapi (gss_kex session)) (pkt_type (ses_in_packet session)) = Some r"
    "satisfies session r"
    by (auto simp: allowed_def filter_lookup split: if_splits option.splits)
  with assms(2) show P by (metis map_of_SomeD)
qed

lemma packet_table_ball:
  "(\<forall>x \<in> set (packet_table gssapi b). P x) \<longleftrightarrow> list_all P (packet_table gssapi b)"
  by (simp add: list_all_iff)

definition rule_session_within :: "ssh_session_state list \<Rightarrow> packet_rule \<Rightarrow> bool" where
  "rule_session_within xs r \<longleftrightarrow> (case rule_session r of None \<Rightarrow> False | Some ys \<Rightarrow> set ys \<subseteq> set xs)"

lemma rule_session_withinD:
  "rule_session_within xs r \<Longrightarrow> satisfies session r \<Longrightarrow> ses_session_state session \<in> set xs"
  by (auto simp: rule_session_within_def satisfies_def among_def split: option.splits)

lemma satisfies_roles: "satisfies session r \<Longrightarrow>
    (rule_rejected_by_client r \<or> rule_session r = Some [] \<longrightarrow> \<not> ses_client session) \<and>
    (rule_rejected_by_server r \<or> rule_session r = Some [] \<longrightarrow> \<not> ses_server session)"
  by (auto simp: satisfies_def among_def)

lemma table_phases:
  "list_all (\<lambda>(type, r).
     (80 \<le> type \<longrightarrow> rule_session_within [SSH_SESSION_STATE_AUTHENTICATED] r) \<and>
     (50 \<le> type \<and> type < 80 \<longrightarrow> rule_session_within [SSH_SESSION_STATE_AUTHENTICATING] r) \<and>
     (30 \<le> type \<and> type < 50 \<longrightarrow> rule_session_within [SSH_SESSION_STATE_DH] r))
     (packet_table gssapi b)"
  by (induction gssapi rule: bool.induct; induction b rule: bool.induct; code_simp)

lemma table_roles:
  "list_all (\<lambda>(type, r).
     (type \<in> {5, 30, 34, 50, 63, 66} \<longrightarrow> rule_rejected_by_client r \<or> rule_session r = Some []) \<and>
     (type \<in> {31, 33, 51, 52, 64} \<longrightarrow> rule_rejected_by_server r \<or> rule_session r = Some []))
     (packet_table gssapi b)"
  by (induction gssapi rule: bool.induct; induction b rule: bool.induct; code_simp)

lemma table_other_states:
  "list_all (\<lambda>(type, r).
     (\<exists>xs \<in> {[SSH_SESSION_STATE_AUTHENTICATING, SSH_SESSION_STATE_AUTHENTICATED],
              [SSH_SESSION_STATE_AUTHENTICATED, SSH_SESSION_STATE_INITIAL_KEX],
              [SSH_SESSION_STATE_DH], [SSH_SESSION_STATE_AUTHENTICATING],
              [SSH_SESSION_STATE_AUTHENTICATED]}. rule_session_within xs r) \<or>
     type \<in> {1, 2, 3, 4}) (packet_table gssapi b)"
  by (induction gssapi rule: bool.induct; induction b rule: bool.induct; code_simp)

lemma allowed_list_all:
  assumes "allowed gssapi session" and "\<And>b. list_all P (packet_table gssapi b)"
  shows "\<exists>r. P (pkt_type (ses_in_packet session), r) \<and> satisfies session r"
  using assms by (metis allowed_rule list_all_iff)

section \<open>Properties\<close>

abbreviation (input) in_type :: "ssh_session \<Rightarrow> u8" where
  "in_type session \<equiv> pkt_type (ses_in_packet session)"


text \<open>Authentication is completed only by a server's answer to an outstanding request. A
  \<open>USERAUTH_SUCCESS\<close> is let through exactly when this side is not the server, the key exchange
  is finished, the session is authenticating, and a request that can succeed was sent.\<close>

theorem filter_userauth_success:
  "in_type session = SSH2_MSG_USERAUTH_SUCCESS \<and> allowed gssapi session \<longleftrightarrow>
     in_type session = SSH2_MSG_USERAUTH_SUCCESS \<and>
     \<not> ses_server session \<and> ses_dh_handshake_state session = DH_STATE_FINISHED \<and>
     ses_session_state session = SSH_SESSION_STATE_AUTHENTICATING \<and>
     ses_auth_state session \<in> {SSH_AUTH_STATE_KBDINT_SENT, SSH_AUTH_STATE_PUBKEY_AUTH_SENT,
       SSH_AUTH_STATE_PASSWORD_AUTH_SENT, SSH_AUTH_STATE_GSSAPI_MIC_SENT,
       SSH_AUTH_STATE_GSSAPI_KEYEX_MIC_SENT, SSH_AUTH_STATE_AUTH_NONE_SENT}"
  by (auto simp: filter_defs allowed_def)

text \<open>Every message is confined to its phase. No message of the connection protocol
  (global requests and channels) is let through before the session is authenticated, no message
  of the authentication protocol outside the authentication phase, no key exchange message
  outside the Diffie-Hellman phase; and in a phase other than these (before the banner, after an
  error, after a disconnect) only the four messages that are always allowed.\<close>

theorem filter_phases:
  assumes "allowed gssapi session"
  shows "(80 \<le> in_type session \<longrightarrow> ses_session_state session = SSH_SESSION_STATE_AUTHENTICATED) \<and>
    (50 \<le> in_type session \<and> in_type session < 80 \<longrightarrow>
       ses_session_state session = SSH_SESSION_STATE_AUTHENTICATING) \<and>
    (30 \<le> in_type session \<and> in_type session < 50 \<longrightarrow>
       ses_session_state session = SSH_SESSION_STATE_DH) \<and>
    (ses_session_state session \<notin> {SSH_SESSION_STATE_INITIAL_KEX, SSH_SESSION_STATE_DH,
       SSH_SESSION_STATE_AUTHENTICATING, SSH_SESSION_STATE_AUTHENTICATED} \<longrightarrow>
     in_type session \<in> {1, 2, 3, 4})"
proof -
  from allowed_list_all [OF assms table_phases] obtain r where
    r: "satisfies session r" "80 \<le> in_type session \<longrightarrow> rule_session_within [SSH_SESSION_STATE_AUTHENTICATED] r"
      "50 \<le> in_type session \<and> in_type session < 80 \<longrightarrow> rule_session_within [SSH_SESSION_STATE_AUTHENTICATING] r"
      "30 \<le> in_type session \<and> in_type session < 50 \<longrightarrow> rule_session_within [SSH_SESSION_STATE_DH] r"
    by auto
  from allowed_list_all [OF assms table_other_states] obtain r' where
    r': "satisfies session r'" "(\<exists>xs \<in> {[SSH_SESSION_STATE_AUTHENTICATING, SSH_SESSION_STATE_AUTHENTICATED],
              [SSH_SESSION_STATE_AUTHENTICATED, SSH_SESSION_STATE_INITIAL_KEX],
              [SSH_SESSION_STATE_DH], [SSH_SESSION_STATE_AUTHENTICATING],
              [SSH_SESSION_STATE_AUTHENTICATED]}. rule_session_within xs r') \<or>
     in_type session \<in> {1, 2, 3, 4}"
    by auto
  note within = rule_session_withinD [OF _ r(1)] rule_session_withinD [OF _ r'(1)]
  have "80 \<le> in_type session \<longrightarrow> ses_session_state session = SSH_SESSION_STATE_AUTHENTICATED"
    using r(2) within(1) by force
  moreover have "50 \<le> in_type session \<and> in_type session < 80 \<longrightarrow>
      ses_session_state session = SSH_SESSION_STATE_AUTHENTICATING"
    using r(3) within(1) by force
  moreover have "30 \<le> in_type session \<and> in_type session < 50 \<longrightarrow>
      ses_session_state session = SSH_SESSION_STATE_DH"
    using r(4) within(1) by force
  moreover have "ses_session_state session \<in> {SSH_SESSION_STATE_INITIAL_KEX, SSH_SESSION_STATE_DH,
       SSH_SESSION_STATE_AUTHENTICATING, SSH_SESSION_STATE_AUTHENTICATED} \<or> in_type session \<in> {1, 2, 3, 4}"
    using r'(2) within(2) by force
  ultimately show ?thesis by blast
qed

text \<open>A session for the examples: a client, authenticating, with a password request sent.\<close>

definition sample_crypto :: ssh_crypto where
  "sample_crypto = \<lparr>cry_session_id = [], cry_in_cipher = None, cry_out_cipher = None,
     cry_in_hmac = SSH_HMAC_NONE, cry_out_hmac = SSH_HMAC_NONE, cry_in_hmac_etm = False,
     cry_out_hmac_etm = False, cry_encryptMAC = [], cry_decryptMAC = [], cry_hmacbuf = [],
     cry_do_compress_in = False, cry_do_compress_out = False, cry_delayed_compress_in = False, cry_delayed_compress_out = False,
     cry_kex_type = SSH_KEX_CURVE25519_SHA256, cry_used = 0\<rparr>"

definition sample_session :: ssh_session where
  "sample_session = \<lparr>ses_server = False, ses_client = True, ses_send_seq = 0, ses_recv_seq = 0,
     ses_flags = 1, ses_alive = True, ses_in_buffer = None,
     ses_in_packet = \<lparr>pkt_valid = True, pkt_len = 0, pkt_type = 52\<rparr>,
     ses_out_buffer = Some (sample_wire\<lparr>buf_used := 0\<rparr>), ses_out_queue = [],
     ses_session_state = SSH_SESSION_STATE_AUTHENTICATING, ses_packet_state = PACKET_STATE_INIT,
     ses_dh_handshake_state = DH_STATE_FINISHED, ses_global_req_state = SSH_CHANNEL_REQ_STATE_NONE,
     ses_auth_service_state = SSH_AUTH_SERVICE_ACCEPTED,
     ses_auth_state = SSH_AUTH_STATE_PASSWORD_AUTH_SENT, ses_auth_supported_methods = 0,
     ses_auth_current_method = 0, ses_pending_call_state = SSH_PENDING_CALL_NONE, ses_kbdint = None, ses_banner = None,
     ses_current_crypto = Some sample_crypto,
     ses_next_crypto = Some sample_crypto, ses_channels = [], ses_maxchannel = 42,
     ses_gssapi = None, ses_rekey_data = 0, ses_rekey_time = 0, ses_error = None, ses_socket = []\<rparr>"

theorem filter_phases_witness:
  "allowed False (sample_session\<lparr>ses_in_packet := \<lparr>pkt_valid = True, pkt_len = 0, pkt_type = 94\<rparr>,
     ses_session_state := SSH_SESSION_STATE_AUTHENTICATED\<rparr>) \<and>
   \<not> allowed False (sample_session\<lparr>ses_in_packet := \<lparr>pkt_valid = True, pkt_len = 0, pkt_type = 94\<rparr>\<rparr>)"
proof -
  have "allowed False (sample_session\<lparr>ses_in_packet := \<lparr>pkt_valid = True, pkt_len = 0, pkt_type = 94\<rparr>,
     ses_session_state := SSH_SESSION_STATE_AUTHENTICATED\<rparr>)"
    by (simp add: allowed_def filter_defs sample_session_def)
  moreover have "ses_session_state sample_session \<noteq> SSH_SESSION_STATE_AUTHENTICATED"
    by (simp add: sample_session_def)
  ultimately show ?thesis
    using filter_phases [of False
      "sample_session\<lparr>ses_in_packet := \<lparr>pkt_valid = True, pkt_len = 0, pkt_type = 94\<rparr>\<rparr>"] by auto
qed

text \<open>The roles are separated. Requests a server handles are never let through to a client,
  replies a client handles are never let through to a server.\<close>

theorem filter_roles:
  assumes "allowed gssapi session"
  shows "(in_type session \<in> {5, 30, 34, 50, 63, 66} \<longrightarrow> \<not> ses_client session) \<and>
    (in_type session \<in> {31, 33, 51, 52, 64} \<longrightarrow> \<not> ses_server session)"
proof -
  from allowed_list_all [OF assms table_roles, unfolded prod.case] obtain r where
    r: "satisfies session r"
      "in_type session \<in> {5, 30, 34, 50, 63, 66} \<longrightarrow> rule_rejected_by_client r \<or> rule_session r = Some []"
      "in_type session \<in> {31, 33, 51, 52, 64} \<longrightarrow> rule_rejected_by_server r \<or> rule_session r = Some []"
    by blast
  with satisfies_roles [OF r(1)] show ?thesis by blast
qed

theorem filter_roles_witness:
  "allowed False sample_session \<and> \<not> allowed False (sample_session\<lparr>ses_server := True\<rparr>)"
proof -
  have "allowed False sample_session" by (simp add: allowed_def filter_defs sample_session_def)
  moreover have "pkt_type (ses_in_packet sample_session) = 52" by (simp add: sample_session_def)
  ultimately show ?thesis using filter_roles [of False "sample_session\<lparr>ses_server := True\<rparr>"] by auto
qed

text \<open>Two checks that the comments of the filter list are not made by its code: a
  \<open>USERAUTH_FAILURE\<close> is let through while no request is outstanding, and a \<open>GSSAPI_MIC\<close> while there
  is no GSSAPI context; and a \<open>KEX_DH_GEX_INIT\<close> that arrives when there is no next crypto
  context dereferences \<open>NULL\<close>.\<close>

theorem filter_unchecked:
  "allowed gssapi (sample_session\<lparr>ses_in_packet := \<lparr>pkt_valid = True, pkt_len = 0, pkt_type = 51\<rparr>,
     ses_auth_state := SSH_AUTH_STATE_NONE\<rparr>) \<and>
   allowed True (sample_session\<lparr>ses_in_packet := \<lparr>pkt_valid = True, pkt_len = 0, pkt_type = 66\<rparr>,
     ses_client := False, ses_server := True, ses_gssapi := None\<rparr>) \<and>
   ssh_packet_incoming_filter gssapi (sample_session\<lparr>
     ses_in_packet := \<lparr>pkt_valid = True, pkt_len = 0, pkt_type = 32\<rparr>, ses_next_crypto := None\<rparr>) = None"
  by (simp add: allowed_def filter_defs sample_session_def ssh_kex_is_gss_def)

end
