(* ===== verification/PacketSend.thy ===== *)
theory PacketSend
  imports PacketFilter
begin

text \<open>
  The sending half of the packet layer: the crypto contexts and their switch, the rekey
  limits, the framing and encryption of one packet, and \<open>ssh_packet_send\<close> with its queue
  (\<open>packet.c\<close>, \<open>packet_crypt.c\<close>, the end of \<open>kex.c\<close>'s \<open>ssh_send_rekex\<close>).

  What these functions call outside the modelled code is a parameter, the record \<open>packet_env\<close>:
  the allocator, whether the server code is compiled in, whether \<open>crypto_new\<close> gets its memory,
  the clock's verdict on the time-based rekey, the random generator, compression,
  the ciphers and MACs of the crypto library, the derivation of new keys, the
  content of \<open>KEXINIT\<close>, and the socket's acceptance of data. A result \<open>None\<close> is a dereference of
  a \<open>NULL\<close> pointer.
\<close>

section \<open>The environment\<close>

record packet_env =
  env_mem :: allocator
  env_gssapi :: bool
  env_server :: bool
  env_crypto_alloc :: bool
  env_rekey_elapsed :: "ssh_session \<Rightarrow> bool"
  env_random :: "ssh_session \<Rightarrow> nat \<Rightarrow> bytes option"
  env_compress :: "ssh_session \<Rightarrow> ssh_buffer \<Rightarrow> ssh_buffer \<times> int"
  env_hmac_init :: "ssh_hmac \<Rightarrow> bytes \<Rightarrow> bool"
  env_hmac :: "ssh_hmac \<Rightarrow> bytes \<Rightarrow> bytes \<Rightarrow> bytes option"
  env_encrypt :: "ssh_cipher \<Rightarrow> bytes \<Rightarrow> ssh_cipher \<times> bytes"
  env_aead_encrypt :: "ssh_cipher \<Rightarrow> u32 \<Rightarrow> bytes \<Rightarrow> ssh_cipher \<times> bytes \<times> bytes"
  env_new_keys :: "ssh_session \<Rightarrow> ssh_session \<times> int"
  env_set_decrypt_key :: "ssh_crypto \<Rightarrow> ssh_cipher option"
  env_set_encrypt_key :: "ssh_crypto \<Rightarrow> ssh_cipher option"
  env_set_kex :: "ssh_session \<Rightarrow> ssh_session \<times> int"
  env_kexinit :: "ssh_session \<Rightarrow> ssh_session \<times> int"
  env_socket_write :: "ssh_session \<Rightarrow> bytes \<Rightarrow> bool"

section \<open>Crypto contexts\<close>

text \<open>A pointer to one of the two contexts of a session.\<close>

datatype crypto_slot = Current | Next

definition crypto_at :: "crypto_slot \<Rightarrow> ssh_session \<Rightarrow> ssh_crypto option" where
  "crypto_at slot session = (case slot of Current \<Rightarrow> ses_current_crypto session
     | Next \<Rightarrow> ses_next_crypto session)"

definition crypto_update :: "crypto_slot \<Rightarrow> (ssh_crypto \<Rightarrow> ssh_crypto) \<Rightarrow> ssh_session \<Rightarrow> ssh_session" where
  "crypto_update slot f session = (case slot of
     Current \<Rightarrow> session\<lparr>ses_current_crypto := map_option f (ses_current_crypto session)\<rparr>
   | Next \<Rightarrow> session\<lparr>ses_next_crypto := map_option f (ses_next_crypto session)\<rparr>)"

definition used_for :: "u32 \<Rightarrow> ssh_crypto option \<Rightarrow> bool" where
  "used_for direction crypto =
     (case crypto of None \<Rightarrow> False | Some c \<Rightarrow> has_flag (cry_used c) direction)"

definition ssh_packet_get_current_crypto :: "ssh_session \<Rightarrow> u32 \<Rightarrow> crypto_slot option" where
  "ssh_packet_get_current_crypto session direction =
    (case (if used_for direction (ses_current_crypto session) then Some Current
           else if used_for direction (ses_next_crypto session) then Some Next
           else None) of
       None \<Rightarrow> None
     | Some slot \<Rightarrow> (case crypto_at slot session of
         None \<Rightarrow> None
       | Some crypto \<Rightarrow>
           if direction = SSH_DIRECTION_IN
           then (if cry_in_cipher crypto \<noteq> None then Some slot else None)
           else if direction = SSH_DIRECTION_OUT
           then (if cry_out_cipher crypto \<noteq> None then Some slot else None)
           else if direction = SSH_DIRECTION_BOTH
           then (if cry_in_cipher crypto \<noteq> None \<and> cry_out_cipher crypto \<noteq> None
                 then Some slot else None)
           else None))"

section \<open>Rekeying\<close>

definition MAX_PACKETS :: u32 where "MAX_PACKETS = 0x80000000"

definition ssh_packet_need_rekey :: "packet_env \<Rightarrow> ssh_session \<Rightarrow> u32 \<Rightarrow> bool" where
  "ssh_packet_need_rekey env session payloadsize =
    (if \<not> has_flag (ses_flags session) SSH_SESSION_FLAG_AUTHENTICATED then False
     else if ses_dh_handshake_state session \<noteq> DH_STATE_FINISHED then False
     else case ssh_packet_get_current_crypto session SSH_DIRECTION_BOTH of
       None \<Rightarrow> False
     | Some slot \<Rightarrow>
       (case crypto_at slot session of None \<Rightarrow> False | Some crypto \<Rightarrow>
        let out_cipher = the (cry_out_cipher crypto);
            in_cipher = the (cry_in_cipher crypto)
        in if ciph_packets out_cipher = 0 \<and> ciph_packets in_cipher = 0 then False
           else if ses_rekey_time session \<noteq> 0 \<and> env_rekey_elapsed env session then True
           else if ciph_packets out_cipher > MAX_PACKETS \<or> ciph_packets in_cipher > MAX_PACKETS
           then True
           else let next_blocks = payloadsize div ciph_blocksize out_cipher
                in (ciph_max_blocks out_cipher \<noteq> 0 \<and>
                    ciph_blocks out_cipher + ucast next_blocks > ciph_max_blocks out_cipher) \<or>
                   (ciph_max_blocks in_cipher \<noteq> 0 \<and>
                    ciph_blocks in_cipher + ucast next_blocks > ciph_max_blocks in_cipher)))"

definition ssh_init_rekey_state :: "ssh_session \<Rightarrow> ssh_cipher \<Rightarrow> ssh_cipher" where
  "ssh_init_rekey_state session cipher =
    (let cipher = cipher\<lparr>ciph_packets := 0, ciph_blocks := 0\<rparr>;
         max_blocks = (if ciph_blocksize cipher \<ge> 16
                       then push_bit (unat (ciph_blocksize cipher * 2)) 1
                       else push_bit 30 1 div ucast (ciph_blocksize cipher));
         max_blocks = (if ses_rekey_data session \<noteq> 0
                       then min max_blocks (ses_rekey_data session div ucast (ciph_blocksize cipher))
                       else max_blocks)
     in cipher\<lparr>ciph_max_blocks := max_blocks\<rparr>)"

text \<open>A context from \<open>calloc\<close>. \<open>hmacbuf\<close> is an array of \<open>DIGEST_MAX_LEN\<close> bytes; a MAC is written at
  its beginning.\<close>

definition DIGEST_MAX_LEN :: nat where "DIGEST_MAX_LEN = 64"

definition crypto_new :: ssh_crypto where
  "crypto_new = \<lparr>cry_session_id = [], cry_in_cipher = None, cry_out_cipher = None,
     cry_in_hmac = SSH_HMAC_UNSET, cry_out_hmac = SSH_HMAC_UNSET, cry_in_hmac_etm = False,
     cry_out_hmac_etm = False, cry_encryptMAC = [], cry_decryptMAC = [], cry_hmacbuf = replicate DIGEST_MAX_LEN 0,
     cry_do_compress_in = False, cry_do_compress_out = False, cry_delayed_compress_in = False, cry_delayed_compress_out = False,
     cry_kex_type = SSH_KEX_UNSET, cry_used = 0\<rparr>"

text \<open>Both directions have switched: the next context becomes the current one. The two
  allocations are that of the context and that of the copy of the session identifier.\<close>

definition switch_crypto :: "packet_env \<Rightarrow> ssh_session \<Rightarrow> ssh_session \<times> int" where
  "switch_crypto env session =
    (let session = session\<lparr>ses_current_crypto := map_option (\<lambda>c. c\<lparr>cry_used := SSH_DIRECTION_BOTH\<rparr>)
                            (ses_next_crypto session)\<rparr>
     in if \<not> env_crypto_alloc env
        then (ssh_set_error SSH_FATAL (session\<lparr>ses_next_crypto := None\<rparr>), SSH_ERROR)
        else let session_id = (case ses_current_crypto session of None \<Rightarrow> [] | Some c \<Rightarrow> cry_session_id c);
                 session = session\<lparr>ses_next_crypto := Some crypto_new\<rparr>
             in if env_mem env (length session_id) = None
                then (ssh_set_error SSH_FATAL session, SSH_ERROR)
                else (session\<lparr>ses_next_crypto := Some (crypto_new\<lparr>cry_session_id := session_id\<rparr>)\<rparr>,
                      SSH_OK))"

text \<open>The keys of the next context: limits of its ciphers, then the two key schedules.\<close>

definition install_keys :: "packet_env \<Rightarrow> ssh_session \<Rightarrow> ssh_session \<times> int" where
  "install_keys env session = (case ses_next_crypto session of None \<Rightarrow> (session, SSH_ERROR) | Some crypto \<Rightarrow>
     (case (cry_in_cipher crypto, cry_out_cipher crypto) of
        (Some in_cipher, Some out_cipher) \<Rightarrow>
          let crypto = crypto\<lparr>cry_out_cipher := Some (ssh_init_rekey_state session out_cipher),
                              cry_in_cipher := Some (ssh_init_rekey_state session in_cipher)\<rparr>
          in (case env_set_decrypt_key env crypto of
                None \<Rightarrow> (session\<lparr>ses_next_crypto := Some (crypto\<lparr>cry_used := 0\<rparr>)\<rparr>, SSH_ERROR)
              | Some in_cipher \<Rightarrow>
                  let crypto = crypto\<lparr>cry_in_cipher := Some in_cipher\<rparr>
                  in (case env_set_encrypt_key env crypto of
                        None \<Rightarrow> (session\<lparr>ses_next_crypto := Some (crypto\<lparr>cry_used := 0\<rparr>)\<rparr>, SSH_ERROR)
                      | Some out_cipher \<Rightarrow>
                          (session\<lparr>ses_next_crypto := Some (crypto\<lparr>cry_out_cipher := Some out_cipher\<rparr>)\<rparr>,
                           SSH_OK)))
      | _ \<Rightarrow> (session, SSH_ERROR)))"

definition ssh_packet_set_newkeys :: "packet_env \<Rightarrow> ssh_session \<Rightarrow> u32 \<Rightarrow> ssh_session \<times> int" where
  "ssh_packet_set_newkeys env session direction =
    (case ses_next_crypto session of
       None \<Rightarrow> (session, SSH_ERROR)
     | Some next_crypto \<Rightarrow>
       let next_crypto = next_crypto\<lparr>cry_used := cry_used next_crypto OR direction\<rparr>;
           session = session\<lparr>ses_next_crypto := Some next_crypto,
             ses_current_crypto := map_option (\<lambda>c. c\<lparr>cry_used := cry_used c AND NOT direction\<rparr>)
                                     (ses_current_crypto session)\<rparr>
       in if cry_used next_crypto = SSH_DIRECTION_BOTH then switch_crypto env session
          else (case env_new_keys env session of
                  (session, rc) \<Rightarrow>
                    if rc < 0 then (session, SSH_ERROR) else install_keys env session))"

section \<open>Encryption\<close>

text \<open>The data after the call, and the MAC, \<open>None\<close> where the C function returns \<open>NULL\<close>.\<close>

definition ssh_packet_encrypt ::
  "packet_env \<Rightarrow> ssh_session \<Rightarrow> bytes \<Rightarrow> ssh_session \<times> bytes \<times> bytes option" where
  "ssh_packet_encrypt env session data =
    (case ssh_packet_get_current_crypto session SSH_DIRECTION_OUT of
       None \<Rightarrow> (session, data, None)
     | Some slot \<Rightarrow>
       let crypto = the (crypto_at slot session);
           cipher = the (cry_out_cipher crypto);
           type = cry_out_hmac crypto;
           etm = cry_out_hmac_etm crypto;
           etm_packet_offset = (if etm then 4 else 0);
           len = of_nat (length data) :: usize
       in if (len - ucast (ciph_lenfield_blocksize cipher) - of_nat etm_packet_offset) mod
             ucast (ciph_blocksize cipher) \<noteq> 0
          then (ssh_set_error SSH_FATAL session, data, None)
          else if env_mem env (length data) = None then (session, data, None)
          else if ciph_aead cipher
          then (case env_aead_encrypt env cipher (ses_send_seq session) data of
                  (cipher, out, tag) \<Rightarrow>
                    let hmacbuf = blit 0 tag (cry_hmacbuf crypto)
                    in (crypto_update slot
                          (\<lambda>c. c\<lparr>cry_out_cipher := Some cipher, cry_hmacbuf := hmacbuf\<rparr>) session,
                        out, Some hmacbuf))
          else if type \<noteq> SSH_HMAC_NONE \<and> \<not> env_hmac_init env type (cry_encryptMAC crypto)
          then (session, data, None)
          else (let mac = (if type \<noteq> SSH_HMAC_NONE \<and> \<not> etm
                           then map_option (\<lambda>h. blit 0 h (cry_hmacbuf crypto))
                                  (env_hmac env type (cry_encryptMAC crypto) (be32 (ses_send_seq session) @ data))
                           else Some (cry_hmacbuf crypto))
                in case mac of
                     None \<Rightarrow> (session, data, None)
                   | Some hmacbuf \<Rightarrow>
                     (case env_encrypt env cipher (drop etm_packet_offset data) of
                        (cipher, out) \<Rightarrow>
                          let data = take etm_packet_offset data @ out;
                              session = crypto_update slot
                                (\<lambda>c. c\<lparr>cry_out_cipher := Some cipher, cry_hmacbuf := hmacbuf\<rparr>) session
                          in if type \<noteq> SSH_HMAC_NONE \<and> etm
                             then (let data = PUSH_BE_U32 data 0 (ucast (len - of_nat etm_packet_offset))
                                   in case env_hmac env type (cry_encryptMAC crypto)
                                             (be32 (ses_send_seq session) @ data) of
                                        None \<Rightarrow> (session, data, None)
                                      | Some h \<Rightarrow>
                                          let hmacbuf = blit 0 h hmacbuf in
                                          (crypto_update slot (\<lambda>c. c\<lparr>cry_hmacbuf := hmacbuf\<rparr>) session,
                                           data, Some hmacbuf))
                             else (session, data, Some hmacbuf))))"

section \<open>One packet\<close>

definition ssh_socket_write :: "packet_env \<Rightarrow> ssh_session \<Rightarrow> bytes \<Rightarrow> ssh_session \<times> int" where
  "ssh_socket_write env session data =
    (if data \<noteq> [] then
       (if env_socket_write env session data
        then (session\<lparr>ses_socket := ses_socket session @ [data]\<rparr>, SSH_OK)
        else (ssh_set_error SSH_FATAL session, SSH_ERROR))
     else (session, SSH_OK))"

text \<open>The bytes of the content of a buffer.\<close>

definition buffer_bytes :: "ssh_buffer \<Rightarrow> bytes" where
  "buffer_bytes b = take (unat (ssh_buffer_get_len b)) (drop (unat (buf_pos b)) (buf_data b))"

definition ssh_packet_write :: "packet_env \<Rightarrow> ssh_session \<Rightarrow> (ssh_session \<times> int) option" where
  "ssh_packet_write env session = (case ses_out_buffer session of
     None \<Rightarrow> None
   | Some out_buffer \<Rightarrow> Some (ssh_socket_write env session (buffer_bytes out_buffer)))"

text \<open>The number of padding bytes, an \<open>uint8_t\<close> computed from unsigned ints.\<close>

definition packet_padding :: "u32 \<Rightarrow> u32 \<Rightarrow> u32 \<Rightarrow> u32 \<Rightarrow> u8" where
  "packet_padding blocksize lenfield_blocksize etm_packet_offset currentlen =
    (let padding_size = ucast (blocksize - ((blocksize - lenfield_blocksize - etm_packet_offset +
                                 currentlen + 5) mod blocksize)) :: u8
     in if padding_size < 4 then padding_size + ucast blocksize else padding_size)"

text \<open>The five bytes in front of the payload.\<close>

definition packet_header :: "u32 \<Rightarrow> u8 \<Rightarrow> bytes" where
  "packet_header finallen padding_size =
     PUSH_BE_U8 (PUSH_BE_U32 (replicate 5 0) 0 finallen) 4 padding_size"

text \<open>The second half of \<open>packet_send2\<close>, from the header on.\<close>

definition send_framed :: "packet_env \<Rightarrow> ssh_session \<Rightarrow> crypto_slot option \<Rightarrow> ssh_hmac \<Rightarrow> u8 \<Rightarrow> u32 \<Rightarrow> u32 \<Rightarrow>
    bytes \<Rightarrow> ssh_buffer \<Rightarrow> (ssh_session \<times> int) option" where
  "send_framed env session slot hmac_type type payloadsize finallen padding out =
    (let set_out = (\<lambda>b session. session\<lparr>ses_out_buffer := Some b\<rparr>) in
     case ssh_buffer_prepend_data (env_mem env) out
            (packet_header finallen (of_nat (length padding))) 5 of (out, rc) \<Rightarrow>
     if rc < 0 then Some (set_out out session, rc)
     else case ssh_buffer_add_data (env_mem env) out (Some padding) (of_nat (length padding)) of
       (out, rc) \<Rightarrow>
     if rc < 0 then Some (set_out out session, rc)
     else case ssh_packet_encrypt env (set_out out session) (buffer_bytes out) of
       (session, data, hmac) \<Rightarrow>
     let out = out\<lparr>buf_data := blit (unat (buf_pos out)) data (buf_data out)\<rparr> in
     case (case hmac of
             None \<Rightarrow> (out, rc)
           | Some h \<Rightarrow> ssh_buffer_add_data (env_mem env) out (Some h)
                        (of_nat (hmac_digest_len hmac_type))) of (out, rc) \<Rightarrow>
     if rc < 0 then Some (set_out out session, rc)
     else case ssh_packet_write env (set_out out session) of
       None \<Rightarrow> None
     | Some (session, rc) \<Rightarrow>
     if rc = SSH_ERROR then Some (session, rc)
     else
       let session = session\<lparr>ses_send_seq := ses_send_seq session + 1\<rparr>;
           session = (case slot of
               None \<Rightarrow> session
             | Some slot \<Rightarrow> crypto_update slot (\<lambda>c. c\<lparr>cry_out_cipher := map_option (\<lambda>cipher.
                 cipher\<lparr>ciph_packets := ciph_packets cipher + 1,
                        ciph_blocks := ciph_blocks cipher + ucast (payloadsize div ciph_blocksize cipher)\<rparr>)
                 (cry_out_cipher c)\<rparr>) session)
       in case ssh_buffer_reinit (env_mem env) out of (out, rc) \<Rightarrow>
          if rc < 0 then Some (set_out out session, SSH_ERROR)
          else if type = SSH2_MSG_NEWKEYS
          then Some (ssh_packet_set_newkeys env (set_out out session) SSH_DIRECTION_OUT)
          else Some (set_out out session, rc))"

definition packet_send2 :: "packet_env \<Rightarrow> ssh_session \<Rightarrow> (ssh_session \<times> int) option" where
  "packet_send2 env session =
    (case ses_out_buffer session of None \<Rightarrow> None | Some out \<Rightarrow>
     let slot = ssh_packet_get_current_crypto session SSH_DIRECTION_OUT;
         crypto = (case slot of None \<Rightarrow> None | Some at \<Rightarrow> crypto_at at session);
         cipher = (case crypto of None \<Rightarrow> None | Some c \<Rightarrow> cry_out_cipher c);
         payloadsize = ssh_buffer_get_len out
     in case (case crypto of Some c \<Rightarrow> Some (cry_out_hmac c)
              | None \<Rightarrow> map_option cry_out_hmac (ses_next_crypto session)) of
       None \<Rightarrow> None
     | Some hmac_type \<Rightarrow>
     case ssh_buffer_get out of None \<Rightarrow> None | Some [] \<Rightarrow> None | Some (type # _) \<Rightarrow>
     let etm = (case crypto of None \<Rightarrow> False | Some c \<Rightarrow> cry_out_hmac_etm c);
         blocksize = (case cipher of None \<Rightarrow> 8 | Some c \<Rightarrow> ciph_blocksize c);
         lenfield_blocksize = (if etm then 0
           else case cipher of None \<Rightarrow> 0 | Some c \<Rightarrow> ciph_lenfield_blocksize c);
         etm_packet_offset = (if etm then 4 else 0);
         compress = (case crypto of None \<Rightarrow> False | Some c \<Rightarrow> cry_do_compress_out c) \<and> payloadsize > 0
     in case (if compress then env_compress env session out else (out, SSH_ERROR)) of (out, rc) \<Rightarrow>
     if compress \<and> rc < 0 then Some (session\<lparr>ses_out_buffer := Some out\<rparr>, rc)
     else
       let currentlen = ssh_buffer_get_len out;
           padding_size = packet_padding blocksize lenfield_blocksize etm_packet_offset currentlen
       in case (if crypto \<noteq> None then env_random env session (unat padding_size)
                else Some (replicate (unat padding_size) 0)) of
            None \<Rightarrow> Some (ssh_set_error SSH_FATAL (session\<lparr>ses_out_buffer := Some out\<rparr>), rc)
          | Some padding \<Rightarrow>
              send_framed env session slot hmac_type type payloadsize
                (currentlen - etm_packet_offset + ucast padding_size + 1) padding out)"

section \<open>Sending and queueing\<close>

definition ssh_packet_is_kex :: "u8 \<Rightarrow> bool" where
  "ssh_packet_is_kex type \<longleftrightarrow> type \<ge> SSH2_MSG_DISCONNECT \<and> type \<le> SSH2_MSG_KEX_DH_GEX_REQUEST \<and>
     type \<noteq> SSH2_MSG_SERVICE_REQUEST \<and> type \<noteq> SSH2_MSG_SERVICE_ACCEPT \<and>
     type \<noteq> SSH2_MSG_IGNORE \<and> type \<noteq> SSH2_MSG_EXT_INFO"

definition ssh_packet_in_rekey :: "ssh_session \<Rightarrow> bool" where
  "ssh_packet_in_rekey session \<longleftrightarrow>
     has_flag (ses_flags session) SSH_SESSION_FLAG_AUTHENTICATED \<and>
     ses_dh_handshake_state session \<noteq> DH_STATE_FINISHED \<and>
     ses_dh_handshake_state session \<noteq> DH_STATE_NEWKEYS_SENT"

text \<open>A list element is two pointers.\<close>

definition sizeof_ssh_iterator :: nat where "sizeof_ssh_iterator = 16"

text \<open>
  The loop that sends the queue after \<open>NEWKEYS\<close>. \<open>rekex\<close> is \<open>ssh_send_rekex\<close>, which itself
  sends a packet; the recursion is tied below. The loop takes one buffer off the queue per
  turn, so the queue itself is what it recurses on. A queued \<open>NEWKEYS\<close> does not start a second
  loop.
\<close>

fun send_queue :: "packet_env \<Rightarrow> (ssh_session \<Rightarrow> (ssh_session \<times> int) option) \<Rightarrow> ssh_buffer list \<Rightarrow>
    ssh_session \<Rightarrow> int \<Rightarrow> (ssh_session \<times> int) option" where
  "send_queue env rekex [] session rc = Some (session, rc)"
| "send_queue env rekex (next_buffer # queue) session rc =
    (if ssh_packet_need_rekey env session (ssh_buffer_get_len next_buffer) then rekex session
     else (case packet_send2 env (session\<lparr>ses_out_buffer := Some next_buffer, ses_out_queue := queue\<rparr>) of
             None \<Rightarrow> None
           | Some (session, rc) \<Rightarrow>
               if rc \<noteq> SSH_OK then Some (session, rc) else send_queue env rekex queue session rc))"

definition packet_send_with :: "packet_env \<Rightarrow> (ssh_session \<Rightarrow> (ssh_session \<times> int) option) \<Rightarrow>
    ssh_session \<Rightarrow> (ssh_session \<times> int) option" where
  "packet_send_with env rekex session =
    (case ses_out_buffer session of None \<Rightarrow> None | Some out_buffer \<Rightarrow>
     let payloadsize = ssh_buffer_get_len out_buffer in
     if payloadsize < 1 then Some (session, SSH_ERROR)
     else case ssh_buffer_get out_buffer of None \<Rightarrow> None | Some [] \<Rightarrow> None | Some (type # _) \<Rightarrow>
     let need_rekey = ssh_packet_need_rekey env session payloadsize;
         in_rekey = ssh_packet_in_rekey session
     in if need_rekey \<or> (in_rekey \<and> \<not> ssh_packet_is_kex type)
        then if env_mem env sizeof_ssh_iterator = None then Some (session, SSH_ERROR)
             else let session = session\<lparr>ses_out_queue := ses_out_queue session @ [out_buffer]\<rparr>
             in case ssh_buffer_new (env_mem env) of
                  None \<Rightarrow> Some (ssh_set_error SSH_FATAL (session\<lparr>ses_out_buffer := None\<rparr>), SSH_ERROR)
                | Some fresh \<Rightarrow>
                    let session = session\<lparr>ses_out_buffer := Some fresh\<rparr>
                    in if need_rekey then rekex session else Some (session, SSH_OK)
        else case packet_send2 env session of
          None \<Rightarrow> None
        | Some (session, rc) \<Rightarrow>
            if rc = SSH_OK \<and> type = SSH2_MSG_NEWKEYS
            then let session = (if has_flag (ses_flags session) SSH_SESSION_FLAG_KEX_STRICT
                                then session\<lparr>ses_send_seq := 0\<rparr> else session)
                 in send_queue env rekex (ses_out_queue session) session rc
            else Some (session, rc))"

text \<open>
  \<open>ssh_send_kex\<close> and \<open>ssh_send_rekex\<close>: \<open>env_set_kex\<close> chooses the methods and \<open>env_kexinit\<close> writes the
  \<open>KEXINIT\<close> payload and its hash input. The guessed first packet, which only the tests of the
  library switch on, is left out. The nested call never rekeys: its \<open>rekex\<close> is not reached.
\<close>

definition ssh_send_kex :: "packet_env \<Rightarrow> ssh_session \<Rightarrow> (ssh_session \<times> int) option" where
  "ssh_send_kex env session =
    (case env_kexinit env session of (session, rc) \<Rightarrow>
       if rc \<noteq> SSH_OK
       then (case ses_out_buffer session of
               None \<Rightarrow> Some (session, - 1)
             | Some b \<Rightarrow> Some (session\<lparr>ses_out_buffer := Some (fst (ssh_buffer_reinit (env_mem env) b))\<rparr>, - 1))
       else case packet_send_with env (\<lambda>_. None) session of
         None \<Rightarrow> None
       | Some (session, rc) \<Rightarrow>
           if rc = SSH_ERROR then Some (session, - 1)
           else Some (session\<lparr>ses_flags := ses_flags session OR SSH_SESSION_FLAG_KEXINIT_SENT\<rparr>, 0))"

definition ssh_send_rekex :: "packet_env \<Rightarrow> ssh_session \<Rightarrow> (ssh_session \<times> int) option" where
  "ssh_send_rekex env session =
    (if ses_dh_handshake_state session \<noteq> DH_STATE_FINISHED then Some (session, SSH_ERROR)
     else if ses_current_crypto session = None then Some (session, SSH_ERROR)
     else if \<not> ses_client session \<and> \<not> env_server env then Some (session, SSH_ERROR)
     else case env_set_kex env session of (session, rc) \<Rightarrow>
       if (if ses_client session then rc \<noteq> SSH_OK else rc = SSH_ERROR) then Some (session, rc)
       else case ssh_send_kex env (session\<lparr>ses_dh_handshake_state := DH_STATE_INIT\<rparr>) of
         None \<Rightarrow> None
       | Some (session, rc) \<Rightarrow>
           if rc < 0 then Some (session, rc)
           else Some (session\<lparr>ses_dh_handshake_state := DH_STATE_INIT_SENT\<rparr>, SSH_OK))"

definition ssh_packet_send :: "packet_env \<Rightarrow> ssh_session \<Rightarrow> (ssh_session \<times> int) option" where
  "ssh_packet_send env session = packet_send_with env (ssh_send_rekex env) session"

definition ssh_packet_send_newkeys :: "packet_env \<Rightarrow> ssh_session \<Rightarrow> (ssh_session \<times> int) option" where
  "ssh_packet_send_newkeys env session =
    (case ses_out_buffer session of None \<Rightarrow> None | Some out_buffer \<Rightarrow>
     case ssh_buffer_add_u8 (env_mem env) out_buffer SSH2_MSG_NEWKEYS of (out_buffer, rc) \<Rightarrow>
       let session = session\<lparr>ses_out_buffer := Some out_buffer\<rparr>
       in if rc < 0 then Some (session, rc) else ssh_packet_send env session)"

end
