(* ===== verification/Pack.thy ===== *)
theory Pack
  imports Session
begin

text \<open>
  Formatted packing: \<open>ssh_buffer_pack\<close> and \<open>ssh_buffer_unpack\<close> of \<open>buffer.c\<close>, with the big number
  strings of \<open>bignum.c\<close> they use. A variadic argument list is a list of tagged values; reading
  an argument of another type than the one passed, a string that is not terminated or a
  \<open>NULL\<close> string is undefined behaviour, and a damaged canary calls \<open>abort()\<close>: the result is
  then \<open>None\<close>. Arguments of type \<open>size_t\<close> and \<open>uint64_t\<close> are passed alike, and so are \<open>char *\<close>
  and \<open>void *\<close>.

  The arguments of \<open>unpack\<close> are pointers to variables of the caller: each carries the value
  before the call, and the list is returned with the values after it.

  Big numbers belong to the crypto library. Its functions are the fields of \<open>bignum_lib\<close>, and
  the locale \<open>bignum_library\<close> is what its documentation promises of them.
\<close>

section \<open>Big numbers\<close>

record 'bn bignum_lib =
  bignum_num_bits :: "'bn \<Rightarrow> nat"
  bignum_num_bytes :: "'bn \<Rightarrow> nat"
  bignum_is_bit_set :: "'bn \<Rightarrow> int \<Rightarrow> bool"
  bignum_bn2bin :: "'bn \<Rightarrow> bytes"
  bignum_bin2bn :: "bytes \<Rightarrow> 'bn option"

definition make_bignum_string ::
  "allocator \<Rightarrow> 'bn bignum_lib \<Rightarrow> 'bn \<Rightarrow> nat \<Rightarrow> ssh_string option" where
  "make_bignum_string mem lib num pad_to_len =
    (let len = bignum_num_bytes lib num;
         bits = bignum_num_bits lib num
     in if pad_to_len \<noteq> 0 \<and> len > pad_to_len then None
        else let pad = (if pad_to_len = 0
                        then (if bits mod 8 = 0 \<and> bignum_is_bit_set lib num (int bits - 1)
                              then 1 else 0)
                        else pad_to_len - len)
             in case ssh_string_new mem (of_nat (len + pad)) of
                  None \<Rightarrow> None
                | Some ptr \<Rightarrow>
                    let data = blit 0 (replicate pad 0) (str_data ptr)
                    in Some (ptr\<lparr>str_data := blit pad (bignum_bn2bin lib num) data\<rparr>))"

definition ssh_make_bignum_string ::
  "allocator \<Rightarrow> 'bn bignum_lib \<Rightarrow> 'bn \<Rightarrow> ssh_string option" where
  "ssh_make_bignum_string mem lib num = make_bignum_string mem lib num 0"

definition ssh_make_padded_bignum_string ::
  "allocator \<Rightarrow> 'bn bignum_lib \<Rightarrow> 'bn \<Rightarrow> nat \<Rightarrow> ssh_string option" where
  "ssh_make_padded_bignum_string mem lib num pad_len = make_bignum_string mem lib num pad_len"

definition ssh_make_string_bn :: "'bn bignum_lib \<Rightarrow> ssh_string \<Rightarrow> 'bn option" where
  "ssh_make_string_bn lib string =
    (let len = unat (ssh_string_len (Some string))
     in bignum_bin2bn lib (take len (str_data string)))"

section \<open>Packing\<close>

datatype 'bn va_arg =
    VA_int u32 | VA_long u64 | VA_pointer "bytes option" | VA_string "ssh_string option"
  | VA_bignum 'bn

type_synonym 'bn va_list = "'bn va_arg list"

definition SSH_BUFFER_PACK_END :: u32 where "SSH_BUFFER_PACK_END = 0x4f65feb3"

fun va_int :: "'bn va_list \<Rightarrow> (u32 \<times> 'bn va_list) option" where
  "va_int (VA_int w # ap) = Some (w, ap)" | "va_int _ = None"
fun va_long :: "'bn va_list \<Rightarrow> (u64 \<times> 'bn va_list) option" where
  "va_long (VA_long w # ap) = Some (w, ap)" | "va_long _ = None"
fun va_pointer :: "'bn va_list \<Rightarrow> (bytes option \<times> 'bn va_list) option" where
  "va_pointer (VA_pointer d # ap) = Some (d, ap)" | "va_pointer _ = None"
fun va_string :: "'bn va_list \<Rightarrow> (ssh_string option \<times> 'bn va_list) option" where
  "va_string (VA_string s # ap) = Some (s, ap)" | "va_string _ = None"
fun va_bignum :: "'bn va_list \<Rightarrow> ('bn \<times> 'bn va_list) option" where
  "va_bignum (VA_bignum b # ap) = Some (b, ap)" | "va_bignum _ = None"

text \<open>\<open>strlen\<close> of the string in a memory block.\<close>

definition strlen :: "bytes option \<Rightarrow> nat option" where
  "strlen s = (case s of None \<Rightarrow> None
   | Some block \<Rightarrow> if 0 \<in> set block then Some (length (takeWhile (\<lambda>c. c \<noteq> 0) block)) else None)"

text \<open>
  One turn of the loop of \<open>ssh_buffer_pack_allocate_va\<close>: the return code, the arguments left,
  by how much \<open>count\<close> is increased in the body, and the size added.
\<close>

definition pack_size_one ::
  "'bn bignum_lib \<Rightarrow> char \<Rightarrow> 'bn va_list \<Rightarrow> (int \<times> 'bn va_list \<times> nat \<times> u64) option" where
  "pack_size_one lib c ap =
    (if c = CHR ''b'' then do { (_, ap) \<leftarrow> va_int ap; Some (SSH_OK, ap, 0, 1) }
     else if c = CHR ''w'' then do { (_, ap) \<leftarrow> va_int ap; Some (SSH_OK, ap, 0, 2) }
     else if c = CHR ''d'' then do { (_, ap) \<leftarrow> va_int ap; Some (SSH_OK, ap, 0, 4) }
     else if c = CHR ''q'' then do { (_, ap) \<leftarrow> va_long ap; Some (SSH_OK, ap, 0, 8) }
     else if c = CHR ''S'' then do {
       (string, ap) \<leftarrow> va_string ap;
       Some (SSH_OK, ap, 0, 4 + ssh_string_len string) }
     else if c = CHR ''s'' then do {
       (cstring, ap) \<leftarrow> va_pointer ap;
       len \<leftarrow> strlen cstring;
       Some (SSH_OK, ap, 0, 4 + of_nat len) }
     else if c = CHR ''P'' then do {
       (len, ap) \<leftarrow> va_long ap;
       (_, ap) \<leftarrow> va_pointer ap;
       Some (SSH_OK, ap, 1, len) }
     else if c = CHR ''F'' then do {
       (b, ap) \<leftarrow> va_bignum ap;
       (len, ap) \<leftarrow> va_long ap;
       Some (SSH_OK, ap, 1, 4 + len) }
     else if c = CHR ''B'' then do {
       (b, ap) \<leftarrow> va_bignum ap;
       Some (SSH_OK, ap, 0, 4 + of_nat (bignum_num_bytes lib b) + 1) }
     else if c = CHR ''t'' then do {
       (cstring, ap) \<leftarrow> va_pointer ap;
       len \<leftarrow> strlen cstring;
       Some (SSH_OK, ap, 0, of_nat len) }
     else Some (SSH_ERROR, ap, 0, 0))"

text \<open>The loop: \<open>Inl\<close> is the early return, \<open>Inr\<close> the end of the loop, by a \<open>break\<close> if the code
  is not \<open>SSH_OK\<close>.\<close>

fun pack_size_loop :: "'bn bignum_lib \<Rightarrow> nat \<Rightarrow> string \<Rightarrow> 'bn va_list \<Rightarrow> nat \<Rightarrow> u64 \<Rightarrow>
    (int + int \<times> 'bn va_list \<times> nat \<times> u64) option" where
  "pack_size_loop lib argc [] ap count needed_size = Some (Inr (SSH_OK, ap, count, needed_size))"
| "pack_size_loop lib argc (c # p) ap count needed_size =
    (if count > argc then Some (Inl SSH_ERROR)
     else do {
       (rc, ap, more, sz) \<leftarrow> pack_size_one lib c ap;
       if rc \<noteq> SSH_OK then Some (Inr (rc, ap, count + more, needed_size + sz))
       else pack_size_loop lib argc p ap (count + more + 1) (needed_size + sz) })"

definition ssh_buffer_pack_allocate_va :: "allocator \<Rightarrow> 'bn bignum_lib \<Rightarrow> ssh_buffer \<Rightarrow> string \<Rightarrow>
    nat \<Rightarrow> 'bn va_list \<Rightarrow> (ssh_buffer \<times> int) option" where
  "ssh_buffer_pack_allocate_va mem lib buffer format argc ap = do {
     r \<leftarrow> pack_size_loop lib argc format ap 0 0;
     (case r of
        Inl rc \<Rightarrow> Some (buffer, rc)
      | Inr (rc, ap, count, needed_size) \<Rightarrow>
          if argc \<noteq> count then Some (buffer, SSH_ERROR)
          else do {
            (if rc \<noteq> SSH_ERROR then do {
               (canary, ap) \<leftarrow> va_int ap;
               (if canary \<noteq> SSH_BUFFER_PACK_END then None else Some ()) }
             else Some ());
            (case ssh_buffer_allocate_size mem buffer (ucast needed_size) of
               (buffer, rc) \<Rightarrow> Some (buffer, if rc \<noteq> 0 then SSH_ERROR else SSH_OK)) }) }"

text \<open>One turn of the loop of \<open>ssh_buffer_pack_va\<close>.\<close>

definition pack_one :: "allocator \<Rightarrow> 'bn bignum_lib \<Rightarrow> char \<Rightarrow> ssh_buffer \<Rightarrow> 'bn va_list \<Rightarrow>
    (int \<times> 'bn va_list \<times> nat \<times> ssh_buffer) option" where
  "pack_one mem lib c buffer ap =
    (if c = CHR ''b'' then do {
       (w, ap) \<leftarrow> va_int ap;
       (case ssh_buffer_add_u8 mem buffer (ucast w) of (buffer, rc) \<Rightarrow> Some (rc, ap, 0, buffer)) }
     else if c = CHR ''w'' then do {
       (w, ap) \<leftarrow> va_int ap;
       (case ssh_buffer_add_u16 mem buffer (htons (ucast w)) of
          (buffer, rc) \<Rightarrow> Some (rc, ap, 0, buffer)) }
     else if c = CHR ''d'' then do {
       (w, ap) \<leftarrow> va_int ap;
       (case ssh_buffer_add_u32 mem buffer (htonl w) of (buffer, rc) \<Rightarrow> Some (rc, ap, 0, buffer)) }
     else if c = CHR ''q'' then do {
       (w, ap) \<leftarrow> va_long ap;
       (case ssh_buffer_add_u64 mem buffer (htonll w) of (buffer, rc) \<Rightarrow> Some (rc, ap, 0, buffer)) }
     else if c = CHR ''S'' then do {
       (string, ap) \<leftarrow> va_string ap;
       (case ssh_buffer_add_ssh_string mem buffer string of
          (buffer, rc) \<Rightarrow> Some (rc, ap, 0, buffer)) }
     else if c = CHR ''s'' then do {
       (cstring, ap) \<leftarrow> va_pointer ap;
       len \<leftarrow> strlen cstring;
       (if len > 4294967295 then Some (SSH_ERROR, ap, 0, buffer)
        else case ssh_buffer_add_u32 mem buffer (htonl (of_nat len)) of
          (buffer, rc) \<Rightarrow>
            if rc = SSH_OK
            then (case ssh_buffer_add_data mem buffer cstring (of_nat len) of
                    (buffer, rc) \<Rightarrow> Some (rc, ap, 0, buffer))
            else Some (rc, ap, 0, buffer)) }
     else if c = CHR ''P'' then do {
       (len, ap) \<leftarrow> va_long ap;
       (if len > 4294967295 then Some (SSH_ERROR, ap, 0, buffer)
        else do {
          (data, ap) \<leftarrow> va_pointer ap;
          (case ssh_buffer_add_data mem buffer data (ucast len) of
             (buffer, rc) \<Rightarrow> Some (rc, ap, 1, buffer)) }) }
     else if c = CHR ''F'' \<or> c = CHR ''B'' then do {
       (b, ap) \<leftarrow> va_bignum ap;
       (string, ap, more) \<leftarrow>
         (if c = CHR ''F'' then do {
            (len, ap) \<leftarrow> va_long ap;
            Some (ssh_make_padded_bignum_string mem lib b (unat len), ap, 1) }
          else Some (ssh_make_bignum_string mem lib b, ap, 0));
       (if string = None then Some (SSH_ERROR, ap, more, buffer)
        else case ssh_buffer_add_ssh_string mem buffer string of
          (buffer, rc) \<Rightarrow> Some (rc, ap, more, buffer)) }
     else if c = CHR ''t'' then do {
       (cstring, ap) \<leftarrow> va_pointer ap;
       len \<leftarrow> strlen cstring;
       (if len > 4294967295 then Some (SSH_ERROR, ap, 0, buffer)
        else case ssh_buffer_add_data mem buffer cstring (of_nat len) of
          (buffer, rc) \<Rightarrow> Some (rc, ap, 0, buffer)) }
     else Some (SSH_ERROR, ap, 0, buffer))"

fun pack_loop :: "allocator \<Rightarrow> 'bn bignum_lib \<Rightarrow> nat \<Rightarrow> string \<Rightarrow> 'bn va_list \<Rightarrow> nat \<Rightarrow> int \<Rightarrow>
    ssh_buffer \<Rightarrow> (ssh_buffer \<times> (int + int \<times> 'bn va_list \<times> nat)) option" where
  "pack_loop mem lib argc [] ap count rc buffer = Some (buffer, Inr (rc, ap, count))"
| "pack_loop mem lib argc (c # p) ap count rc buffer =
    (if count > argc then Some (buffer, Inl SSH_ERROR)
     else do {
       (rc, ap, more, buffer) \<leftarrow> pack_one mem lib c buffer ap;
       if rc \<noteq> SSH_OK then Some (buffer, Inr (rc, ap, count + more))
       else pack_loop mem lib argc p ap (count + more + 1) rc buffer })"

definition ssh_buffer_pack_va :: "allocator \<Rightarrow> 'bn bignum_lib \<Rightarrow> ssh_buffer \<Rightarrow> string \<Rightarrow> nat \<Rightarrow>
    'bn va_list \<Rightarrow> (ssh_buffer \<times> int) option" where
  "ssh_buffer_pack_va mem lib buffer format argc ap =
    (if argc > 256 then Some (buffer, SSH_ERROR)
     else do {
       (buffer, r) \<leftarrow> pack_loop mem lib argc format ap 0 SSH_ERROR buffer;
       (case r of
          Inl rc \<Rightarrow> Some (buffer, rc)
        | Inr (rc, ap, count) \<Rightarrow>
            if argc \<noteq> count then Some (buffer, SSH_ERROR)
            else do {
              (if rc \<noteq> SSH_ERROR then do {
                 (canary, ap) \<leftarrow> va_int ap;
                 (if canary \<noteq> SSH_BUFFER_PACK_END then None else Some ()) }
               else Some ());
              Some (buffer, rc) }) })"

text \<open>The function, and the macro that counts the arguments and adds the canary.\<close>

definition ssh_buffer_pack_argc :: "allocator \<Rightarrow> 'bn bignum_lib \<Rightarrow> ssh_buffer \<Rightarrow> string \<Rightarrow> nat \<Rightarrow>
    'bn va_list \<Rightarrow> (ssh_buffer \<times> int) option" where
  "ssh_buffer_pack_argc mem lib buffer format argc ap =
    (if argc > 256 then Some (buffer, SSH_ERROR)
     else do {
       (buffer, rc) \<leftarrow> ssh_buffer_pack_allocate_va mem lib buffer format argc ap;
       if rc \<noteq> SSH_OK then Some (buffer, rc)
       else ssh_buffer_pack_va mem lib buffer format argc ap })"

definition ssh_buffer_pack :: "allocator \<Rightarrow> 'bn bignum_lib \<Rightarrow> ssh_buffer \<Rightarrow> string \<Rightarrow>
    'bn va_list \<Rightarrow> (ssh_buffer \<times> int) option" where
  "ssh_buffer_pack mem lib buffer format ap =
    ssh_buffer_pack_argc mem lib buffer format (length ap) (ap @ [VA_int SSH_BUFFER_PACK_END])"

section \<open>Unpacking\<close>

datatype 'bn out_arg =
    Out_u8 u8 | Out_u16 u16 | Out_u32 u32 | Out_u64 u64 | Out_string "ssh_string option"
  | Out_cstring "bytes option" | Out_data "bytes option" | Out_bignum "'bn option"
  | Out_size u64 | Out_canary u32

type_synonym 'bn out_list = "'bn out_arg list"

text \<open>
  One turn of the loop of \<open>ssh_buffer_unpack_va\<close>: the return code, the arguments consumed with
  their new values, the arguments left, the increase of \<open>count\<close> and the buffer. \<open>max_len\<close> is the
  length of the content when unpacking started.
\<close>

definition unpack_one :: "allocator \<Rightarrow> 'bn bignum_lib \<Rightarrow> u32 \<Rightarrow> char \<Rightarrow> ssh_buffer \<Rightarrow> 'bn out_list \<Rightarrow>
    (int \<times> 'bn out_list \<times> 'bn out_list \<times> nat \<times> ssh_buffer) option" where
  "unpack_one mem lib max_len c buffer ap =
    (if c = CHR ''b'' then (case ap of
       Out_u8 old # ap \<Rightarrow>
         (case ssh_buffer_get_u8 buffer old of (buffer, new, rlen) \<Rightarrow>
            Some (if rlen = 1 then SSH_OK else SSH_ERROR, [Out_u8 new], ap, 0, buffer))
     | _ \<Rightarrow> None)
     else if c = CHR ''w'' then (case ap of
       Out_u16 old # ap \<Rightarrow>
         (case ssh_buffer_get_data buffer 2 of (buffer, data, rlen) \<Rightarrow>
            if rlen = 2 then Some (SSH_OK, [Out_u16 (ntohs (PULL_LE_U16 data 0))], ap, 0, buffer)
            else Some (SSH_ERROR, [Out_u16 old], ap, 0, buffer))
     | _ \<Rightarrow> None)
     else if c = CHR ''d'' then (case ap of
       Out_u32 old # ap \<Rightarrow>
         (case ssh_buffer_get_u32 buffer old of (buffer, new, rlen) \<Rightarrow>
            if rlen = 4 then Some (SSH_OK, [Out_u32 (ntohl new)], ap, 0, buffer)
            else Some (SSH_ERROR, [Out_u32 new], ap, 0, buffer))
     | _ \<Rightarrow> None)
     else if c = CHR ''q'' then (case ap of
       Out_u64 old # ap \<Rightarrow>
         (case ssh_buffer_get_u64 buffer old of (buffer, new, rlen) \<Rightarrow>
            if rlen = 8 then Some (SSH_OK, [Out_u64 (ntohll new)], ap, 0, buffer)
            else Some (SSH_ERROR, [Out_u64 new], ap, 0, buffer))
     | _ \<Rightarrow> None)
     else if c = CHR ''B'' then (case ap of
       Out_bignum old # ap \<Rightarrow>
         (case ssh_buffer_get_ssh_string mem buffer of (buffer, tmp_string) \<Rightarrow>
           (case tmp_string of
              None \<Rightarrow> Some (SSH_ERROR, [Out_bignum None], ap, 0, buffer)
            | Some s \<Rightarrow> (let bn = ssh_make_string_bn lib s
                in Some (if bn \<noteq> None then SSH_OK else SSH_ERROR, [Out_bignum bn], ap, 0, buffer))))
     | _ \<Rightarrow> None)
     else if c = CHR ''S'' then (case ap of
       Out_string old # ap \<Rightarrow>
         (case ssh_buffer_get_ssh_string mem buffer of (buffer, string) \<Rightarrow>
            Some (if string \<noteq> None then SSH_OK else SSH_ERROR, [Out_string string], ap, 0, buffer))
     | _ \<Rightarrow> None)
     else if c = CHR ''s'' then (case ap of
       Out_cstring old # ap \<Rightarrow>
         (case ssh_buffer_get_u32 buffer 0 of (buffer, u32len, rlen) \<Rightarrow>
            if rlen \<noteq> 4 then Some (SSH_ERROR, [Out_cstring None], ap, 0, buffer)
            else let u32len = ntohl u32len in
              if u32len > max_len - 1 then Some (SSH_ERROR, [Out_cstring None], ap, 0, buffer)
              else if ssh_buffer_validate_length buffer (ucast u32len) \<noteq> SSH_OK
              then Some (ssh_buffer_validate_length buffer (ucast u32len), [Out_cstring None], ap, 0, buffer)
              else (case mem (unat (u32len + 1)) of
                 None \<Rightarrow> Some (SSH_ERROR, [Out_cstring None], ap, 0, buffer)
               | Some new \<Rightarrow>
                   (case ssh_buffer_get_data buffer u32len of (buffer, data, rlen) \<Rightarrow>
                      if rlen \<noteq> u32len then Some (SSH_ERROR, [Out_cstring None], ap, 0, buffer)
                      else Some (SSH_OK, [Out_cstring (Some ((blit 0 data new)[unat u32len := 0]))],
                                 ap, 0, buffer))))
     | _ \<Rightarrow> None)
     else if c = CHR ''P'' then (case ap of
       Out_size len # ap \<Rightarrow>
         (if len > ucast (max_len - 1) then Some (SSH_ERROR, [Out_size len], ap, 0, buffer)
          else if ssh_buffer_validate_length buffer len \<noteq> SSH_OK
          then Some (ssh_buffer_validate_length buffer len, [Out_size len], ap, 0, buffer)
          else (case ap of
             Out_data old # ap \<Rightarrow>
               (case mem (unat len) of
                  None \<Rightarrow> Some (SSH_ERROR, [Out_size len, Out_data None], ap, 1, buffer)
                | Some new \<Rightarrow>
                    (case ssh_buffer_get_data buffer (ucast len) of (buffer, data, rlen) \<Rightarrow>
                       if ucast rlen \<noteq> len
                       then Some (SSH_ERROR, [Out_size len, Out_data None], ap, 1, buffer)
                       else Some (SSH_OK, [Out_size len, Out_data (Some (blit 0 data new))],
                                  ap, 1, buffer)))
           | _ \<Rightarrow> None))
     | _ \<Rightarrow> None)
     else Some (SSH_ERROR, [], ap, 0, buffer))"

text \<open>
  The loop. \<open>done\<close> is the arguments consumed so far; the result has the rest of the format at
  which the loop stopped, and \<open>Inl\<close> for the jump to the clean-up past the test of \<open>count\<close>.
\<close>

fun unpack_loop :: "allocator \<Rightarrow> 'bn bignum_lib \<Rightarrow> u32 \<Rightarrow> nat \<Rightarrow> string \<Rightarrow> 'bn out_list \<Rightarrow> 'bn out_list \<Rightarrow>
    nat \<Rightarrow> int \<Rightarrow> ssh_buffer \<Rightarrow>
    (ssh_buffer \<times> string \<times> 'bn out_list \<times> 'bn out_list \<times> (int + int \<times> nat)) option" where
  "unpack_loop mem lib max_len argc [] ap past count rc buffer =
     Some (buffer, [], past, ap, Inr (rc, count))"
| "unpack_loop mem lib max_len argc (c # p) ap past count rc buffer =
    (if count > argc then Some (buffer, c # p, past, ap, Inl SSH_ERROR)
     else do {
       (rc, new, ap, more, buffer) \<leftarrow> unpack_one mem lib max_len c buffer ap;
       if rc \<noteq> SSH_OK then Some (buffer, c # p, past @ new, ap, Inr (rc, count + more))
       else unpack_loop mem lib max_len argc p ap (past @ new) (count + more + 1) rc buffer })"

text \<open>
  The clean-up after an error: integers are burnt if the buffer is secure, everything that was
  allocated is freed and its pointer cleared. It goes through the format again, up to where the
  loop stopped.
\<close>

fun unpack_rollback :: "bool \<Rightarrow> string \<Rightarrow> 'bn out_list \<Rightarrow> 'bn out_list option" where
  "unpack_rollback secure [] ap = Some ap"
| "unpack_rollback secure (c # p) ap =
    (if c = CHR ''b'' then (case ap of
       Out_u8 x # ap \<Rightarrow> map_option ((#) (Out_u8 (if secure then 0 else x))) (unpack_rollback secure p ap)
     | _ \<Rightarrow> None)
     else if c = CHR ''w'' then (case ap of
       Out_u16 x # ap \<Rightarrow> map_option ((#) (Out_u16 (if secure then 0 else x))) (unpack_rollback secure p ap)
     | _ \<Rightarrow> None)
     else if c = CHR ''d'' then (case ap of
       Out_u32 x # ap \<Rightarrow> map_option ((#) (Out_u32 (if secure then 0 else x))) (unpack_rollback secure p ap)
     | _ \<Rightarrow> None)
     else if c = CHR ''q'' then (case ap of
       Out_u64 x # ap \<Rightarrow> map_option ((#) (Out_u64 (if secure then 0 else x))) (unpack_rollback secure p ap)
     | _ \<Rightarrow> None)
     else if c = CHR ''B'' then (case ap of
       Out_bignum x # ap \<Rightarrow> map_option ((#) (Out_bignum None)) (unpack_rollback secure p ap)
     | _ \<Rightarrow> None)
     else if c = CHR ''S'' then (case ap of
       Out_string x # ap \<Rightarrow> map_option ((#) (Out_string None)) (unpack_rollback secure p ap)
     | _ \<Rightarrow> None)
     else if c = CHR ''s'' then (case ap of
       Out_cstring x # ap \<Rightarrow>
         if secure \<and> strlen x = None then None
         else map_option ((#) (Out_cstring None)) (unpack_rollback secure p ap)
     | _ \<Rightarrow> None)
     else if c = CHR ''P'' then (case ap of
       Out_size len # Out_data x # ap \<Rightarrow>
         map_option (\<lambda>r. Out_size len # Out_data None # r) (unpack_rollback secure p ap)
     | _ \<Rightarrow> None)
     else (case ap of x # ap \<Rightarrow> map_option ((#) x) (unpack_rollback secure p ap) | [] \<Rightarrow> None))"

definition ssh_buffer_unpack_va :: "allocator \<Rightarrow> 'bn bignum_lib \<Rightarrow> ssh_buffer \<Rightarrow> string \<Rightarrow> nat \<Rightarrow>
    'bn out_list \<Rightarrow> (ssh_buffer \<times> 'bn out_list \<times> int) option" where
  "ssh_buffer_unpack_va mem lib buffer format argc ap =
    (let max_len = ssh_buffer_get_len buffer in do {
     (buffer, last, past, ap, r) \<leftarrow>
       (if argc > 256 then Some (buffer, format, [], ap, Inl SSH_ERROR)
        else unpack_loop mem lib max_len argc format ap [] 0 SSH_ERROR buffer);
     rc \<leftarrow> Some (case r of Inl rc \<Rightarrow> rc | Inr (rc, count) \<Rightarrow> if argc \<noteq> count then SSH_ERROR else rc);
     (if rc \<noteq> SSH_ERROR
      then (case ap of Out_canary w # _ \<Rightarrow> if w \<noteq> SSH_BUFFER_PACK_END then None else Some ()
            | _ \<Rightarrow> None)
      else Some ());
     args \<leftarrow> (if rc \<noteq> SSH_OK
              then unpack_rollback (buf_secure buffer)
                     (take (length format - length last) format) (past @ ap)
              else Some (past @ ap));
     Some (buffer, args, rc) })"

definition ssh_buffer_unpack_argc :: "allocator \<Rightarrow> 'bn bignum_lib \<Rightarrow> ssh_buffer \<Rightarrow> string \<Rightarrow> nat \<Rightarrow>
    'bn out_list \<Rightarrow> (ssh_buffer \<times> 'bn out_list \<times> int) option" where
  "ssh_buffer_unpack_argc mem lib buffer format argc ap =
     ssh_buffer_unpack_va mem lib buffer format argc ap"

definition ssh_buffer_unpack :: "allocator \<Rightarrow> 'bn bignum_lib \<Rightarrow> ssh_buffer \<Rightarrow> string \<Rightarrow>
    'bn out_list \<Rightarrow> (ssh_buffer \<times> 'bn out_list \<times> int) option" where
  "ssh_buffer_unpack mem lib buffer format ap =
     ssh_buffer_unpack_argc mem lib buffer format (length ap)
       (ap @ [Out_canary SSH_BUFFER_PACK_END])"

section \<open>What the crypto library promises of big numbers\<close>

text \<open>\<open>value\<close> is the non-negative number a big number stands for. A big number of \<open>n\<close> bits is
  written with the least number of bytes, most significant first, and the counts fit an \<open>int\<close>.\<close>

definition be_value :: "bytes \<Rightarrow> nat" where
  "be_value bs = foldl (\<lambda>n b. 256 * n + unat b) 0 bs"

locale bignum_library =
  fixes lib :: "'bn bignum_lib" and bn_value :: "'bn \<Rightarrow> nat"
  assumes num_bits: "bn_value b < 2 ^ bignum_num_bits lib b \<and>
      (bignum_num_bits lib b > 0 \<longrightarrow> 2 ^ (bignum_num_bits lib b - 1) \<le> bn_value b)"
    and num_bytes: "bignum_num_bytes lib b = (bignum_num_bits lib b + 7) div 8"
    and is_bit_set: "bignum_is_bit_set lib b i \<longleftrightarrow> i \<ge> 0 \<and> bit (bn_value b) (nat i)"
    and bn2bin: "length (bignum_bn2bin lib b) = bignum_num_bytes lib b \<and>
      be_value (bignum_bn2bin lib b) = bn_value b"
    and bin2bn: "bignum_bin2bn lib bs = Some b \<Longrightarrow> bn_value b = be_value bs"
    and int_range: "bignum_num_bits lib b < 2 ^ 31"

end
