(* ===== verification/PacketRecv.thy ===== *)
theory PacketRecv
  imports PacketSend Pack
begin

text \<open>
  The receiving half of the packet layer: \<open>ssh_packet_socket_callback\<close> of \<open>packet.c\<close> with the
  decryption and the MAC check of \<open>packet_crypt.c\<close>, the dispatch to the handlers, and the
  handlers of \<open>NEWKEYS\<close>, \<open>DISCONNECT\<close>, \<open>IGNORE\<close> and \<open>SERVICE_ACCEPT\<close> of \<open>packet_cb.c\<close>.

  The callback is one C function with a label \<open>error\<close> and a recursive call for the data left over;
  here it is one definition per stage. A stage returns \<open>Inl\<close> with the session and the value the
  C function returns, or \<open>Inr\<close> with what the next stage needs. \<open>None\<close> is a dereference of \<open>NULL\<close>.

  The parameter \<open>recv_env\<close> adds to the environment of the sending half the deciphering
  functions of the crypto library, decompression, the check of the host key, the callback of
  the connection, and the handlers registered with the session. A big number of the crypto library
  is a pointer, a word of 64 bits.
\<close>

section \<open>The environment\<close>

text \<open>What a handler returns; \<open>SSH_PACKET_FAILED\<close> is -1, which \<open>channel_rcv_data\<close> can return.\<close>

datatype packet_used = SSH_PACKET_USED | SSH_PACKET_NOT_USED | SSH_PACKET_FAILED

type_synonym packet_handler = "ssh_session \<Rightarrow> u8 \<Rightarrow> (ssh_session \<times> packet_used) option"

record packet_callbacks =
  cbs_start :: u8
  cbs_callbacks :: "packet_handler option list"

record recv_env =
  rcv_send :: packet_env
  rcv_bignum :: "u64 bignum_lib"
  rcv_aead_decrypt_length :: "ssh_cipher \<Rightarrow> u32 \<Rightarrow> bytes \<Rightarrow> (ssh_cipher \<times> bytes) option"
  rcv_aead_decrypt :: "ssh_cipher \<Rightarrow> u32 \<Rightarrow> bytes \<Rightarrow> usize \<Rightarrow> (ssh_cipher \<times> bytes) option"
  rcv_decrypt :: "ssh_cipher \<Rightarrow> bytes \<Rightarrow> ssh_cipher \<times> bytes"
  rcv_decompress :: "ssh_session \<Rightarrow> ssh_buffer \<Rightarrow> nat \<Rightarrow> ssh_buffer \<times> int"
  rcv_verify_hostkey :: "ssh_session \<Rightarrow> ssh_session \<times> bool"
  rcv_connection_callback :: "ssh_session \<Rightarrow> ssh_session"
  rcv_socket_close :: "ssh_session \<Rightarrow> ssh_session"
  rcv_callbacks :: "packet_callbacks option list option"

abbreviation (input) rcv_mem :: "recv_env \<Rightarrow> allocator" where "rcv_mem env \<equiv> env_mem (rcv_send env)"

definition MAX_PACKET_LEN :: u32 where "MAX_PACKET_LEN = 262144"

section \<open>Decryption\<close>

text \<open>\<open>in_crypto\<close> is the context for receiving; a change of its cipher is written back to it.\<close>

definition in_crypto :: "ssh_session \<Rightarrow> ssh_crypto option" where
  "in_crypto session = (case ssh_packet_get_current_crypto session SSH_DIRECTION_IN of
     None \<Rightarrow> None | Some slot \<Rightarrow> crypto_at slot session)"

definition set_in_cipher :: "ssh_cipher \<Rightarrow> ssh_session \<Rightarrow> ssh_session" where
  "set_in_cipher cipher session = (case ssh_packet_get_current_crypto session SSH_DIRECTION_IN of
     None \<Rightarrow> session
   | Some slot \<Rightarrow> crypto_update slot (\<lambda>c. c\<lparr>cry_in_cipher := Some cipher\<rparr>) session)"

text \<open>The bytes written to the destination, or \<open>None\<close> where the C function returns an error.\<close>

definition ssh_packet_decrypt :: "recv_env \<Rightarrow> ssh_session \<Rightarrow> bytes \<Rightarrow> usize \<Rightarrow> usize \<Rightarrow>
    ssh_session \<times> bytes option" where
  "ssh_packet_decrypt env session source start encrypted_size =
    (if encrypted_size = 0 then (session, None)
     else case in_crypto session of None \<Rightarrow> (session, None)
     | Some crypto \<Rightarrow>
       let cipher = the (cry_in_cipher crypto) in
       if encrypted_size mod ucast (ciph_blocksize cipher) \<noteq> 0
       then (ssh_set_error SSH_FATAL session, None)
       else if ciph_aead cipher
       then (case rcv_aead_decrypt env cipher (ses_recv_seq session) source encrypted_size of
               None \<Rightarrow> (session, None)
             | Some (cipher, out) \<Rightarrow> (set_in_cipher cipher session, Some out))
       else (case rcv_decrypt env cipher (take (unat encrypted_size) (drop (unat start) source)) of
               (cipher, out) \<Rightarrow> (set_in_cipher cipher session, Some out)))"

definition ssh_packet_decrypt_len :: "recv_env \<Rightarrow> ssh_session \<Rightarrow> bytes \<Rightarrow> ssh_session \<times> bytes \<times> u32" where
  "ssh_packet_decrypt_len env session source = (case in_crypto session of
     Some crypto \<Rightarrow>
       let cipher = the (cry_in_cipher crypto) in
       (case (if ciph_aead cipher
              then (case rcv_aead_decrypt_length env cipher (ses_recv_seq session) source of
                      None \<Rightarrow> (session, None)
                    | Some (cipher, out) \<Rightarrow> (set_in_cipher cipher session, Some out))
              else ssh_packet_decrypt env session source 0 (ucast (ciph_blocksize cipher))) of
          (session, None) \<Rightarrow> (session, [], 0)
        | (session, Some out) \<Rightarrow> (session, out, PULL_BE_U32 out 0))
   | None \<Rightarrow> (session, take 8 source, PULL_BE_U32 (take 8 source) 0))"

definition ssh_packet_hmac_verify :: "recv_env \<Rightarrow> ssh_session \<Rightarrow> bytes \<Rightarrow> bytes \<Rightarrow> ssh_hmac \<Rightarrow> int" where
  "ssh_packet_hmac_verify env session data mac type =
    (if type = SSH_HMAC_AEAD_POLY1305 \<or> type = SSH_HMAC_AEAD_GCM then SSH_OK
     else case in_crypto session of None \<Rightarrow> SSH_ERROR
     | Some crypto \<Rightarrow>
       if \<not> env_hmac_init (rcv_send env) type (cry_decryptMAC crypto) then SSH_ERROR
       else (case env_hmac (rcv_send env) type (cry_decryptMAC crypto) (be32 (ses_recv_seq session) @ data) of
               None \<Rightarrow> SSH_ERROR
             | Some hmacbuf \<Rightarrow> if take (length hmacbuf) mac = hmacbuf then SSH_OK else SSH_ERROR))"

section \<open>Dispatch\<close>

definition ssh_packet_send_unimplemented ::
    "recv_env \<Rightarrow> ssh_session \<Rightarrow> u32 \<Rightarrow> (ssh_session \<times> int) option" where
  "ssh_packet_send_unimplemented env session seqnum =
    (case ses_out_buffer session of None \<Rightarrow> None | Some out_buffer \<Rightarrow>
     case ssh_buffer_pack (rcv_mem env) (rcv_bignum env) out_buffer ''bd''
            [VA_int (ucast SSH2_MSG_UNIMPLEMENTED), VA_int seqnum] of
       None \<Rightarrow> None
     | Some (out_buffer, rc) \<Rightarrow>
       let session = session\<lparr>ses_out_buffer := Some out_buffer\<rparr>
       in if rc \<noteq> SSH_OK then Some (ssh_set_error SSH_FATAL session, SSH_ERROR)
          else ssh_packet_send (rcv_send env) session)"

text \<open>The loop of \<open>ssh_packet_process\<close> over the registered tables; \<open>rc\<close> starts as not used.\<close>

fun run_callbacks :: "packet_callbacks option list \<Rightarrow> ssh_session \<Rightarrow> u8 \<Rightarrow> packet_used \<Rightarrow>
    (ssh_session \<times> packet_used) option" where
  "run_callbacks [] session type rc = Some (session, rc)"
| "run_callbacks (None # i) session type rc = run_callbacks i session type rc"
| "run_callbacks (Some cb # i) session type rc =
    (if cbs_start cb > type then run_callbacks i session type rc
     else if unat (cbs_start cb) + length (cbs_callbacks cb) \<le> unat type then run_callbacks i session type rc
     else case cbs_callbacks cb ! unat (type - cbs_start cb) of
       None \<Rightarrow> run_callbacks i session type rc
     | Some handler \<Rightarrow>
         (case handler session type of None \<Rightarrow> None
          | Some (session, rc) \<Rightarrow>
              if rc = SSH_PACKET_USED then Some (session, rc) else run_callbacks i session type rc))"

definition ssh_packet_process :: "recv_env \<Rightarrow> ssh_session \<Rightarrow> u8 \<Rightarrow> ssh_session option" where
  "ssh_packet_process env session type = (case rcv_callbacks env of
     None \<Rightarrow> Some session
   | Some callbacks \<Rightarrow>
     (case run_callbacks callbacks session type SSH_PACKET_NOT_USED of None \<Rightarrow> None
      | Some (session, rc) \<Rightarrow>
        if rc = SSH_PACKET_NOT_USED
        then (case ssh_packet_send_unimplemented env session (ses_recv_seq session - 1) of
                None \<Rightarrow> None
              | Some (session, _) \<Rightarrow>
                  Some (if ses_current_crypto session = None
                        then session\<lparr>ses_flags := ses_flags session OR SSH_SESSION_FLAG_KEX_TAINTED\<rparr>
                        else session))
        else Some session))"

definition ssh_packet_parse_type :: "ssh_session \<Rightarrow> ssh_session \<times> int" where
  "ssh_packet_parse_type session =
    (let session = session\<lparr>ses_in_packet := \<lparr>pkt_valid = False, pkt_len = 0, pkt_type = 0\<rparr>\<rparr> in
     case ses_in_buffer session of None \<Rightarrow> (session, SSH_ERROR)
     | Some in_buffer \<Rightarrow>
       (case ssh_buffer_get_u8 in_buffer 0 of (in_buffer, type, rc) \<Rightarrow>
          let session = session\<lparr>ses_in_buffer := Some in_buffer\<rparr>
          in if rc = 0 then (ssh_set_error SSH_FATAL session, SSH_ERROR)
             else (session\<lparr>ses_in_packet := \<lparr>pkt_valid = True, pkt_len = 0, pkt_type = type\<rparr>\<rparr>, SSH_OK)))"

section \<open>The stages of the socket callback\<close>

text \<open>What the callback takes from the context before it starts.\<close>

record recv_params =
  rp_slot :: "crypto_slot option"
  rp_macsize :: usize
  rp_lenfield :: u32
  rp_etm :: bool
  rp_hmac :: ssh_hmac

definition recv_params :: "ssh_session \<Rightarrow> recv_params" where
  "recv_params session = (case in_crypto session of
     None \<Rightarrow> \<lparr>rp_slot = None, rp_macsize = 0, rp_lenfield = 8, rp_etm = False, rp_hmac = SSH_HMAC_UNSET\<rparr>
   | Some crypto \<Rightarrow>
       let cipher = the (cry_in_cipher crypto);
           etm = cry_in_hmac_etm crypto;
           lenfield_blocksize = ciph_lenfield_blocksize cipher
       in \<lparr>rp_slot = ssh_packet_get_current_crypto session SSH_DIRECTION_IN,
           rp_macsize = of_nat (hmac_digest_len (cry_in_hmac crypto)),
           rp_lenfield = (if etm then 0 else if lenfield_blocksize = 0 then ciph_blocksize cipher
                          else lenfield_blocksize),
           rp_etm = etm, rp_hmac = cry_in_hmac crypto\<rparr>)"

abbreviation (input) rp_offset :: "recv_params \<Rightarrow> u32" where
  "rp_offset p \<equiv> rp_lenfield p + (if rp_etm p then 4 else 0)"

text \<open>The label \<open>error\<close>.\<close>

definition recv_error :: "ssh_session \<Rightarrow> usize \<Rightarrow> ssh_session \<times> usize" where
  "recv_error session processed = (session\<lparr>ses_session_state := SSH_SESSION_STATE_ERROR\<rparr>, processed)"

definition write_at :: "nat \<Rightarrow> bytes \<Rightarrow> ssh_buffer \<Rightarrow> ssh_buffer" where
  "write_at off data b = b\<lparr>buf_data := blit off data (buf_data b)\<rparr>"

text \<open>\<open>PACKET_STATE_INIT\<close>: the length of the packet.\<close>

definition recv_fresh_buffer :: "recv_env \<Rightarrow> ssh_session \<Rightarrow> ssh_buffer option \<times> bool" where
  "recv_fresh_buffer env session = (case ses_in_buffer session of
     Some b \<Rightarrow> (case ssh_buffer_reinit (rcv_mem env) b of (b, rc) \<Rightarrow> (Some b, \<not> rc < 0))
   | None \<Rightarrow> (case ssh_buffer_new (rcv_mem env) of None \<Rightarrow> (None, False) | Some b \<Rightarrow> (Some b, True)))"

definition recv_length :: "recv_env \<Rightarrow> recv_params \<Rightarrow> ssh_session \<Rightarrow> ssh_buffer \<Rightarrow> bytes \<Rightarrow>
    ssh_session + ssh_session \<times> u32" where
  "recv_length env p session in_buffer data =
    (if rp_etm p then Inr (session\<lparr>ses_in_buffer := Some in_buffer\<rparr>, PULL_BE_U32 data 0)
     else case ssh_buffer_allocate (rcv_mem env) in_buffer (rp_lenfield p) of
       (in_buffer, None) \<Rightarrow> Inl (session\<lparr>ses_in_buffer := Some in_buffer\<rparr>)
     | (in_buffer, Some ptr) \<Rightarrow>
         (case ssh_packet_decrypt_len env session data of (session, out, packet_len) \<Rightarrow>
            Inr (session\<lparr>ses_in_buffer := Some (write_at ptr out in_buffer)\<rparr>, packet_len)))"

definition recv_size :: "recv_env \<Rightarrow> recv_params \<Rightarrow> ssh_session \<Rightarrow> bytes \<Rightarrow>
    (ssh_session \<times> usize) + ssh_session" where
  "recv_size env p session data =
    (if of_nat (length data) < (ucast (rp_offset p) :: usize) then Inl (session, 0)
     else
       let session = session\<lparr>ses_in_packet := \<lparr>pkt_valid = False, pkt_len = 0, pkt_type = 0\<rparr>\<rparr>
       in case recv_fresh_buffer env session of
            (in_buffer, False) \<Rightarrow> Inl (recv_error (session\<lparr>ses_in_buffer := in_buffer\<rparr>) 0)
          | (in_buffer, True) \<Rightarrow>
         (case recv_length env p session (the in_buffer) data of
            Inl session \<Rightarrow> Inl (recv_error session 0)
          | Inr (session, packet_len) \<Rightarrow>
            let to_be_read = (if rp_etm p then ucast (packet_len - 4)
                              else ucast (packet_len - rp_lenfield p) + 4) :: usize;
                processed = ucast (rp_offset p)
            in if packet_len > MAX_PACKET_LEN
               then Inl (recv_error (ssh_set_error SSH_FATAL session) processed)
               else if sint to_be_read < 0
               then Inl (recv_error (ssh_set_error SSH_FATAL session) processed)
               else Inr (session\<lparr>ses_in_packet := \<lparr>pkt_valid = False, pkt_len = packet_len, pkt_type = 0\<rparr>,
                                 ses_packet_state := PACKET_STATE_SIZEREAD\<rparr>)))"

text \<open>\<open>PACKET_STATE_SIZEREAD\<close>: the rest of the packet, decrypted, with its MAC checked.\<close>

definition recv_cleartext :: "recv_env \<Rightarrow> recv_params \<Rightarrow> ssh_session \<Rightarrow> bytes \<Rightarrow> usize \<Rightarrow> usize \<Rightarrow> nat \<Rightarrow>
    ssh_buffer \<Rightarrow> ssh_session + ssh_session" where
  "recv_cleartext env p session data processed packet_remaining ptr in_buffer =
    (let packet_offset = ucast (rp_offset p) :: usize;
         mac = drop (unat packet_offset + unat packet_remaining) data;
         fail = (\<lambda>session. Inl (ssh_set_error SSH_FATAL session))
     in if rp_hmac p \<noteq> SSH_HMAC_NONE \<and> rp_etm p \<and>
           ssh_packet_hmac_verify env session (take (unat processed) data) mac (rp_hmac p) < 0
        then fail (session\<lparr>ses_in_buffer := Some in_buffer\<rparr>)
        else case (if packet_remaining > 0
                   then ssh_packet_decrypt env session data packet_offset (processed - packet_offset)
                   else (session, Some [])) of
          (session, None) \<Rightarrow> fail (session\<lparr>ses_in_buffer := Some in_buffer\<rparr>)
        | (session, Some cleartext) \<Rightarrow>
          let in_buffer = write_at ptr cleartext in_buffer;
              session = session\<lparr>ses_in_buffer := Some in_buffer\<rparr>
          in if rp_hmac p \<noteq> SSH_HMAC_NONE \<and> \<not> rp_etm p \<and>
                ssh_packet_hmac_verify env session (buffer_bytes in_buffer) mac (rp_hmac p) < 0
             then fail session
             else Inr session)"

definition recv_body :: "recv_env \<Rightarrow> recv_params \<Rightarrow> ssh_session \<Rightarrow> bytes \<Rightarrow>
    ((ssh_session \<times> usize) + (ssh_session \<times> usize)) option" where
  "recv_body env p session data =
    (let packet_len = pkt_len (ses_in_packet session);
         packet_offset = ucast (rp_offset p) :: usize;
         to_be_read = ucast packet_len + 4 + rp_macsize p;
         processed = (if to_be_read \<noteq> 0 then to_be_read - rp_macsize p else packet_offset);
         packet_remaining = ucast packet_len - (packet_offset - 4)
     in if to_be_read \<noteq> 0 \<and> of_nat (length data) < to_be_read then Some (Inl (session, 0))
        else case ses_in_buffer session of None \<Rightarrow> None
        | Some in_buffer \<Rightarrow>
          (case ssh_buffer_allocate (rcv_mem env) in_buffer (ucast packet_remaining) of
             (in_buffer, None) \<Rightarrow>
               Some (Inl (recv_error (session\<lparr>ses_in_buffer := Some in_buffer\<rparr>) processed))
           | (in_buffer, Some ptr) \<Rightarrow>
               if to_be_read = 0 then Some (Inr (session\<lparr>ses_in_buffer := Some in_buffer\<rparr>, processed))
               else if rp_slot p = None
               then Some (Inr (session\<lparr>ses_in_buffer := Some (write_at ptr
                      (take (unat packet_remaining) (drop (unat packet_offset) data)) in_buffer)\<rparr>, processed))
               else (case recv_cleartext env p session data processed packet_remaining ptr in_buffer of
                       Inl session \<Rightarrow> Some (Inl (recv_error session processed))
                     | Inr session \<Rightarrow> Some (Inr (session, processed + rp_macsize p)))))"

text \<open>Padding, compression and the counters.\<close>

definition recv_payload :: "recv_env \<Rightarrow> recv_params \<Rightarrow> ssh_session \<Rightarrow> ssh_session + ssh_session" where
  "recv_payload env p session = (case ses_in_buffer session of
     None \<Rightarrow> Inl session
   | Some in_buffer \<Rightarrow>
     let in_buffer = (if rp_etm p then in_buffer else fst (ssh_buffer_pass_bytes in_buffer 4));
         put = (\<lambda>b session. session\<lparr>ses_in_buffer := Some b\<rparr>)
     in case ssh_buffer_get_u8 in_buffer 0 of (in_buffer, padding, rc) \<Rightarrow>
     if rc = 0 \<or> ucast padding > ssh_buffer_get_len in_buffer
     then Inl (ssh_set_error SSH_FATAL (put in_buffer session))
     else
       let in_buffer = fst (ssh_buffer_pass_bytes_end in_buffer (ucast padding));
           compressed = (case rp_slot p of None \<Rightarrow> False | Some slot \<Rightarrow>
             (case crypto_at slot session of None \<Rightarrow> False | Some c \<Rightarrow> cry_do_compress_in c)) \<and>
             ssh_buffer_get_len in_buffer > 0
       in case (if compressed then rcv_decompress env session in_buffer (unat MAX_PACKET_LEN)
                else (in_buffer, 0)) of (in_buffer, rc) \<Rightarrow>
       if compressed \<and> rc < 0 then Inl (put in_buffer session)
       else if ses_recv_seq session = 0xffffffff \<and> rp_slot p = None
       then Inl (ssh_set_error SSH_FATAL (put in_buffer session))
       else
         let payloadsize = ssh_buffer_get_len in_buffer;
             session = put in_buffer session\<lparr>ses_recv_seq := ses_recv_seq session + 1\<rparr>
         in Inr (case rp_slot p of None \<Rightarrow> session
              | Some slot \<Rightarrow> crypto_update slot (\<lambda>c. c\<lparr>cry_in_cipher := map_option (\<lambda>cipher.
                  cipher\<lparr>ciph_packets := ciph_packets cipher + 1,
                         ciph_blocks := ciph_blocks cipher + ucast (payloadsize div ciph_blocksize cipher)\<rparr>)
                  (cry_in_cipher c)\<rparr>) session))"

text \<open>Type, strict key exchange, filter and handlers. \<open>Inl\<close> is the label \<open>error\<close>.\<close>

definition recv_taints :: "u8 \<Rightarrow> bool" where
  "recv_taints type \<longleftrightarrow> type \<noteq> SSH2_MSG_KEXINIT \<and> type \<noteq> SSH2_MSG_NEWKEYS \<and>
     (type < SSH2_MSG_KEXDH_INIT \<or> type > SSH2_MSG_KEX_DH_GEX_REQUEST)"

definition recv_typed :: "recv_params \<Rightarrow> ssh_session \<Rightarrow> ssh_session" where
  "recv_typed p session =
    (let session = fst (ssh_packet_parse_type (session\<lparr>ses_packet_state := PACKET_STATE_PROCESSING\<rparr>))
     in if rp_slot p = None \<and> recv_taints (pkt_type (ses_in_packet session))
        then session\<lparr>ses_flags := ses_flags session OR SSH_SESSION_FLAG_KEX_TAINTED\<rparr> else session)"

definition recv_dispatch :: "recv_env \<Rightarrow> recv_params \<Rightarrow> ssh_session \<Rightarrow> (ssh_session + ssh_session) option" where
  "recv_dispatch env p session =
    (let session = recv_typed p session
     in case ssh_packet_incoming_filter (env_gssapi (rcv_send env)) session of
          None \<Rightarrow> None
        | Some SSH_PACKET_ALLOWED \<Rightarrow>
            map_option Inr (ssh_packet_process env session (pkt_type (ses_in_packet session)))
        | Some SSH_PACKET_DENIED \<Rightarrow> Some (Inl (ssh_set_error SSH_FATAL session))
        | Some SSH_PACKET_UNKNOWN \<Rightarrow>
            let session = (if rp_slot p = None
                           then session\<lparr>ses_flags := ses_flags session OR SSH_SESSION_FLAG_KEX_TAINTED\<rparr>
                           else session)
            in map_option (\<lambda>(session, rc). Inr session)
                 (ssh_packet_send_unimplemented env session (ses_recv_seq session - 1)))"

text \<open>One packet: the value returned, and whether the callback goes on to the data left over.\<close>

definition recv_packet :: "recv_env \<Rightarrow> ssh_session \<Rightarrow> bytes \<Rightarrow> (ssh_session \<times> usize \<times> bool) option" where
  "recv_packet env session data =
    (let p = recv_params session;
         stop = (\<lambda>(session, rc). Some (session, rc, False))
     in if ses_session_state session = SSH_SESSION_STATE_ERROR then stop (recv_error session 0)
        else if ses_packet_state session = PACKET_STATE_PROCESSING then stop (session, 0)
        else case (if ses_packet_state session = PACKET_STATE_INIT then recv_size env p session data
                   else Inr session) of
          Inl r \<Rightarrow> stop r
        | Inr session \<Rightarrow>
        (case recv_body env p session data of
           None \<Rightarrow> None
         | Some (Inl r) \<Rightarrow> stop r
         | Some (Inr (session, processed)) \<Rightarrow>
           (case recv_payload env p session of
              Inl session \<Rightarrow> stop (recv_error session processed)
            | Inr session \<Rightarrow>
              (case recv_dispatch env p session of
                 None \<Rightarrow> None
               | Some (Inl session) \<Rightarrow> stop (recv_error session processed)
               | Some (Inr session) \<Rightarrow>
                   Some (session\<lparr>ses_packet_state := PACKET_STATE_INIT\<rparr>, processed, True)))))"

text \<open>The end of the callback, when the data left over has been processed.\<close>

definition recv_rekey :: "recv_env \<Rightarrow> ssh_session \<Rightarrow> usize \<Rightarrow> (ssh_session \<times> usize) option" where
  "recv_rekey env session processed =
    (if ssh_packet_need_rekey (rcv_send env) session 0
     then (case ssh_send_rekex (rcv_send env) session of
             None \<Rightarrow> None
           | Some (session, rc) \<Rightarrow> Some (session, if rc \<noteq> SSH_OK then of_int rc else processed))
     else Some (session, processed))"

text \<open>A packet that was taken is at least its length field long, so the recursion ends.\<close>

lemma recv_body_progress:
  assumes "recv_body env p session data = Some (Inr (session', processed))" and "unat (rp_macsize p) \<le> 64"
  shows "4 \<le> unat processed"
proof -
  let ?len = "pkt_len (ses_in_packet session)"
  have l: "unat (ucast ?len :: usize) = unat ?len" by (rule unat_ucast_up)
  have "unat (ucast ?len + 4 :: usize) = unat ?len + 4"
    using unat32_less [of ?len] by (simp add: unat_word_ariths l)
  moreover have "unat (ucast ?len + 4 + rp_macsize p) = unat ?len + 4 + unat (rp_macsize p)"
    using unat32_less [of ?len] assms(2) by (simp add: unat_word_ariths l)
  ultimately have "ucast ?len + 4 + rp_macsize p \<noteq> 0" "4 \<le> unat (ucast ?len + 4 :: usize)"
    "4 \<le> unat (ucast ?len + 4 + rp_macsize p)"
    by (auto simp: word_unat_eq_iff)
  with assms(1) show ?thesis
    by (auto simp: recv_body_def Let_def split: if_splits option.splits prod.splits sum.splits)
qed

lemma recv_params_macsize: "unat (rp_macsize (recv_params session)) \<le> 64"
proof -
  have "unat (of_nat (hmac_digest_len t) :: usize) \<le> 64" for t
    by (cases t) (simp_all add: hmac_digest_len_def)
  then show ?thesis by (auto simp: recv_params_def Let_def split: option.split)
qed

lemma recv_packet_progress:
  "recv_packet env session data = Some (session', processed, True) \<Longrightarrow> 4 \<le> unat processed"
  using recv_body_progress [OF _ recv_params_macsize]
  by (auto simp: recv_packet_def Let_def split: if_splits option.splits sum.splits prod.splits)

function ssh_packet_socket_callback :: "recv_env \<Rightarrow> ssh_session \<Rightarrow> bytes \<Rightarrow> (ssh_session \<times> usize) option" where
  "ssh_packet_socket_callback env session data =
    (case recv_packet env session data of
       None \<Rightarrow> None
     | Some (session, processed, again) \<Rightarrow>
       if \<not> again then Some (session, processed)
       else if unat processed < length data
       then (case ssh_packet_socket_callback env session (drop (unat processed) data) of
               None \<Rightarrow> None
             | Some (session, num) \<Rightarrow> recv_rekey env session (processed + num))
       else recv_rekey env session processed)"
  by pat_completeness auto
termination
  by (relation "measure (\<lambda>(env, session, data). length data)") (auto dest!: recv_packet_progress)

declare ssh_packet_socket_callback.simps [simp del]

text \<open>One turn of the loop in \<open>ssh_socket_pollcallback\<close> that hands the data of the socket to the
  callback; the flag says whether the loop goes on while the socket is connected.\<close>

definition socket_deliver :: "recv_env \<Rightarrow> ssh_session \<Rightarrow> ssh_buffer \<Rightarrow>
    (ssh_session \<times> ssh_buffer \<times> bool) option" where
  "socket_deliver env session in_buffer =
    (case ssh_packet_socket_callback env session (buffer_bytes in_buffer) of
       None \<Rightarrow> None
     | Some (session, processed) \<Rightarrow>
         Some (session, fst (ssh_buffer_pass_bytes in_buffer (ucast processed)), processed > 0))"

section \<open>Handlers\<close>

text \<open>
  \<open>ssh_packet_newkeys\<close>. \<open>rcv_verify_hostkey\<close> is the verification of the server's signature (or, in
  a GSSAPI exchange, of its MIC) under the next context.
\<close>

definition ssh_packet_newkeys :: "recv_env \<Rightarrow> packet_handler" where
  "ssh_packet_newkeys env session type =
    (let fail = (\<lambda>session. Some (session\<lparr>ses_session_state := SSH_SESSION_STATE_ERROR\<rparr>, SSH_PACKET_USED))
     in if ses_session_state session \<noteq> SSH_SESSION_STATE_DH \<or>
           ses_dh_handshake_state session \<noteq> DH_STATE_NEWKEYS_SENT
        then fail (ssh_set_error SSH_FATAL session)
        else
          let strict = has_flag (ses_flags session) SSH_SESSION_FLAG_KEX_STRICT;
              session = (if strict then session\<lparr>ses_recv_seq := 0\<rparr> else session)
          in if strict \<and> has_flag (ses_flags session) SSH_SESSION_FLAG_KEX_TAINTED
             then fail (ssh_set_error SSH_FATAL session)
             else case (if ses_server session then (session, SSH_OK)
                        else case rcv_verify_hostkey env session of
                          (session, False) \<Rightarrow> (session, SSH_ERROR)
                        | (session, True) \<Rightarrow> ssh_packet_set_newkeys (rcv_send env) session SSH_DIRECTION_IN) of
               (session, rc) \<Rightarrow>
               if rc \<noteq> SSH_OK then fail session
               else Some (rcv_connection_callback env
                      (session\<lparr>ses_dh_handshake_state := DH_STATE_FINISHED\<rparr>), SSH_PACKET_USED))"

text \<open>The message of the peer is only logged; closing the socket is a parameter.\<close>

definition ssh_packet_disconnect_callback :: "recv_env \<Rightarrow> packet_handler" where
  "ssh_packet_disconnect_callback env session type =
    (case ses_in_buffer session of None \<Rightarrow> None | Some packet \<Rightarrow>
     case ssh_buffer_get_u32 packet 0 of (packet, _, _) \<Rightarrow>
     case ssh_buffer_get_ssh_string (rcv_mem env) packet of (packet, _) \<Rightarrow>
       let session = rcv_socket_close env (ssh_set_error SSH_FATAL (session\<lparr>ses_in_buffer := Some packet\<rparr>))
       in Some (session\<lparr>ses_auth_state := SSH_AUTH_STATE_FAILED\<rparr>, SSH_PACKET_USED))"

definition ssh_packet_ignore_callback :: packet_handler where
  "ssh_packet_ignore_callback session type = Some (session, SSH_PACKET_USED)"

definition ssh_packet_service_accept :: packet_handler where
  "ssh_packet_service_accept session type =
     Some (session\<lparr>ses_auth_service_state := SSH_AUTH_SERVICE_ACCEPTED\<rparr>, SSH_PACKET_USED)"

end
