(* ===== verification/SendSpec.thy ===== *)
theory SendSpec
  imports PacketSend
begin

text \<open>
  What the sending half of the packet layer promises: the framing of RFC 4253, the switch of
  the crypto contexts, and the queue that holds packets back during a key exchange.
\<close>

section \<open>Padding\<close>

lemma unat_mod32: "unat ((a :: u32) mod b) = unat a mod unat b"
  by (simp add: unat_mod)

lemma packet_padding_bounds:
  assumes "4 \<le> unat b" and "unat b \<le> 128" and "unat lf + unat off \<le> unat b"
    and "unat n < 2147483648"
  shows "4 \<le> unat (packet_padding b lf off n)" and "unat (packet_padding b lf off n) < unat b + 4"
    and "(unat n + 5 + unat (packet_padding b lf off n)) mod unat b = (unat lf + unat off) mod unat b"
proof -
  let ?s = "unat b - unat lf - unat off + unat n + 5"
  define r where "r = ?s mod unat b"
  have r: "r < unat b" using assms(1) by (simp add: r_def)
  have s: "unat (b - lf - off + n + 5) = ?s"
  proof -
    have "unat (b - lf) = unat b - unat lf" using assms(3) by (intro unat_sub32) simp
    moreover from this have "unat (b - lf - off) = unat b - unat lf - unat off"
      using assms(3) by (subst unat_sub32) simp_all
    moreover from this have "unat (b - lf - off + n) = unat b - unat lf - unat off + unat n"
      using assms(2,4) by (subst unat_add32) simp_all
    ultimately show ?thesis using assms(2,4) by (subst unat_add32) simp_all
  qed
  have p: "unat (b - (b - lf - off + n + 5) mod b) = unat b - r"
    using r by (subst unat_sub32) (simp_all add: unat_mod32 s r_def)
  have u8: "unat (ucast w :: u8) = unat w" if "unat w < 256" for w :: u32
    using that by (simp add: unsigned_ucast_eq take_bit_nat_eq_self)
  define q where "q = (ucast (b - (b - lf - off + n + 5) mod b) :: u8)"
  have q: "unat q = unat b - r" using assms(2) p by (simp add: q_def u8)
  have pad: "unat (packet_padding b lf off n) = (if unat b - r < 4 then 2 * unat b - r else unat b - r)"
  proof -
    have b8: "unat (ucast b :: u8) = unat b" using assms(2) by (simp add: u8)
    have P: "packet_padding b lf off n = (if unat q < 4 then q + ucast b else q)"
      by (simp add: packet_padding_def q_def [symmetric] Let_def word_less_nat_alt)
    have "unat (q + ucast b) = unat b - r + unat b" if "unat b - r < 4"
      using assms(2) q that by (simp add: unat_word_ariths b8)
    then show ?thesis using r by (simp add: P q mult_2)
  qed
  show "4 \<le> unat (packet_padding b lf off n)" "unat (packet_padding b lf off n) < unat b + 4"
    using r assms(1) pad by auto
  have "(unat n + 5 + (unat b - r)) mod unat b = (unat lf + unat off) mod unat b"
  proof -
    have "unat b * (?s div unat b) + r = ?s" by (simp add: r_def)
    then have "unat n + 5 + (unat b - r) = unat lf + unat off + unat b * (?s div unat b)"
      using r assms(3) by linarith
    then show ?thesis by simp
  qed
  moreover have "(unat n + 5 + (2 * unat b - r)) mod unat b = (unat n + 5 + (unat b - r)) mod unat b"
  proof -
    have "unat n + 5 + (2 * unat b - r) = (unat n + 5 + (unat b - r)) + unat b" using r by simp
    then show ?thesis by (simp only: mod_add_self2)
  qed
  ultimately show "(unat n + 5 + unat (packet_padding b lf off n)) mod unat b = (unat lf + unat off) mod unat b"
    unfolding pad by (cases "unat b - r < 4") (simp_all only: if_True if_False simp_thms)
qed

section \<open>Direction flags\<close>

lemma flag_bits [simp]:
  "has_flag (w OR 1) 1" "has_flag (w OR 2) 2" "has_flag (w OR 1) 2 = has_flag w 2"
  "has_flag (w OR 2) 1 = has_flag w 1" "\<not> has_flag (w AND NOT 1) 1" "\<not> has_flag (w AND NOT 2) 2"
  "has_flag (w AND NOT 1) 2 = has_flag w 2" "has_flag (w AND NOT 2) 1 = has_flag w 1"
  "has_flag 3 1" "has_flag 3 2" "\<not> has_flag 0 1" "\<not> has_flag 0 2"
proof -
  have h: "has_flag w 1 = bit w 0" "has_flag w 2 = bit w 1" for w :: u32
  proof -
    have "(2 :: u32) = push_bit 1 1" by simp
    show "has_flag w 1 = bit w 0"
      using and_exp_eq_0_iff_not_bit [of w 0] by (simp add: has_flag_def)
    show "has_flag w 2 = bit w 1"
      unfolding has_flag_def
      by (metis (no_types) and_exp_eq_0_iff_not_bit power_one_right)
  qed
  show "has_flag (w OR 1) 1" "has_flag (w OR 2) 2" "has_flag (w OR 1) 2 = has_flag w 2"
    "has_flag (w OR 2) 1 = has_flag w 1" "\<not> has_flag (w AND NOT 1) 1" "\<not> has_flag (w AND NOT 2) 2"
    "has_flag (w AND NOT 1) 2 = has_flag w 2" "has_flag (w AND NOT 2) 1 = has_flag w 1"
    "has_flag 3 1" "has_flag 3 2" "\<not> has_flag 0 1" "\<not> has_flag 0 2"
    unfolding h by (simp_all add: bit_simps)
qed

section \<open>The libraries\<close>

text \<open>What the sending code relies on: lengths and parameters of the cipher functions, MACs of the
  documented length, a generator that fills its buffer.\<close>

locale packet_library = allocator "env_mem env" for env :: packet_env +
  assumes encrypt_law: "env_encrypt env cipher data = (cipher', out) \<Longrightarrow> length out = length data \<and>
      (\<exists>key. cipher' = cipher\<lparr>ciph_key := key\<rparr>)"
    and aead_encrypt_law: "env_aead_encrypt env cipher seq data = (cipher', out, tag) \<Longrightarrow>
      length out = length data \<and> length tag = 16 \<and> (\<exists>key. cipher' = cipher\<lparr>ciph_key := key\<rparr>)"
    and hmac_law: "env_hmac env type key data = Some mac \<Longrightarrow> length mac = hmac_digest_len type"
    and random_law: "env_random env session n = Some bs \<Longrightarrow> length bs = n"

text \<open>A context that can be used for sending: the block size of a cipher and of its length field,
  the array of the MAC, and no compression.\<close>

definition out_crypto_ok :: "ssh_crypto \<Rightarrow> bool" where
  "out_crypto_ok c \<longleftrightarrow> length (cry_hmacbuf c) = DIGEST_MAX_LEN \<and> \<not> cry_do_compress_out c \<and>
     (case cry_out_cipher c of None \<Rightarrow> True | Some cipher \<Rightarrow>
        4 \<le> unat (ciph_blocksize cipher) \<and> unat (ciph_blocksize cipher) \<le> 28 \<and>
        unat (ciph_lenfield_blocksize cipher) + (if cry_out_hmac_etm c then 4 else 0)
          \<le> unat (ciph_blocksize cipher) \<and>
        (cry_out_hmac_etm c \<longrightarrow> ciph_lenfield_blocksize cipher = 0) \<and>
        (ciph_aead cipher \<longrightarrow> hmac_digest_len (cry_out_hmac c) = 16))"

text \<open>The context used for sending, and what \<open>packet_send2\<close> takes from it.\<close>

definition out_crypto :: "ssh_session \<Rightarrow> ssh_crypto option" where
  "out_crypto session = (case ssh_packet_get_current_crypto session SSH_DIRECTION_OUT of
     None \<Rightarrow> None | Some slot \<Rightarrow> crypto_at slot session)"

definition out_ready :: "ssh_session \<Rightarrow> bool" where
  "out_ready session \<longleftrightarrow> (case out_crypto session of
     None \<Rightarrow> ses_next_crypto session \<noteq> None | Some c \<Rightarrow> out_crypto_ok c)"

definition out_blocksize :: "ssh_session \<Rightarrow> nat" where
  "out_blocksize session = (case out_crypto session of
     None \<Rightarrow> 8 | Some c \<Rightarrow> unat (ciph_blocksize (the (cry_out_cipher c))))"

text \<open>The bytes in front of the encrypted blocks: the length, where it is sent in the clear.\<close>

definition out_clear :: "ssh_session \<Rightarrow> nat" where
  "out_clear session = (case out_crypto session of
     None \<Rightarrow> 0 | Some c \<Rightarrow> if cry_out_hmac_etm c then 4
       else unat (ciph_lenfield_blocksize (the (cry_out_cipher c))))"

definition out_etm :: "ssh_session \<Rightarrow> nat" where
  "out_etm session = (case out_crypto session of None \<Rightarrow> 0 | Some c \<Rightarrow> if cry_out_hmac_etm c then 4 else 0)"

definition out_mac_len :: "ssh_session \<Rightarrow> nat" where
  "out_mac_len session = (case out_crypto session of None \<Rightarrow> 0 | Some c \<Rightarrow> hmac_digest_len (cry_out_hmac c))"

text \<open>The packet before encryption and the bytes written.\<close>

definition frame :: "nat \<Rightarrow> bytes \<Rightarrow> bytes \<Rightarrow> bytes" where
  "frame etm payload padding =
     be32 (of_nat (length payload) - of_nat etm + of_nat (length padding) + 1) @
     of_nat (length padding) # payload @ padding"

definition packet_wire :: "packet_env \<Rightarrow> ssh_session \<Rightarrow> bytes \<Rightarrow> bytes" where
  "packet_wire env session packet = (case ssh_packet_encrypt env session packet of
     (_, data, hmac) \<Rightarrow> data @ (case hmac of None \<Rightarrow> [] | Some h \<Rightarrow> take (out_mac_len session) h))"

text \<open>The bytes of padding \<open>packet_send2\<close> may choose.\<close>

definition padding_ok :: "ssh_session \<Rightarrow> bytes \<Rightarrow> bytes \<Rightarrow> bool" where
  "padding_ok s payload padding \<longleftrightarrow> 4 \<le> length padding \<and> length padding < out_blocksize s + 4 \<and>
     length padding < 32 \<and>
     length (frame (out_etm s) payload padding) mod out_blocksize s = out_clear s mod out_blocksize s"

lemma out_crypto_Some:
  assumes "out_crypto session = Some c"
  obtains slot cipher where "ssh_packet_get_current_crypto session 2 = Some slot"
    and "crypto_at slot session = Some c" and "cry_out_cipher c = Some cipher"
  using assms unfolding out_crypto_def ssh_packet_get_current_crypto_def
  by (auto split: option.splits if_splits)

lemma out_crypto_None: "out_crypto session = None \<longleftrightarrow> ssh_packet_get_current_crypto session 2 = None"
  unfolding out_crypto_def ssh_packet_get_current_crypto_def
  by (auto split: option.splits if_splits)

lemma encrypt_None: "out_crypto s = None \<Longrightarrow> ssh_packet_encrypt env s data = (s, data, None)"
  by (simp add: out_crypto_None ssh_packet_encrypt_def)

lemma length_frame: "length (frame etm p padding) = length p + length padding + 5"
  by (simp add: frame_def)

lemma packet_header_frame: "packet_header n q = be32 n @ [q]"
  by (simp add: packet_header_def PUSH_BE_U32_blit PUSH_BE_U8_def layout list_update_append)

text \<open>Replacing the content in place, as encryption does.\<close>

lemma overwrite:
  assumes "buffer_inv b" and "length data = length (contents b)"
  defines "b' \<equiv> b\<lparr>buf_data := blit (unat (buf_pos b)) data (buf_data b)\<rparr>"
  shows "buffer_inv b'" and "contents b' = data" and "buf_secure b' = buf_secure b"
proof -
  have le: "unat (buf_pos b) \<le> unat (buf_used b)" "unat (buf_used b) \<le> length (buf_data b)"
    using assms(1) by (auto simp: buffer_inv_def)
  have l: "length data = unat (buf_used b) - unat (buf_pos b)"
    using assms(2) length_contents [OF assms(1)] by simp
  show "buffer_inv b'" using assms(1) le l by (simp add: buffer_inv_def b'_def length_blit)
  show "contents b' = data"
    using segment_blit_at [of "unat (buf_pos b)" "buf_data b" data] le l by (simp add: contents_def b'_def)
  show "buf_secure b' = buf_secure b" by (simp add: b'_def)
qed

lemma buffer_bytes_contents: "buffer_inv b \<Longrightarrow> buffer_bytes b = contents b"
  by (elim ssh_buffer_get_contents)
    (simp add: buffer_bytes_def ssh_buffer_get_def contents_nonempty_data split: if_splits)

section \<open>What encryption leaves alone\<close>

text \<open>Two sessions that differ in the last error and in the keys and the MAC array of the
  context for sending, at most.\<close>

definition same_keys :: "ssh_cipher \<Rightarrow> ssh_cipher \<Rightarrow> bool" where
  "same_keys a b \<longleftrightarrow> (\<exists>key. b = a\<lparr>ciph_key := key\<rparr>)"

inductive crypto_step :: "ssh_session \<Rightarrow> ssh_session \<Rightarrow> bool" for s where
  crypto_step_refl: "crypto_step s s"
| crypto_step_error: "crypto_step s (ssh_set_error SSH_FATAL s)"
| crypto_step_keys: "ssh_packet_get_current_crypto s 2 = Some slot \<Longrightarrow> crypto_at slot s = Some c \<Longrightarrow>
    cry_out_cipher c = Some cipher \<Longrightarrow> length buf = length (cry_hmacbuf c) \<Longrightarrow>
    crypto_step s (crypto_update slot
      (\<lambda>c. c\<lparr>cry_out_cipher := Some (cipher\<lparr>ciph_key := key\<rparr>), cry_hmacbuf := buf\<rparr>) s)"

lemma crypto_update_simps [simp]:
  "crypto_update slot f (crypto_update slot g s) = crypto_update slot (f \<circ> g) s"
  "ses_out_buffer (crypto_update slot f s) = ses_out_buffer s"
  "ses_out_queue (crypto_update slot f s) = ses_out_queue s"
  "ses_socket (crypto_update slot f s) = ses_socket s"
  "ses_send_seq (crypto_update slot f s) = ses_send_seq s"
  "ses_recv_seq (crypto_update slot f s) = ses_recv_seq s"
  "ses_flags (crypto_update slot f s) = ses_flags s"
  "ses_dh_handshake_state (crypto_update slot f s) = ses_dh_handshake_state s"
  "ses_session_state (crypto_update slot f s) = ses_session_state s"
  "ses_error (crypto_update slot f s) = ses_error s"
  "ses_out_buffer_update h (crypto_update slot f s) = crypto_update slot f (ses_out_buffer_update h s)"
  "ses_socket_update h2 (crypto_update slot f s) = crypto_update slot f (ses_socket_update h2 s)"
  "ses_send_seq_update h3 (crypto_update slot f s) = crypto_update slot f (ses_send_seq_update h3 s)"
  "crypto_at slot (crypto_update slot f s) = map_option f (crypto_at slot s)"
  by (cases slot; simp add: crypto_update_def crypto_at_def option.map_comp)+

lemma set_error_simps [simp]:
  "ses_socket (ssh_set_error e s) = ses_socket s" "ses_send_seq (ssh_set_error e s) = ses_send_seq s"
  "ses_out_buffer (ssh_set_error e s) = ses_out_buffer s" "ses_out_queue (ssh_set_error e s) = ses_out_queue s"
  "ses_flags (ssh_set_error e s) = ses_flags s" "ses_error (ssh_set_error e s) = Some e"
  "ses_dh_handshake_state (ssh_set_error e s) = ses_dh_handshake_state s"
  by (simp_all add: ssh_set_error_def)

lemma crypto_at_simps [simp]:
  "crypto_at slot (s\<lparr>ses_out_buffer := b\<rparr>) = crypto_at slot s"
  "crypto_at slot (s\<lparr>ses_out_queue := q\<rparr>) = crypto_at slot s"
  "crypto_at slot (s\<lparr>ses_socket := w\<rparr>) = crypto_at slot s"
  "crypto_at slot (s\<lparr>ses_send_seq := n\<rparr>) = crypto_at slot s"
  "crypto_at slot (ssh_set_error e s) = crypto_at slot s"
  by (simp_all add: crypto_at_def ssh_set_error_def split: crypto_slot.split)

lemma current_crypto_simps [simp]:
  "ssh_packet_get_current_crypto (s\<lparr>ses_out_buffer := b\<rparr>) d = ssh_packet_get_current_crypto s d"
  "ssh_packet_get_current_crypto (s\<lparr>ses_out_queue := q\<rparr>) d = ssh_packet_get_current_crypto s d"
  "ssh_packet_get_current_crypto (s\<lparr>ses_socket := w\<rparr>) d = ssh_packet_get_current_crypto s d"
  "ssh_packet_get_current_crypto (s\<lparr>ses_send_seq := n\<rparr>) d = ssh_packet_get_current_crypto s d"
  "ssh_packet_get_current_crypto (ssh_set_error e s) d = ssh_packet_get_current_crypto s d"
  by (simp_all add: ssh_packet_get_current_crypto_def crypto_at_def ssh_set_error_def)

text \<open>An update that keeps the directions and the presence of the ciphers keeps the choice of the
  context.\<close>

lemma current_crypto_update:
  assumes "\<And>c. cry_used (f c) = cry_used c"
    and "\<And>c. cry_in_cipher (f c) = cry_in_cipher c"
    and "\<And>c. crypto_at slot s = Some c \<Longrightarrow> cry_out_cipher (f c) = None \<longleftrightarrow> cry_out_cipher c = None"
  shows "ssh_packet_get_current_crypto (crypto_update slot f s) d = ssh_packet_get_current_crypto s d"
  using assms(3)
  by (cases slot; cases "ses_current_crypto s"; cases "ses_next_crypto s")
    (simp_all add: ssh_packet_get_current_crypto_def crypto_update_def crypto_at_def used_for_def assms(1,2))

lemma crypto_step_slot: "crypto_step s s' \<Longrightarrow>
    ssh_packet_get_current_crypto s' d = ssh_packet_get_current_crypto s d"
  by (induction rule: crypto_step.induct) (auto intro!: current_crypto_update)

lemma encrypt_out_buffer:
  "ssh_packet_encrypt env (s\<lparr>ses_out_buffer := b\<rparr>) data = (case ssh_packet_encrypt env s data of
     (s', d, h) \<Rightarrow> (s'\<lparr>ses_out_buffer := b\<rparr>, d, h))"
  by (auto simp: ssh_packet_encrypt_def Let_def ssh_set_error_def split: option.split prod.split)

context packet_library
begin

lemma encrypt_step:
  assumes "ssh_packet_encrypt env s data = (s', data', hmac)" and "out_ready s"
  shows "crypto_step s s' \<and> length data' = length data \<and>
    (\<forall>h. hmac = Some h \<longrightarrow> out_mac_len s \<le> length h)"
proof (cases "out_crypto s")
  case None
  then show ?thesis using assms
    by (auto simp: ssh_packet_encrypt_def out_crypto_None intro: crypto_step_refl)
next
  case (Some c)
  then obtain slot cipher where sl: "ssh_packet_get_current_crypto s 2 = Some slot" "crypto_at slot s = Some c"
    "cry_out_cipher c = Some cipher" by (rule out_crypto_Some)
  have ok: "out_crypto_ok c" using assms(2) Some by (simp add: out_ready_def)
  let ?etm = "if cry_out_hmac_etm c then 4 else 0 :: nat"
  have len: "length (blit 0 h (cry_hmacbuf c)) = length (cry_hmacbuf c)" if "length h \<le> 64" for h
    using ok that by (simp add: out_crypto_ok_def DIGEST_MAX_LEN_def length_blit)
  have dl: "hmac_digest_len t \<le> 64" for t by (cases t) (simp_all add: hmac_digest_len_def)
  have ml: "out_mac_len s \<le> length (cry_hmacbuf c)"
    using ok Some dl by (simp add: out_mac_len_def out_crypto_ok_def DIGEST_MAX_LEN_def)
  note E = assms(1) [unfolded ssh_packet_encrypt_def sl option.case Let_def option.sel sl(2,3)]
  show ?thesis
  proof (cases "ciph_aead cipher")
    case True
    obtain ci out tag where a: "env_aead_encrypt env cipher (ses_send_seq s) data = (ci, out, tag)"
      by (cases "env_aead_encrypt env cipher (ses_send_seq s) data") auto
    from aead_encrypt_law [OF a] obtain key where "length out = length data" "length tag = 16"
      "ci = cipher\<lparr>ciph_key := key\<rparr>" by blast
    with E True a len [of tag] ml show ?thesis
      by (auto split: if_splits intro: crypto_step_refl crypto_step_error crypto_step_keys [OF sl])
  next
    case False
    obtain ci out where e: "env_encrypt env cipher (drop ?etm data) = (ci, out)"
      by (cases "env_encrypt env cipher (drop ?etm data)")
    from encrypt_law [OF e] obtain key where o: "length out = length (drop ?etm data)"
      "ci = cipher\<lparr>ciph_key := key\<rparr>" by blast
    have push: "length (PUSH_BE_U32 bs 0 w) = length bs" for bs :: bytes and w
      by (simp add: PUSH_BE_U32_def PUSH_BE_U16_def PUSH_BE_U8_def)
    have mac: "length (blit 0 h buf) = length (cry_hmacbuf c)"
      if "env_hmac env t k bs = Some h" and "length buf = length (cry_hmacbuf c)" for t k bs h buf
      using hmac_law [OF that(1)] dl [of t] that(2) len [of h] ok
      by (simp add: out_crypto_ok_def DIGEST_MAX_LEN_def length_blit)
    show ?thesis using E False ml o(1) unfolding e o(2) prod.case
      by (auto simp: push min_def mac comp_def split: if_splits option.splits
          intro: crypto_step_refl crypto_step_error crypto_step_keys [OF sl])
  qed
qed

end

section \<open>What a packet leaves alone\<close>

lemma out_simps [simp]:
  "out_crypto (s\<lparr>ses_out_buffer := b\<rparr>) = out_crypto s" "out_crypto (s\<lparr>ses_out_queue := q\<rparr>) = out_crypto s"
  "out_crypto (s\<lparr>ses_socket := w\<rparr>) = out_crypto s" "out_crypto (s\<lparr>ses_send_seq := n\<rparr>) = out_crypto s"
  "out_crypto (ssh_set_error e s) = out_crypto s"
  by (simp_all add: out_crypto_def split: option.split)

text \<open>The parts of a session that sending a packet does not change, apart from the buffer, the
  socket, the counters and the error.\<close>

definition same_protocol :: "ssh_session \<Rightarrow> ssh_session \<Rightarrow> bool" where
  "same_protocol s s' \<longleftrightarrow> ses_dh_handshake_state s' = ses_dh_handshake_state s \<and>
     ses_flags s' = ses_flags s \<and> ses_session_state s' = ses_session_state s \<and>
     out_ready s' = out_ready s \<and> out_blocksize s' = out_blocksize s \<and> out_clear s' = out_clear s \<and>
     out_etm s' = out_etm s \<and> out_mac_len s' = out_mac_len s \<and>
     (out_crypto s' = None \<longleftrightarrow> out_crypto s = None)"

text \<open>The result of a function that may write one packet: an error, with nothing written, or the
  packet written, counted, and the buffer empty.\<close>

definition writes :: "ssh_session \<Rightarrow> bytes \<Rightarrow> (ssh_session \<times> int) option \<Rightarrow> bool" where
  "writes s w r \<longleftrightarrow> (\<exists>s' rc. r = Some (s', rc) \<and> same_protocol s s' \<and> ses_out_queue s' = ses_out_queue s \<and>
     (rc = - 1 \<and> ses_socket s' = ses_socket s \<and> ses_send_seq s' = ses_send_seq s \<or>
      (rc = 0 \<or> rc = - 1) \<and> ses_socket s' = ses_socket s @ [w] \<and> ses_send_seq s' = ses_send_seq s + 1 \<and>
      (\<exists>b. ses_out_buffer s' = Some b \<and> buffer_inv b \<and> contents b = [])))"

lemma same_protocol_refl [simp]: "same_protocol s s"
  by (simp add: same_protocol_def)

lemma same_protocol_trans: "same_protocol a b \<Longrightarrow> same_protocol b c \<Longrightarrow> same_protocol a c"
  by (simp add: same_protocol_def)

lemma same_protocol_simps [simp]:
  "same_protocol s (s'\<lparr>ses_out_buffer := b\<rparr>) = same_protocol s s'"
  "same_protocol s (s'\<lparr>ses_out_queue := q\<rparr>) = same_protocol s s'"
  "same_protocol (s\<lparr>ses_out_queue := q\<rparr>) s' = same_protocol s s'"
  "same_protocol s (s'\<lparr>ses_socket := w\<rparr>) = same_protocol s s'"
  "same_protocol s (s'\<lparr>ses_send_seq := n\<rparr>) = same_protocol s s'"
  "same_protocol s (ssh_set_error e s') = same_protocol s s'"
  "same_protocol (s\<lparr>ses_out_buffer := b\<rparr>) s' = same_protocol s s'"
  by (simp_all add: same_protocol_def out_ready_def out_blocksize_def out_clear_def out_etm_def
      out_mac_len_def ssh_set_error_def)
    (simp_all add: out_crypto_def ssh_packet_get_current_crypto_def crypto_at_def split: crypto_slot.split option.split)

text \<open>An update of the counters, the keys and the MAC array of the context for sending.\<close>

lemma same_protocol_update:
  assumes "ssh_packet_get_current_crypto s 2 = Some slot" and "crypto_at slot s = Some c"
    and "cry_out_cipher c = Some cipher" and "length buf = length (cry_hmacbuf c)"
    and "f c = c\<lparr>cry_out_cipher := Some cipher', cry_hmacbuf := buf\<rparr>"
    and "ciph_blocksize cipher' = ciph_blocksize cipher"
    and "ciph_lenfield_blocksize cipher' = ciph_lenfield_blocksize cipher"
    and "ciph_aead cipher' = ciph_aead cipher"
    and "\<And>c. cry_used (f c) = cry_used c" and "\<And>c. cry_in_cipher (f c) = cry_in_cipher c"
  shows "same_protocol s (crypto_update slot f s)"
proof -
  have "ssh_packet_get_current_crypto (crypto_update slot f s) 2 = Some slot"
    using assms by (subst current_crypto_update) auto
  then have "out_crypto (crypto_update slot f s) = Some (f c)"
    using assms(2) by (simp add: out_crypto_def)
  moreover have "out_crypto s = Some c" using assms(1,2) by (simp add: out_crypto_def)
  ultimately show ?thesis using assms(3-8)
    by (simp add: same_protocol_def out_ready_def out_blocksize_def out_clear_def out_etm_def
        out_mac_len_def out_crypto_ok_def)
qed

lemma crypto_step_protocol: "crypto_step s s' \<Longrightarrow> same_protocol s s' \<and> ses_socket s' = ses_socket s \<and>
    ses_send_seq s' = ses_send_seq s \<and> ses_out_queue s' = ses_out_queue s"
proof (induction rule: crypto_step.induct)
  case (crypto_step_keys slot c cipher buf key)
  then show ?case
    by (intro conjI same_protocol_update [where cipher' = "cipher\<lparr>ciph_key := key\<rparr>" and buf = buf]) simp_all
qed simp_all

section \<open>Sending one packet\<close>

definition count_packet :: "crypto_slot \<Rightarrow> u32 \<Rightarrow> ssh_session \<Rightarrow> ssh_session" where
  "count_packet slot payloadsize = crypto_update slot (\<lambda>c. c\<lparr>cry_out_cipher := map_option (\<lambda>cipher.
     cipher\<lparr>ciph_packets := ciph_packets cipher + 1,
            ciph_blocks := ciph_blocks cipher + ucast (payloadsize div ciph_blocksize cipher)\<rparr>)
     (cry_out_cipher c)\<rparr>)"

lemma count_packet_protocol:
  assumes "ssh_packet_get_current_crypto s 2 = Some slot"
  shows "same_protocol s (count_packet slot n s)"
proof -
  from assms have "out_crypto s \<noteq> None" by (simp add: out_crypto_None)
  then obtain c where "out_crypto s = Some c" by auto
  then obtain sl cipher where "ssh_packet_get_current_crypto s 2 = Some sl" "crypto_at sl s = Some c"
    "cry_out_cipher c = Some cipher" by (rule out_crypto_Some)
  with assms show ?thesis unfolding count_packet_def
    by (intro same_protocol_update [of s slot c cipher "cry_hmacbuf c" _ "cipher\<lparr>ciph_packets :=
        ciph_packets cipher + 1, ciph_blocks := ciph_blocks cipher + ucast (n div ciph_blocksize cipher)\<rparr>"])
      simp_all
qed

context packet_library
begin

lemma prepend_frame:
  assumes "buffer_inv out" and "length padding < 256" and "contents out = p"
    and "f = be32 n @ of_nat (length padding) # p @ padding"
  shows "\<exists>b rc. ssh_buffer_prepend_data (env_mem env) out (packet_header n (of_nat (length padding))) 5 = (b, rc) \<and>
     (rc = - 1 \<or> rc = 0 \<and> buffer_inv b \<and> (\<exists>b' rc'. ssh_buffer_add_data (env_mem env) b (Some padding)
        (of_nat (length padding)) = (b', rc') \<and> (rc' = - 1 \<or> rc' = 0 \<and> buffer_inv b' \<and> contents b' = f)))"
proof -
  have h: "unat (5 :: u32) \<le> length (packet_header n (of_nat (length padding)))"
    by (simp add: packet_header_frame)
  from prepend_cases [OF assms(1) h] show ?thesis
  proof cases
    case 1 then show ?thesis by simp
  next
    case ok: (2 b)
    have c: "contents b = be32 n @ of_nat (length padding) # p"
      using ok(3) by (simp add: packet_header_frame assms(3))
    have l: "unat (of_nat (length padding) :: u32) = length padding"
      using assms(2) by (simp add: unat_of_nat32)
    from add_data_whole [OF ok(2) l] show ?thesis
      by (cases rule: appends_cases) (use ok(1,2) c assms(4) in auto)
  qed
qed

lemma send_framed_writes:
  assumes inv: "buffer_inv out" and pad: "length padding < 256" and ready: "out_ready s"
    and type: "type \<noteq> 21" and slot: "ssh_packet_get_current_crypto s 2 = slot"
    and ht: "out_crypto s \<noteq> None \<Longrightarrow> hmac_digest_len ht = out_mac_len s"
    and f: "f = be32 n @ of_nat (length padding) # contents out @ padding"
  shows "writes s (packet_wire env s f) (send_framed env s slot ht type payloadsize n padding out)"
proof -
  from prepend_frame [OF inv pad refl f] obtain b0 rc0 where
    b0: "ssh_buffer_prepend_data (env_mem env) out (packet_header n (of_nat (length padding))) 5 = (b0, rc0)"
    and c0: "rc0 = - 1 \<or> rc0 = 0 \<and> buffer_inv b0 \<and> (\<exists>b' rc'. ssh_buffer_add_data (env_mem env) b0 (Some padding)
        (of_nat (length padding)) = (b', rc') \<and> (rc' = - 1 \<or> rc' = 0 \<and> buffer_inv b' \<and> contents b' = f))"
    by blast
  note D = writes_def send_framed_def Let_def b0 prod.case
  show ?thesis
  proof (cases "rc0 = 0")
    case False
    with c0 show ?thesis by (simp add: D)
  next
    case True
    with c0 obtain b1 rc1 where b1: "ssh_buffer_add_data (env_mem env) b0 (Some padding)
        (of_nat (length padding)) = (b1, rc1)" and c1: "rc1 = - 1 \<or> rc1 = 0 \<and> buffer_inv b1 \<and> contents b1 = f"
      by auto
    show ?thesis
    proof (cases "rc1 = 0")
      case False
      with True b1 c1 show ?thesis by (simp add: D)
    next
      case rc1: True
      with c1 have inv1: "buffer_inv b1" "contents b1 = f" by simp_all
      obtain s2 data mac where e: "ssh_packet_encrypt env s f = (s2, data, mac)"
        by (cases "ssh_packet_encrypt env s f") auto
      from encrypt_step [OF e ready] have st: "crypto_step s s2" "length data = length f"
        "\<forall>h. mac = Some h \<longrightarrow> out_mac_len s \<le> length h" by simp_all
      let ?b2 = "b1\<lparr>buf_data := blit (unat (buf_pos b1)) data (buf_data b1)\<rparr>"
      have inv2: "buffer_inv ?b2" "contents ?b2 = data"
        using overwrite [OF inv1(1), of data] st(2) inv1(2) by simp_all
      define r3 where "r3 = (case mac of None \<Rightarrow> (?b2, 0 :: int) | Some h \<Rightarrow>
        ssh_buffer_add_data (env_mem env) ?b2 (Some h) (of_nat (hmac_digest_len ht)))"
      have r3: "snd r3 = - 1 \<or> snd r3 = 0 \<and> buffer_inv (fst r3) \<and> contents (fst r3) = packet_wire env s f"
      proof (cases mac)
        case None
        then show ?thesis using inv2 by (simp add: r3_def packet_wire_def e)
      next
        case (Some h)
        then have "out_crypto s \<noteq> None" using e encrypt_None [of s env f] by auto
        with ht st(3) Some have "hmac_digest_len ht = out_mac_len s" "out_mac_len s \<le> length h" by simp_all
        moreover have "hmac_digest_len ht < 4294967296" by (cases ht) (simp_all add: hmac_digest_len_def)
        ultimately have "appends ?b2 (take (out_mac_len s) h) r3"
          using add_data_appends [OF inv2(1), of "of_nat (hmac_digest_len ht)" h]
          by (simp add: r3_def Some unat_of_nat32)
        then show ?thesis using Some inv2(2) by (auto simp: appends_def packet_wire_def e)
      qed
      have enc: "ssh_packet_encrypt env (s\<lparr>ses_out_buffer := Some b1\<rparr>) (buffer_bytes b1) =
          (s2\<lparr>ses_out_buffer := Some b1\<rparr>, data, mac)"
        by (simp add: buffer_bytes_contents inv1 encrypt_out_buffer e)
      obtain b3 rc3 where r3': "r3 = (b3, rc3)" by (cases r3)
      have p2: "same_protocol s s2" "ses_socket s2 = ses_socket s" "ses_send_seq s2 = ses_send_seq s"
        "ses_out_queue s2 = ses_out_queue s"
        using crypto_step_protocol [OF st(1)] by simp_all
      show ?thesis
      proof (cases "rc3 = 0")
        case False
        with r3 have "rc3 = - 1" by (simp add: r3')
        with True b1 rc1 p2 show ?thesis
          by (simp add: D enc r3_def [symmetric] r3')
      next
        case rc3: True
        with r3 have inv3: "buffer_inv b3" "contents b3 = packet_wire env s f" by (simp_all add: r3')
        have "length f > 0" using f by simp
        then have ne: "buffer_bytes b3 = packet_wire env s f" "packet_wire env s f \<noteq> []"
          using inv3 st(2) by (auto simp: buffer_bytes_contents packet_wire_def e)
        show ?thesis
        proof (cases "env_socket_write env (s2\<lparr>ses_out_buffer := Some b3\<rparr>) (packet_wire env s f)")
          case False
          with True b1 rc1 rc3 p2 ne show ?thesis
            by (simp add: D enc r3_def [symmetric] r3' ssh_packet_write_def ssh_socket_write_def)
        next
          case w: True
          define s4 where "s4 = s2\<lparr>ses_out_buffer := Some b3, ses_socket := ses_socket s2 @ [packet_wire env s f],
              ses_send_seq := ses_send_seq s2 + 1\<rparr>"
          define s5 where "s5 = (case slot of None \<Rightarrow> s4 | Some sl \<Rightarrow> count_packet sl payloadsize s4)"
          have "same_protocol s s4" using p2(1) by (simp add: s4_def)
          moreover have "ssh_packet_get_current_crypto s4 2 = slot"
            using crypto_step_slot [OF st(1)] slot by (simp add: s4_def)
          ultimately have p5: "same_protocol s s5"
            using count_packet_protocol [of s4] by (auto simp: s5_def split: option.split intro: same_protocol_trans)
          have s5: "ses_socket s5 = ses_socket s @ [packet_wire env s f]" "ses_send_seq s5 = ses_send_seq s + 1"
            "ses_out_queue s5 = ses_out_queue s"
            using p2 by (auto simp: s5_def s4_def count_packet_def split: option.split)
          obtain b4 rc4 where b4: "ssh_buffer_reinit (env_mem env) b3 = (b4, rc4)"
            by (cases "ssh_buffer_reinit (env_mem env) b3")
          from reinit_cases [OF inv3(1)] b4 have b4': "rc4 = 0 \<or> rc4 = - 1" "buffer_inv b4" "contents b4 = []"
            by (cases; simp)+
          have "send_framed env s slot ht type payloadsize n padding out =
              Some (s5\<lparr>ses_out_buffer := Some b4\<rparr>, rc4)"
            using True b1 rc1 rc3 p2 ne w b4 b4'(1) type
            by (auto simp: send_framed_def Let_def b0 enc r3_def [symmetric] r3' ssh_packet_write_def
              ssh_socket_write_def s5_def s4_def count_packet_def split: option.split)
          then show ?thesis using p5 s5 b4' by (auto simp: writes_def)
        qed
      qed
    qed
  qed
qed

lemma out_params:
  assumes "out_ready s"
  shows "4 \<le> out_blocksize s" and "out_blocksize s \<le> 28" and "out_clear s \<le> out_blocksize s"
    and "out_etm s \<le> out_clear s"
  using assms
  by (auto simp: out_ready_def out_blocksize_def out_clear_def out_etm_def out_crypto_ok_def
      split: option.splits elim!: out_crypto_Some)

text \<open>The body of \<open>packet_send2\<close> in the terms of the specification.\<close>

lemma packet_send2_unfold:
  assumes "ses_out_buffer s = Some out" and "buffer_inv out" and "contents out = type # p" and "out_ready s"
  shows "\<exists>bs lf ht. unat bs = out_blocksize s \<and> unat lf + out_etm s = out_clear s \<and>
    (out_crypto s \<noteq> None \<longrightarrow> hmac_digest_len ht = out_mac_len s) \<and>
    packet_send2 env s =
     (let n = ssh_buffer_get_len out; padding_size = packet_padding bs lf (of_nat (out_etm s)) n
      in case (if out_crypto s \<noteq> None then env_random env s (unat padding_size)
               else Some (replicate (unat padding_size) 0)) of
           None \<Rightarrow> Some (ssh_set_error SSH_FATAL s, - 1)
         | Some padding \<Rightarrow> send_framed env s (ssh_packet_get_current_crypto s 2) ht type n
             (n - of_nat (out_etm s) + ucast padding_size + 1) padding out)"
proof -
  from ssh_buffer_get_contents [OF assms(2)] obtain d where d: "ssh_buffer_get out = Some d"
    "take (unat (ssh_buffer_get_len out)) d = contents out" .
  with assms(3) obtain d' where d': "d = type # d'" by (cases d) (auto simp: take_Cons split: nat.splits)
  have s: "s\<lparr>ses_out_buffer := Some out\<rparr> = s" using assms(1) by (cases s) simp
  show ?thesis
  proof (cases "out_crypto s")
    case None
    then obtain c where "ses_next_crypto s = Some c" using assms(4) by (auto simp: out_ready_def)
    note None = None this
    show ?thesis
      by (rule exI [of _ 8], rule exI [of _ 0], rule exI [of _ "cry_out_hmac c"])
        (simp add: None packet_send2_def assms(1) d(1) d' s out_crypto_None [THEN iffD1, OF None(1)] out_blocksize_def
          out_clear_def out_etm_def Let_def)
  next
    case (Some c)
    then obtain slot cipher where sl: "ssh_packet_get_current_crypto s 2 = Some slot" "crypto_at slot s = Some c"
      "cry_out_cipher c = Some cipher" by (rule out_crypto_Some)
    have ok: "out_crypto_ok c" using assms(4) Some by (simp add: out_ready_def)
    show ?thesis
      by (rule exI [of _ "ciph_blocksize cipher"],
          rule exI [of _ "if cry_out_hmac_etm c then 0 else ciph_lenfield_blocksize cipher"],
          rule exI [of _ "cry_out_hmac c"])
        (use ok in \<open>simp add: packet_send2_def assms(1) d(1) d' s sl Some out_blocksize_def out_crypto_ok_def
          out_clear_def out_etm_def out_mac_len_def Let_def cong: option.case_cong\<close>)
  qed
qed

lemma packet_send2_writes:
  assumes "ses_out_buffer s = Some out" and "buffer_inv out" and "contents out = type # p"
    and "out_ready s" and "type \<noteq> 21"
  shows "\<exists>padding. padding_ok s (type # p) padding \<and>
    writes s (packet_wire env s (frame (out_etm s) (type # p) padding)) (packet_send2 env s)"
proof -
  let ?n = "ssh_buffer_get_len out"
  from packet_send2_unfold [OF assms(1-4)] obtain bs lf ht where
    u: "unat bs = out_blocksize s" "unat lf + out_etm s = out_clear s"
      "out_crypto s \<noteq> None \<longrightarrow> hmac_digest_len ht = out_mac_len s"
    and eq: "packet_send2 env s =
     (let padding_size = packet_padding bs lf (of_nat (out_etm s)) ?n
      in case (if out_crypto s \<noteq> None then env_random env s (unat padding_size)
               else Some (replicate (unat padding_size) 0)) of
           None \<Rightarrow> Some (ssh_set_error SSH_FATAL s, - 1)
         | Some padding \<Rightarrow> send_framed env s (ssh_packet_get_current_crypto s 2) ht type ?n
             (?n - of_nat (out_etm s) + ucast padding_size + 1) padding out)"
    unfolding Let_def by metis
  define q where "q = packet_padding bs lf (of_nat (out_etm s)) ?n"
  note params = out_params [OF assms(4)]
  have e: "unat (of_nat (out_etm s) :: u32) = out_etm s" using params by (simp add: unat_of_nat32)
  have n: "unat ?n = length (type # p)" using assms(3) unat_get_len [OF assms(2)] by simp
  have "unat (buf_used out) \<le> 0x10000000" using assms(2) by (simp add: buffer_inv_def)
  then have n': "unat ?n < 2147483648"
    using length_contents [OF assms(2)] unat_get_len [OF assms(2)] by linarith
  have b: "4 \<le> unat bs" "unat bs \<le> 128" "unat lf + unat (of_nat (out_etm s) :: u32) \<le> unat bs"
    using params u(1,2) by (simp_all add: e)
  have q: "4 \<le> unat q" "unat q < unat bs + 4"
    "(unat ?n + 5 + unat q) mod unat bs = (unat lf + unat (of_nat (out_etm s) :: u32)) mod unat bs"
    unfolding q_def using packet_padding_bounds [OF b n'] by simp_all
  have ok: "padding_ok s (type # p) padding" if "length padding = unat q" for padding
    using q params that n u(1,2) e by (simp add: padding_ok_def length_frame add.commute add.left_commute)
  show ?thesis
  proof (cases "if out_crypto s \<noteq> None then env_random env s (unat q) else Some (replicate (unat q) 0)")
    case None
    then have "packet_send2 env s = Some (ssh_set_error SSH_FATAL s, - 1)"
      by (simp add: eq q_def [symmetric])
    then show ?thesis using ok [of "replicate (unat q) 0"] by (auto simp: writes_def)
  next
    case (Some padding)
    have l: "length padding = unat q" using Some random_law by (auto split: if_splits)
    have nat: "?n = of_nat (length (type # p))" "(of_nat (unat q) :: u8) = q" "(of_nat (unat q) :: u32) = ucast q"
      by (simp_all only: n [symmetric] of_nat_unat ucast_id)
    have "writes s (packet_wire env s (frame (out_etm s) (type # p) padding))
        (send_framed env s (ssh_packet_get_current_crypto s 2) ht type ?n
             (?n - of_nat (out_etm s) + ucast q + 1) padding out)"
      by (rule send_framed_writes [OF assms(2) _ assms(4,5) refl])
        (use l u(3) params q(2) u(1) nat in \<open>simp_all add: frame_def assms(3)\<close>)
    then show ?thesis using Some ok [OF l] by (auto simp: eq q_def [symmetric])
  qed
qed

end

section \<open>The queue\<close>

lemma queue_simps [simp]:
  "ssh_packet_need_rekey env s n = False" if "ses_dh_handshake_state s \<noteq> DH_STATE_FINISHED"
  using that by (simp add: ssh_packet_need_rekey_def)

lemma encrypt_queue:
  "ssh_packet_encrypt env (s\<lparr>ses_out_queue := q\<rparr>) data = (case ssh_packet_encrypt env s data of
     (s', d, h) \<Rightarrow> (s'\<lparr>ses_out_queue := q\<rparr>, d, h))"
proof -
  have "ses_out_queue_update h (crypto_update slot f s) = crypto_update slot f (ses_out_queue_update h s)"
    for h slot f s by (cases slot) (simp_all add: crypto_update_def)
  then show ?thesis
    by (auto simp: ssh_packet_encrypt_def Let_def ssh_set_error_def split: option.split prod.split)
qed

lemma out_params_simps [simp]:
  "out_ready (s\<lparr>ses_send_seq := n\<rparr>) = out_ready s"
  "out_ready (s\<lparr>ses_out_buffer := b\<rparr>) = out_ready s" "out_ready (s\<lparr>ses_out_queue := q\<rparr>) = out_ready s"
  "out_blocksize (s\<lparr>ses_out_buffer := b\<rparr>) = out_blocksize s" "out_blocksize (s\<lparr>ses_out_queue := q\<rparr>) = out_blocksize s"
  "out_clear (s\<lparr>ses_out_buffer := b\<rparr>) = out_clear s" "out_clear (s\<lparr>ses_out_queue := q\<rparr>) = out_clear s"
  "out_etm (s\<lparr>ses_out_buffer := b\<rparr>) = out_etm s" "out_etm (s\<lparr>ses_out_queue := q\<rparr>) = out_etm s"
  "out_mac_len (s\<lparr>ses_out_buffer := b\<rparr>) = out_mac_len s" "out_mac_len (s\<lparr>ses_out_queue := q\<rparr>) = out_mac_len s"
  "padding_ok (s\<lparr>ses_out_buffer := b\<rparr>) = padding_ok s" "padding_ok (s\<lparr>ses_out_queue := q\<rparr>) = padding_ok s"
  by (simp_all add: out_ready_def out_blocksize_def out_clear_def out_etm_def out_mac_len_def
      padding_ok_def fun_eq_iff split: option.split)

lemma packet_wire_simps [simp]:
  "packet_wire env (s\<lparr>ses_out_queue := q\<rparr>) f = packet_wire env s f"
  "packet_wire env (s\<lparr>ses_out_buffer := b\<rparr>) f = packet_wire env s f"
  by (simp_all add: packet_wire_def encrypt_queue encrypt_out_buffer split: prod.split option.split)

text \<open>Payloads written one after the other, each in its own packet.\<close>

inductive flushed :: "packet_env \<Rightarrow> ssh_session \<Rightarrow> bytes list \<Rightarrow> ssh_session \<Rightarrow> bool" for env s where
  flushed_none: "flushed env s [] s'" if "ses_socket s' = ses_socket s" "ses_send_seq s' = ses_send_seq s"
    "same_protocol s s'"
| flushed_one: "flushed env s ps m \<Longrightarrow> padding_ok s p padding \<Longrightarrow>
    ses_socket s' = ses_socket m @ [packet_wire env m (frame (out_etm s) p padding)] \<Longrightarrow>
    ses_send_seq s' = ses_send_seq m + 1 \<Longrightarrow> same_protocol s s' \<Longrightarrow>
    flushed env s (ps @ [p]) s'"

lemma flushed_seq: "flushed env s ps s' \<Longrightarrow> ses_send_seq s' = ses_send_seq s + of_nat (length ps) \<and>
    length (ses_socket s') = length (ses_socket s) + length ps"
  by (induction rule: flushed.induct) simp_all

text \<open>A buffer that holds a packet other than \<open>NEWKEYS\<close>.\<close>

definition packet_buffer :: "ssh_buffer \<Rightarrow> bool" where
  "packet_buffer b \<longleftrightarrow> buffer_inv b \<and> contents b \<noteq> [] \<and> hd (contents b) \<noteq> SSH2_MSG_NEWKEYS"

context packet_library
begin

lemma packet_send2_sends:
  assumes "ses_out_buffer s = Some b" and "packet_buffer b" and "out_ready s"
  shows "\<exists>padding. padding_ok s (contents b) padding \<and>
    writes s (packet_wire env s (frame (out_etm s) (contents b) padding)) (packet_send2 env s)"
  using assms packet_send2_writes [of s b "hd (contents b)" "tl (contents b)"]
  by (simp add: packet_buffer_def)

lemma send_queue_flushes:
  assumes "flushed env s0 ps s" and "out_ready s0" and "ses_dh_handshake_state s0 \<noteq> DH_STATE_FINISHED"
    and "\<forall>b \<in> set q. packet_buffer b" and "ses_out_queue s = q"
  shows "\<exists>s' rc. send_queue env rekex q s 0 = Some (s', rc) \<and>
    (rc = 0 \<and> flushed env s0 (ps @ map contents q) s' \<and> ses_out_queue s' = [] \<or>
     rc = - 1 \<and> (\<exists>k < length q. ses_out_queue s' = drop (Suc k) q))"
  using assms
proof (induction q arbitrary: s ps)
  case Nil
  then show ?case by simp
next
  case (Cons b q)
  let ?s = "s\<lparr>ses_out_buffer := Some b, ses_out_queue := q\<rparr>"
  have sp: "same_protocol s0 s" using Cons.prems(1) by cases simp_all
  then have st: "out_ready s" "ses_dh_handshake_state s \<noteq> DH_STATE_FINISHED" "out_etm s = out_etm s0"
    "padding_ok s = padding_ok s0"
    using Cons.prems(2,3) by (simp_all add: same_protocol_def padding_ok_def fun_eq_iff)
  obtain padding where pad: "padding_ok s (contents b) padding"
    and w: "writes ?s (packet_wire env ?s (frame (out_etm s) (contents b) padding)) (packet_send2 env ?s)"
    using packet_send2_sends [of ?s b] Cons.prems(4) st(1) by auto
  from w obtain s' rc where s': "packet_send2 env ?s = Some (s', rc)" "same_protocol s s'" "ses_out_queue s' = q"
    "rc = 0 \<or> rc = - 1" "rc = 0 \<Longrightarrow> ses_socket s' = ses_socket s @ [packet_wire env s (frame (out_etm s0) (contents b) padding)] \<and>
        ses_send_seq s' = ses_send_seq s + 1"
    by (auto simp: writes_def st(3))
  show ?case
  proof (cases "rc = 0")
    case False
    with s' st(2) show ?thesis by auto
  next
    case True
    have "flushed env s0 (ps @ [contents b]) s'"
      using flushed_one [OF Cons.prems(1), of "contents b" padding s'] s'(5) [OF True] pad st(4)
        same_protocol_trans [OF sp s'(2)] by simp
    from Cons.IH [OF this Cons.prems(2,3) _ s'(3)] Cons.prems(4)
    show ?thesis using s'(1) st(2) True by (fastforce intro: exI [of _ "Suc _"])
  qed
qed

end

end
