(* ===== verification/RecvSpec.thy ===== *)
theory RecvSpec
  imports PacketRecv SendSpec
begin

text \<open>
  The stages of the receiving half in terms of the bytes they see: allocation succeeds while
  there is memory, what is written at the place returned is appended to the content, a stage
  that goes on has a whole packet, and a frame in the clear is taken apart into its payload.
\<close>

section \<open>Allocation\<close>

lemma realloc_live:
  assumes "\<forall>n \<le> 0x10000000. mem n \<noteq> None" and "unat needed < 0x10000000"
  shows "snd (realloc_buffer mem b needed) = 0"
proof (cases "smallest_power 1 needed")
  case None
  with assms(2) show ?thesis by (simp add: smallest_power_None)
next
  case (Some m)
  then obtain k where k: "k < 32" "unat m = 2 ^ k" "unat needed < 2 ^ k" "\<forall>j < k. 2 ^ j \<le> unat needed"
    using smallest_power_Some by blast
  then have "unat m \<le> 0x10000000" using two_power_bounds [OF k(1,3,4)] assms(2) by simp
  with assms(1) show ?thesis
    by (auto simp: realloc_buffer_def Some Let_def BUFFER_SIZE_MAX_def word_less_nat_alt split: option.split)
qed

lemma allocate_live:
  assumes "\<forall>n \<le> 0x10000000. mem n \<noteq> None" and "buffer_inv b"
    and "length (contents b) + unat len < 0x10000000"
  shows "snd (ssh_buffer_allocate mem b len) \<noteq> None"
proof -
  let ?s = "if buf_pos b > 0 then buffer_shift b else b"
  have inv: "buffer_inv ?s" "contents ?s = contents b" "buf_pos ?s = 0"
    using assms(2) buffer_shift_spec [OF assms(2)] by (auto simp: word_gt_0)
  then have "unat (buf_used ?s) = length (contents b)"
    using length_contents [OF inv(1)] by simp
  then have "unat (buf_used ?s + len) < 0x10000000" using assms(3) by (subst unat_add32) linarith+
  from realloc_live [OF assms(1) this, of ?s] have "snd (make_room mem b len) = 0"
    by (simp add: make_room_def Let_def)
  moreover have "\<not> buf_used b + len < len"
    using assms(2,3) by (auto simp: add_overflow32 buffer_inv_def)
  ultimately show ?thesis by (auto simp: ssh_buffer_allocate_def split: prod.split)
qed

lemma add_data_live:
  assumes "\<forall>n \<le> 0x10000000. mem n \<noteq> None" and "buffer_inv b"
    and "length (contents b) + unat len < 0x10000000"
  shows "snd (ssh_buffer_add_data mem b (Some d) len) = 0"
proof -
  let ?s = "if buf_pos b > 0 then buffer_shift b else b"
  have inv: "buffer_inv ?s" "contents ?s = contents b" "buf_pos ?s = 0"
    using assms(2) buffer_shift_spec [OF assms(2)] by (auto simp: word_gt_0)
  then have u: "unat (buf_used ?s) = length (contents b)"
    using length_contents [OF inv(1)] by simp
  have used: "unat (buf_used b) \<le> 268435456" using assms(2) by (auto simp: buffer_inv_def)
  then have "unat (buf_used b + len) = unat (buf_used b) + unat len" using assms(3) by (simp add: unat_add32)
  then have fits: "\<not> buf_used b + len < len" by (simp add: word_less_nat_alt)
  have "unat (buf_used ?s + len) < 0x10000000" using u assms(3) by (simp add: unat_add32)
  from realloc_live [OF assms(1) this, of ?s] have "snd (realloc_buffer mem ?s (buf_used ?s + len)) = 0" .
  then have "snd (make_room mem b len) = 0"
    by (auto simp: make_room_def Let_def split: if_splits)
  with fits show ?thesis by (auto simp: ssh_buffer_add_data_def split: prod.split)
qed

lemma new_live:
  assumes "\<forall>n. mem n \<noteq> None"
  shows "ssh_buffer_new mem \<noteq> None"
proof -
  have "snd (realloc_buffer mem b 63) = 0" for b using realloc_live [of mem 63 b] assms by simp
  then show ?thesis
    by (auto simp: ssh_buffer_new_def ssh_buffer_allocate_size_def split: prod.split) (metis less_irrefl snd_conv)
qed

lemma fresh_live:
  assumes "\<forall>n \<le> 0x10000000. rcv_mem env n \<noteq> None"
  shows "snd (recv_fresh_buffer env s)"
proof -
  have r: "snd (realloc_buffer (rcv_mem env) b needed) = 0" if "needed = 63 \<or> needed = 65535" for b needed
    using realloc_live [OF assms, of needed b] that by auto
  show ?thesis
    using r [of 63] r [of 65535]
    by (auto simp: recv_fresh_buffer_def ssh_buffer_new_def ssh_buffer_allocate_size_def ssh_buffer_reinit_def
        Let_def prod_eq_iff split: option.split prod.split if_splits)
qed

context allocator
begin

lemma allocate_write:
  assumes "buffer_inv b" and "ssh_buffer_allocate mem b len = (b', Some ptr)" and "length bs = unat len"
  shows "buffer_inv (write_at ptr bs b')" and "contents (write_at ptr bs b') = contents b @ bs"
    and "unat (buf_used b') = unat (buf_pos b') + length (contents b) + unat len"
proof -
  have *: "buffer_inv b' \<and> ptr = unat (buf_pos b') + length (contents b) \<and> unat (buf_used b') = ptr + unat len \<and>
      segment (unat (buf_pos b')) ptr (buf_data b') = contents b"
    using allocate_cases [OF assms(1), of len] assms(2) by cases simp_all
  then have le: "ptr + length bs \<le> length (buf_data b')" using assms(3) by (auto simp: buffer_inv_def)
  with * show "buffer_inv (write_at ptr bs b')" by (simp add: buffer_inv_def write_at_def length_blit)
  have "contents (write_at ptr bs b') =
      segment (unat (buf_pos b')) (ptr + length bs) (blit ptr bs (buf_data b'))"
    using * assms(3) by (simp add: contents_def write_at_def)
  also have "\<dots> = segment (unat (buf_pos b')) ptr (buf_data b') @ bs"
    using * le by (intro segment_blit_after) simp_all
  also have "\<dots> = contents b @ bs" using * by blast
  finally show "contents (write_at ptr bs b') = contents b @ bs" .
  show "unat (buf_used b') = unat (buf_pos b') + length (contents b) + unat len" using * by simp
qed

lemma fresh_buffer:
  assumes "recv_fresh_buffer env s = (b, True)" and "rcv_mem env = mem"
    and "case ses_in_buffer s of None \<Rightarrow> True | Some b \<Rightarrow> buffer_inv b"
  shows "\<exists>b'. b = Some b' \<and> buffer_inv b' \<and> contents b' = []"
proof (cases "ses_in_buffer s")
  case None
  then show ?thesis using assms(1) new_fresh
    by (cases "ssh_buffer_new mem") (auto simp: recv_fresh_buffer_def assms(2))
next
  case (Some b0)
  then have "buffer_inv b0" using assms(3) by simp
  from reinit_cases [OF this] show ?thesis
    by cases (use Some assms(1) in \<open>auto simp: recv_fresh_buffer_def assms(2)\<close>)
qed

end

section \<open>What a stage that goes on has established\<close>

lemma recv_body_lengths:
  fixes n :: u32 and m :: usize
  assumes "unat m \<le> 64"
  shows "unat (ucast n + 4 + m) = unat n + 4 + unat m" and "unat (ucast n + 4 + m - m) = unat n + 4"
    and "ucast n + 4 + m \<noteq> 0"
proof -
  have l: "unat (ucast n :: usize) = unat n" by (rule unat_ucast_up)
  show u: "unat (ucast n + 4 + m) = unat n + 4 + unat m"
    using unat32_less [of n] assms by (simp add: unat_word_ariths l)
  show "unat (ucast n + 4 + m - m) = unat n + 4"
    using unat32_less [of n] by (simp add: unat_word_ariths l)
  show "ucast n + 4 + m \<noteq> 0" using u by (auto simp: word_unat_eq_iff)
qed

lemma recv_body_accepts_lemma:
  assumes "recv_body env p s data = Some (Inr (s', n))" and "unat (rp_macsize p) \<le> 64"
    and "length data < 18446744073709551616" and "rp_slot p = None \<longrightarrow> rp_macsize p = 0"
  shows "unat n = unat (pkt_len (ses_in_packet s)) + 4 + unat (rp_macsize p) \<and> unat n \<le> length data"
proof -
  let ?l = "pkt_len (ses_in_packet s)"
  note L = recv_body_lengths [OF assms(2), of ?l]
  have len: "\<not> of_nat (length data) < ucast ?l + 4 + rp_macsize p"
    using assms(1) L(3) by (auto simp: recv_body_def Let_def split: if_splits)
  then have le: "unat ?l + 4 + unat (rp_macsize p) \<le> length data"
    using assms(3) L(1) by (simp add: word_less_nat_alt unat_of_nat64)
  have "n = ucast ?l + 4 + rp_macsize p"
    using assms(1,4) L(3) by (auto simp: recv_body_def Let_def split: if_splits option.splits prod.splits sum.splits)
  with L le show ?thesis by simp
qed

section \<open>A frame in the clear\<close>

lemma in_crypto_cong:
  assumes "ses_current_crypto a = ses_current_crypto b" and "ses_next_crypto a = ses_next_crypto b"
  shows "in_crypto a = in_crypto b"
  unfolding in_crypto_def ssh_packet_get_current_crypto_def crypto_at_def assms ..

lemma sint_small:
  assumes "unat (w :: usize) < 2 ^ 63"
  shows "0 \<le> sint w"
proof -
  have "uint w < 2 ^ 63" using assms by (simp only: uint_nat of_nat_less_iff [symmetric, where 'a = int]) simp
  moreover have "0 \<le> uint w" by simp
  ultimately have "signed_take_bit 63 (uint w) = uint w"
    by (intro signed_take_bit_int_eq_self) linarith+
  then show ?thesis by (simp add: sint_uint)
qed

lemma PULL_be32: "PULL_BE_U32 (be32 w @ rest) 0 = w"
  by (rule PULL_BE_0)

context allocator
begin

text \<open>The stages, one after the other, on the bytes of one frame before any key is in use.\<close>

lemma recv_size_plain:
  assumes mem: "rcv_mem env = mem" and live: "\<forall>n \<le> 0x10000000. mem n \<noteq> None"
    and none: "in_crypto s = None" and b: "case ses_in_buffer s of None \<Rightarrow> True | Some b \<Rightarrow> buffer_inv b"
    and data: "take 4 data = be32 n" "8 \<le> length data" "length data < 18446744073709551616"
    and n: "n \<le> MAX_PACKET_LEN"
  shows "\<exists>b'. buffer_inv b' \<and> contents b' = take 8 data \<and>
    recv_size env (recv_params s) s data = Inr (s\<lparr>ses_in_buffer := Some b',
      ses_in_packet := \<lparr>pkt_valid = False, pkt_len = n, pkt_type = 0\<rparr>, ses_packet_state := PACKET_STATE_SIZEREAD\<rparr>)"
proof -
  let ?s = "s\<lparr>ses_in_packet := \<lparr>pkt_valid = False, pkt_len = 0, pkt_type = 0\<rparr>\<rparr>"
  have p: "recv_params s = \<lparr>rp_slot = None, rp_macsize = 0, rp_lenfield = 8, rp_etm = False, rp_hmac = SSH_HMAC_UNSET\<rparr>"
    by (simp add: recv_params_def none)
  obtain bo where bo: "recv_fresh_buffer env ?s = (bo, True)"
    using fresh_live [of env ?s] live mem by (metis prod.collapse)
  from fresh_buffer [OF bo mem] b obtain b0 where b0: "bo = Some b0" "buffer_inv b0" "contents b0 = []" by auto
  obtain b1 ptr where b1: "ssh_buffer_allocate mem b0 8 = (b1, Some ptr)"
    using allocate_live [OF live b0(2), of 8] b0(3) by (cases "ssh_buffer_allocate mem b0 8") auto
  have w: "length (take 8 data) = unat (8 :: u32)" using data(2) by simp
  note wr = allocate_write [OF b0(2) b1 w]
  have len: "ssh_packet_decrypt_len env s' data = (s', take 8 data, n)" if "in_crypto s' = None" for s'
  proof -
    have "take 8 data = be32 n @ drop 4 (take 8 data)"
      using append_take_drop_id [of 4 "take 8 data"] data(1) by simp
    then have "PULL_BE_U32 (take 8 data) 0 = n" by (metis PULL_be32)
    with that show ?thesis by (simp add: ssh_packet_decrypt_len_def)
  qed
  have "unat (ucast (n - 8) + 4 :: usize) < 2 ^ 63"
    using unat32_less [of "n - 8"] by (simp add: unat_word_ariths unat_ucast_up)
  from sint_small [OF this] have "\<not> sint (ucast (n - 8) + 4 :: usize) < 0" by simp
  moreover have "\<not> MAX_PACKET_LEN < n" using n by simp
  moreover have "ssh_packet_decrypt_len env ?s data = (?s, take 8 data, n)"
    by (rule len, rule trans [OF in_crypto_cong none]) simp_all
  ultimately show ?thesis
    using data(2,3) wr(1,2) b0(3)
    by (intro exI [of _ "write_at ptr (take 8 data) b1"]) (simp add: recv_size_def p bo b0(1) recv_length_def mem b1 Let_def word_less_nat_alt unat_of_nat64)
qed

lemma recv_body_plain:
  assumes mem: "rcv_mem env = mem" and live: "\<forall>n \<le> 0x10000000. mem n \<noteq> None"
    and p: "p = \<lparr>rp_slot = None, rp_macsize = 0, rp_lenfield = 8, rp_etm = False, rp_hmac = SSH_HMAC_UNSET\<rparr>"
    and b: "ses_in_buffer s = Some b" "buffer_inv b" "contents b = take 8 data"
    and n: "pkt_len (ses_in_packet s) = n" "n \<le> MAX_PACKET_LEN" "4 \<le> unat n"
    and data: "unat n + 4 \<le> length data" "length data < 18446744073709551616"
  shows "\<exists>b'. buffer_inv b' \<and> contents b' = take (unat n + 4) data \<and>
    recv_body env p s data = Some (Inr (s\<lparr>ses_in_buffer := Some b'\<rparr>, of_nat (unat n + 4)))"
proof -
  have nat: "unat n \<le> 262144" using n(2) by (simp add: MAX_PACKET_LEN_def word_le_nat_alt)
  have un: "unat (ucast n :: usize) = unat n" by (rule unat_ucast_up)
  define r where "r = (ucast n - 4 :: usize)"
  have r: "unat r = unat n - 4"
    using n(3) un by (simp add: r_def unat_sub word_le_nat_alt)
  have r32: "unat (ucast r :: u32) = unat n - 4" using nat r by (simp add: unat_ucast_down)
  note L = recv_body_lengths [of 0 n, simplified]
  have "length (contents b) + unat (ucast r :: u32) < 0x10000000" using b(3) nat r32 by simp
  from allocate_live [OF live b(2) this] obtain b1 ptr where
    b1: "ssh_buffer_allocate mem b (ucast r) = (b1, Some ptr)"
    by (cases "ssh_buffer_allocate mem b (ucast r)") auto
  let ?bs = "take (unat r) (drop 8 data)"
  have "length ?bs = unat (ucast r :: u32)" using r r32 data(1) n(3) by simp
  note wr = allocate_write [OF b(2) b1 this]
  have "take 8 data @ ?bs = take (unat n + 4) data"
    using r n(3) by (simp add: take_add [symmetric] add.commute)
  then have c: "contents (write_at ptr ?bs b1) = take (unat n + 4) data" using wr(2) b(3) by simp
  have "ucast n + 4 = (of_nat (unat n + 4) :: usize)"
    by (simp add: word_unat_eq_iff L(1) unat_of_nat64 nat order_le_less_trans [OF nat])
  moreover have "\<not> (of_nat (length data) < (ucast n + 4 :: usize))"
    using L(1) data by (simp add: word_less_nat_alt unat_of_nat64)
  ultimately show ?thesis using wr(1) c L(3) b1
    by (intro exI [of _ "write_at ptr ?bs b1"])
      (simp add: recv_body_def p n(1) b(1) mem Let_def r_def [symmetric])
qed

lemma recv_payload_plain:
  assumes p: "p = \<lparr>rp_slot = None, rp_macsize = 0, rp_lenfield = 8, rp_etm = False, rp_hmac = SSH_HMAC_UNSET\<rparr>"
    and b: "ses_in_buffer s = Some b" "buffer_inv b"
    and c: "contents b = be32 n @ of_nat (length padding) # payload @ padding"
    and seq: "ses_recv_seq s \<noteq> 0xffffffff" and pad: "length padding < 256"
  shows "\<exists>b'. buffer_inv b' \<and> contents b' = payload \<and> recv_payload env p s =
    Inr (s\<lparr>ses_in_buffer := Some b', ses_recv_seq := ses_recv_seq s + 1\<rparr>)"
proof -
  let ?q = "of_nat (length padding) :: u8"
  have q: "unat ?q = length padding" using pad by (simp add: take_bit_nat_eq_self unat_of_nat)
  from pass_bytes_cases [OF b(2), of 4] obtain b1 where
    b1: "ssh_buffer_pass_bytes b 4 = (b1, 4)" "buffer_inv b1" "contents b1 = ?q # payload @ padding"
    using c by cases simp_all
  from get_data_cases [OF b1(2), of 1] obtain b2 where
    b2: "ssh_buffer_get_data b1 1 = (b2, [?q], 1)" "buffer_inv b2" "contents b2 = payload @ padding"
    using b1(3) by cases simp_all
  have uq: "unat (ucast ?q :: u32) = length padding" using q pad by (simp add: unsigned_ucast_eq take_bit_nat_eq_self)
  from pass_bytes_end_cases [OF b2(2), of "ucast ?q"] obtain b3 where
    b3: "ssh_buffer_pass_bytes_end b2 (ucast ?q) = (b3, ucast ?q)" "buffer_inv b3" "contents b3 = payload"
  proof cases
    case 1
    then show ?thesis using b2(3) length_contents [OF b2(2)] uq by simp
  next
    case (2 b')
    then show ?thesis using b2(3) uq that by simp
  next
    case (3 b')
    then show ?thesis using b2(3) uq by simp
  qed
  have "\<not> ucast ?q > ssh_buffer_get_len b2"
    using unat_get_len [OF b2(2)] b2(3) uq by (simp add: word_less_nat_alt)
  then show ?thesis using b3 seq
    by (intro exI [of _ b3])
      (simp add: recv_payload_def p b(1) b1(1) ssh_buffer_get_u8_def b2(1) b3(1) Let_def)
qed

text \<open>The three stages together.\<close>

lemma recv_packet_plain:
  fixes s padding payload
  defines "n \<equiv> (of_nat (length payload + length padding + 1) :: u32)"
  assumes mem: "rcv_mem env = mem" and live: "\<forall>n \<le> 0x10000000. mem n \<noteq> None"
    and st: "ses_session_state s \<noteq> SSH_SESSION_STATE_ERROR" "ses_packet_state s = PACKET_STATE_INIT"
    and none: "in_crypto s = None" and b: "case ses_in_buffer s of None \<Rightarrow> True | Some b \<Rightarrow> buffer_inv b"
    and seq: "ses_recv_seq s \<noteq> 0xffffffff"
    and len: "4 \<le> length padding" "length padding < 256" "length payload + length padding < 262144"
    and rest: "length rest < 0x100000000"
  shows "\<exists>b. buffer_inv b \<and> contents b = payload \<and>
    recv_packet env s (frame 0 payload padding @ rest) =
     (case recv_dispatch env (recv_params s) (s\<lparr>ses_in_packet := \<lparr>pkt_valid = False, pkt_len = n, pkt_type = 0\<rparr>,
         ses_packet_state := PACKET_STATE_SIZEREAD, ses_in_buffer := Some b,
         ses_recv_seq := ses_recv_seq s + 1\<rparr>) of
        None \<Rightarrow> None
      | Some (Inl s') \<Rightarrow> Some (s'\<lparr>ses_session_state := SSH_SESSION_STATE_ERROR\<rparr>,
          of_nat (length (frame 0 payload padding)), False)
      | Some (Inr s') \<Rightarrow> Some (s'\<lparr>ses_packet_state := PACKET_STATE_INIT\<rparr>,
          of_nat (length (frame 0 payload padding)), True))"
proof -
  let ?f = "frame 0 payload padding" and ?d = "frame 0 payload padding @ rest"
  have un: "unat n = length payload + length padding + 1" unfolding n_def
    by (rule unat_of_nat32) (use len(3) in simp)
  have fr: "?f = be32 n @ of_nat (length padding) # payload @ padding" by (simp add: frame_def n_def add.commute add.left_commute)
  have lf: "length ?f = unat n + 4" by (simp add: fr un)
  have n: "n \<le> MAX_PACKET_LEN" "4 \<le> unat n" using len un by (simp_all add: word_le_nat_alt MAX_PACKET_LEN_def)
  have p: "recv_params s = \<lparr>rp_slot = None, rp_macsize = 0, rp_lenfield = 8, rp_etm = False, rp_hmac = SSH_HMAC_UNSET\<rparr>"
    by (simp add: recv_params_def none)
  have d: "take 4 ?d = be32 n" "8 \<le> length ?d" "length ?d < 18446744073709551616" "unat n + 4 \<le> length ?d"
    using len rest un by (simp_all add: fr)
  from recv_size_plain [OF mem live none b d(1-3) n(1)] obtain b1 where b1: "buffer_inv b1" "contents b1 = take 8 ?d"
    "recv_size env (recv_params s) s ?d = Inr (s\<lparr>ses_in_buffer := Some b1,
      ses_in_packet := \<lparr>pkt_valid = False, pkt_len = n, pkt_type = 0\<rparr>, ses_packet_state := PACKET_STATE_SIZEREAD\<rparr>)"
    by blast
  let ?s1 = "s\<lparr>ses_in_buffer := Some b1,
      ses_in_packet := \<lparr>pkt_valid = False, pkt_len = n, pkt_type = 0\<rparr>, ses_packet_state := PACKET_STATE_SIZEREAD\<rparr>"
  have "take (unat n + 4) ?d = ?f" using lf by simp
  with recv_body_plain [OF mem live p, of ?s1 b1 ?d n] b1(1,2) n d(3,4) obtain b2 where
    b2: "buffer_inv b2" "contents b2 = ?f"
      "recv_body env (recv_params s) ?s1 ?d = Some (Inr (?s1\<lparr>ses_in_buffer := Some b2\<rparr>, of_nat (unat n + 4)))"
    by auto
  with recv_payload_plain [OF p, of "?s1\<lparr>ses_in_buffer := Some b2\<rparr>" b2 n padding payload env] fr seq len(2)
  obtain b3 where b3: "buffer_inv b3" "contents b3 = payload"
    "recv_payload env (recv_params s) (?s1\<lparr>ses_in_buffer := Some b2\<rparr>) =
      Inr (?s1\<lparr>ses_in_buffer := Some b3, ses_recv_seq := ses_recv_seq s + 1\<rparr>)"
    by auto
  show ?thesis using b3(1,2)
    by (intro exI [of _ b3]) (simp add: recv_packet_def Let_def st b1(3) b2(3) [simplified]
      b3(3) [simplified] lf recv_error_def split: option.split sum.split)
qed

end

end
