(* ===== verification/SendProps.thy ===== *)
theory SendProps
  imports SendSpec
begin

text \<open>
  The properties of the sending half of the packet layer, with a concrete environment and
  sessions to apply them to.
\<close>

section \<open>An environment\<close>

text \<open>A cipher that complements its bytes, a MAC of constant bytes, keys that are always there.\<close>

definition sample_cipher :: ssh_cipher where
  "sample_cipher = \<lparr>ciph_blocksize = 8, ciph_lenfield_blocksize = 0, ciph_aead = False, ciph_packets = 0,
     ciph_blocks = 0, ciph_max_blocks = 0, ciph_key = []\<rparr>"

definition sample_env :: packet_env where
  "sample_env = \<lparr>env_mem = zero_alloc 100, env_gssapi = False, env_server = True,
     env_crypto_alloc = True, env_rekey_elapsed = (\<lambda>_. False),
     env_random = (\<lambda>_ n. Some (replicate n 9)), env_compress = (\<lambda>_ b. (b, 0)),
     env_hmac_init = (\<lambda>_ _. True), env_hmac = (\<lambda>type _ _. Some (replicate (hmac_digest_len type) 7)),
     env_encrypt = (\<lambda>c data. (c, map (\<lambda>b. NOT b) data)),
     env_aead_encrypt = (\<lambda>c _ data. (c, map (\<lambda>b. NOT b) data, replicate 16 7)),
     env_new_keys = (\<lambda>s. (s\<lparr>ses_next_crypto := map_option (\<lambda>c. c\<lparr>cry_in_cipher := Some sample_cipher,
        cry_out_cipher := Some sample_cipher\<rparr>) (ses_next_crypto s)\<rparr>, SSH_OK)),
     env_set_decrypt_key = cry_in_cipher, env_set_encrypt_key = cry_out_cipher,
     env_set_kex = (\<lambda>s. (s, SSH_OK)),
     env_kexinit = (\<lambda>s. (s, SSH_OK)), env_socket_write = (\<lambda>_ _. True)\<rparr>"

interpretation sample_packets: packet_library sample_env
proof (unfold_locales, goal_cases)
  case (1 n block)
  then show ?case by (auto simp: sample_env_def zero_alloc_def split: if_splits)
next
  case (2 cipher data cipher' out)
  then show ?case by (auto simp: sample_env_def intro: exI [of _ "ciph_key cipher"])
next
  case (3 cipher seq data cipher' out tag)
  then show ?case by (auto simp: sample_env_def intro: exI [of _ "ciph_key cipher"])
qed (auto simp: sample_env_def)

text \<open>A buffer that holds one packet, and sessions in front of and inside a key exchange.\<close>

definition one_packet :: "u8 \<Rightarrow> ssh_buffer" where
  "one_packet type = \<lparr>buf_secure = False, buf_used = 2, buf_allocated = 4, buf_pos = 0,
     buf_data = [type, 5, 0, 0], buf_freed = []\<rparr>"

lemma one_packet: "buffer_inv (one_packet type)" "contents (one_packet type) = [type, 5]"
  "packet_buffer (one_packet type) \<longleftrightarrow> type \<noteq> SSH2_MSG_NEWKEYS"
  by (simp_all add: one_packet_def buffer_inv_def contents_def segment_def packet_buffer_def)

definition plain_session :: "u8 \<Rightarrow> ssh_session" where
  "plain_session type = sample_session\<lparr>ses_out_buffer := Some (one_packet type),
     ses_dh_handshake_state := DH_STATE_INIT_SENT, ses_flags := 0x13,
     ses_next_crypto := Some (sample_crypto\<lparr>cry_hmacbuf := replicate 64 0\<rparr>)\<rparr>"

lemma plain_session: "ses_out_buffer (plain_session type) = Some (one_packet type)"
  "out_crypto (plain_session type) = None" "out_ready (plain_session type)"
  by (simp_all add: plain_session_def out_ready_def out_crypto_def ssh_packet_get_current_crypto_def
      used_for_def has_flag_def sample_session_def sample_crypto_def)

section \<open>Properties\<close>





text \<open>C12: a key exchange holds the other packets back. While the session rekeys, a packet that does not
  belong to the key exchange is never written: it is appended to the queue, or the call fails.
  A packet of the key exchange is sent as usual, and, \<open>NEWKEYS\<close> apart, by \<open>packet_send2\<close> alone:
  whatever \<open>ssh_send_rekex\<close> did, it is not called, so sending cannot recurse a second time.\<close>

theorem ssh_packet_send_rekeying:
  assumes "allocator (env_mem env)" and "ses_out_buffer s = Some b" and "buffer_inv b"
    and "contents b = type # p" and "ssh_packet_in_rekey s"
  shows "if ssh_packet_is_kex type
    then type \<noteq> SSH2_MSG_NEWKEYS \<longrightarrow> packet_send_with env rekex s = packet_send2 env s
    else \<exists>s' rc. packet_send_with env rekex s = Some (s', rc) \<and> ses_socket s' = ses_socket s \<and>
      ses_send_seq s' = ses_send_seq s \<and>
      (rc = SSH_OK \<and> ses_out_queue s' = ses_out_queue s @ [b] \<and>
         (\<exists>fresh. ses_out_buffer s' = Some fresh \<and> buffer_inv fresh \<and> contents fresh = []) \<or>
       rc = SSH_ERROR)"
proof -
  from ssh_buffer_get_contents [OF assms(3)] obtain d where d: "ssh_buffer_get b = Some d"
    "take (unat (ssh_buffer_get_len b)) d = contents b" .
  with assms(4) obtain d' where d': "d = type # d'" by (cases d) (auto simp: take_Cons split: nat.splits)
  have "unat (ssh_buffer_get_len b) > 0" using assms(4) unat_get_len [OF assms(3)] by simp
  then have n: "ssh_buffer_get_len b \<noteq> 0" by auto
  have dh: "ses_dh_handshake_state s \<noteq> DH_STATE_FINISHED" using assms(5) by (simp add: ssh_packet_in_rekey_def)
  note D = packet_send_with_def assms(2,5) d(1) d' n Let_def queue_simps [OF dh]
  show ?thesis
  proof (cases "ssh_packet_is_kex type")
    case True
    then show ?thesis by (auto simp: D split: option.split prod.split)
  next
    case False
    show ?thesis
      using False by (cases rule: allocator.new_cases [OF assms(1)]) (auto simp: D)
  qed
qed

theorem ssh_packet_send_rekeying_witness:
  "\<exists>s'. ssh_packet_send sample_env (plain_session 90) = Some (s', SSH_OK) \<and> ses_socket s' = [] \<and>
     ses_out_queue s' = [one_packet 90]"
proof -
  have r: "ssh_packet_in_rekey (plain_session 90)" "\<not> ssh_packet_is_kex 90" "ses_socket (plain_session 90) = []"
    "ses_out_queue (plain_session 90) = []"
    by code_simp+
  have "allocator (env_mem sample_env)" by unfold_locales
  from ssh_packet_send_rekeying [OF this plain_session(1) one_packet(1,2) r(1), of "ssh_send_rekex sample_env"] r
  have "\<exists>s' rc. ssh_packet_send sample_env (plain_session 90) = Some (s', rc) \<and> ses_socket s' = [] \<and>
      (rc = SSH_OK \<and> ses_out_queue s' = [one_packet 90] \<or> rc = SSH_ERROR)"
    by (auto simp: ssh_packet_send_def)
  moreover have "case ssh_packet_send sample_env (plain_session 90) of None \<Rightarrow> False | Some (s1, rc) \<Rightarrow> rc = SSH_OK"
    by code_simp
  ultimately show ?thesis by auto
qed

lemma install_keys_ok:
  assumes "install_keys env s = (s', 0)"
  obtains n n' where "ses_next_crypto s = Some n" and "ses_next_crypto s' = Some n'" and "cry_used n' = cry_used n"
    and "cry_in_cipher n' \<noteq> None" and "cry_out_cipher n' \<noteq> None"
    and "ses_current_crypto s' = ses_current_crypto s"
  using assms by (auto simp: install_keys_def Let_def split: option.splits)

lemma switch_crypto_ok:
  assumes "switch_crypto env s = (s', 0)" and "ses_next_crypto s = Some n"
  shows "ses_current_crypto s' = Some (n\<lparr>cry_used := 3\<rparr>)"
    and "ses_next_crypto s' = Some (crypto_new\<lparr>cry_session_id := cry_session_id n\<rparr>)"
  using assms by (auto simp: switch_crypto_def Let_def split: if_splits)

text \<open>C13: \<open>NEWKEYS\<close> switches one direction at a time. When keys have been exchanged, the first
  direction to switch, whichever it is, uses the next context while the other one stays with
  the current context (or stays in the clear in the first key exchange). When the second one
  switches, the next context becomes the current one for both, and a fresh context that knows
  only the session identifier takes its place.\<close>

theorem ssh_packet_set_newkeys_switch:
  assumes dirs: "(d, e) = (SSH_DIRECTION_OUT, SSH_DIRECTION_IN) \<or> (d, e) = (SSH_DIRECTION_IN, SSH_DIRECTION_OUT)"
    and cur: "case ses_current_crypto s of None \<Rightarrow> True | Some c \<Rightarrow> cry_used c = SSH_DIRECTION_BOTH \<and>
      cry_in_cipher c \<noteq> None \<and> cry_out_cipher c \<noteq> None"
    and nxt: "ses_next_crypto s = Some n" "cry_used n = 0"
    and new_keys: "\<And>s s' rc. env_new_keys env s = (s', rc) \<Longrightarrow> ses_current_crypto s' = ses_current_crypto s \<and>
      map_option cry_used (ses_next_crypto s') = map_option cry_used (ses_next_crypto s)"
    and first: "ssh_packet_set_newkeys env s d = (s1, SSH_OK)"
    and second: "ssh_packet_set_newkeys env s1 e = (s2, SSH_OK)"
  shows "ssh_packet_get_current_crypto s1 d = Some Next \<and>
    ssh_packet_get_current_crypto s1 e = (if ses_current_crypto s = None then None else Some Current) \<and>
    (\<exists>n1. ses_next_crypto s1 = Some n1 \<and>
      ses_current_crypto s2 = Some (n1\<lparr>cry_used := SSH_DIRECTION_BOTH\<rparr>) \<and>
      ses_next_crypto s2 = Some (crypto_new\<lparr>cry_session_id := cry_session_id n1\<rparr>)) \<and>
    ssh_packet_get_current_crypto s2 SSH_DIRECTION_BOTH = Some Current"
proof -
  have de: "d \<noteq> 3" "d OR e = 3" "has_flag d d" "has_flag (3 AND NOT d) e" "\<not> has_flag (3 AND NOT d) d"
    "\<not> has_flag d e" "d = 1 \<and> e = 2 \<or> d = 2 \<and> e = 1" using dirs by (auto simp: has_flag_def)
  let ?s = "s\<lparr>ses_next_crypto := Some (n\<lparr>cry_used := d\<rparr>),
    ses_current_crypto := map_option (\<lambda>c. c\<lparr>cry_used := cry_used c AND NOT d\<rparr>) (ses_current_crypto s)\<rparr>"
  obtain s0 rc where k: "env_new_keys env ?s = (s0, rc)" by (cases "env_new_keys env ?s")
  have "install_keys env s0 = (s1, 0)"
    using first de(1) by (simp add: ssh_packet_set_newkeys_def nxt k split: if_splits)
  then obtain n0 n1 where n: "ses_next_crypto s0 = Some n0" "ses_next_crypto s1 = Some n1"
    "cry_used n1 = cry_used n0" "cry_in_cipher n1 \<noteq> None" "cry_out_cipher n1 \<noteq> None"
    "ses_current_crypto s1 = ses_current_crypto s0" by (rule install_keys_ok)
  with new_keys [OF k] have s1: "cry_used n1 = d"
    "ses_current_crypto s1 = map_option (\<lambda>c. c\<lparr>cry_used := cry_used c AND NOT d\<rparr>) (ses_current_crypto s)"
    by simp_all
  have "ssh_packet_get_current_crypto s1 d = Some Next \<and>
      ssh_packet_get_current_crypto s1 e = (if ses_current_crypto s = None then None else Some Current)"
    using cur de(3-7) n(2,4,5) s1
    by (cases "ses_current_crypto s") (auto simp: ssh_packet_get_current_crypto_def used_for_def crypto_at_def)
  moreover have "\<exists>c. switch_crypto env (s1\<lparr>ses_next_crypto := Some (n1\<lparr>cry_used := 3\<rparr>),
      ses_current_crypto := c\<rparr>) = (s2, 0)"
    using second n(2) s1(1) de(2) by (auto simp: ssh_packet_set_newkeys_def)
  then have "ses_current_crypto s2 = Some (n1\<lparr>cry_used := 3\<rparr>)"
    "ses_next_crypto s2 = Some (crypto_new\<lparr>cry_session_id := cry_session_id n1\<rparr>)"
    using switch_crypto_ok by fastforce+
  moreover from this have "ssh_packet_get_current_crypto s2 3 = Some Current"
    using n(4,5) by (simp add: ssh_packet_get_current_crypto_def used_for_def crypto_at_def has_flag_def)
  ultimately show ?thesis using n(2) by auto
qed

theorem ssh_packet_set_newkeys_switch_witness:
  "ssh_packet_get_current_crypto (fst (ssh_packet_set_newkeys sample_env
     ((plain_session 21)\<lparr>ses_current_crypto := None\<rparr>) SSH_DIRECTION_OUT)) SSH_DIRECTION_OUT = Some Next"
proof -
  let ?s = "(plain_session 21)\<lparr>ses_current_crypto := None\<rparr>"
  let ?s1 = "fst (ssh_packet_set_newkeys sample_env ?s 2)"
  let ?s2 = "fst (ssh_packet_set_newkeys sample_env ?s1 1)"
  let ?n = "sample_crypto\<lparr>cry_hmacbuf := replicate 64 0\<rparr>"
  have rc: "snd (ssh_packet_set_newkeys sample_env ?s 2) = 0" "snd (ssh_packet_set_newkeys sample_env ?s1 1) = 0"
    by code_simp+
  have nxt: "ses_next_crypto ?s = Some ?n" "cry_used ?n = 0"
    by (simp_all add: plain_session_def sample_crypto_def)
  have keys: "ses_current_crypto s' = ses_current_crypto s \<and>
      map_option cry_used (ses_next_crypto s') = map_option cry_used (ses_next_crypto s)"
    if "env_new_keys sample_env s = (s', rc)" for s s' rc
    using that by (auto simp: sample_env_def option.map_comp comp_def)
  have "case ses_current_crypto ?s of None \<Rightarrow> True | Some c \<Rightarrow> cry_used c = 3 \<and>
      cry_in_cipher c \<noteq> None \<and> cry_out_cipher c \<noteq> None" by simp
  from ssh_packet_set_newkeys_switch [OF disjI1 [OF refl] this nxt keys, where ?s1.0 = ?s1 and ?s2.0 = ?s2] rc
  show ?thesis by (simp add: prod_eq_iff)
qed


definition keyed_session :: "bool \<Rightarrow> ssh_session" where
  "keyed_session compress = (plain_session 90)\<lparr>ses_current_crypto := Some (sample_crypto\<lparr>cry_used := 3,
     cry_out_cipher := Some sample_cipher, cry_out_hmac := SSH_HMAC_SHA1, cry_do_compress_out := compress,
     cry_hmacbuf := replicate 64 0\<rparr>)\<rparr>"

lemma keyed_session: "ses_out_buffer (keyed_session z) = Some (one_packet 90)"
  "ssh_packet_get_current_crypto (keyed_session z) 2 = Some Current"
  "out_crypto (keyed_session z) = Some (sample_crypto\<lparr>cry_used := 3,
     cry_out_cipher := Some sample_cipher, cry_out_hmac := SSH_HMAC_SHA1, cry_do_compress_out := z,
     cry_hmacbuf := replicate 64 0\<rparr>)"
  by (simp_all add: keyed_session_def plain_session_def out_crypto_def ssh_packet_get_current_crypto_def
      used_for_def has_flag_def crypto_at_def)


text \<open>A packet that is never sent and never reported. With compression on, the return code of a
  successful compression is still in \<open>rc\<close> when the random generator fails, so \<open>packet_send2\<close>
  returns success although nothing was written and the packet is still in the buffer.\<close>

theorem packet_send2_prng_failure:
  assumes "ses_out_buffer s = Some b" and "packet_buffer b" and "out_crypto s = Some c"
    and "cry_do_compress_out c" and "\<And>s out. env_compress env s out = (b', SSH_OK)"
    and "\<And>s n. env_random env s n = None"
  shows "\<exists>s'. packet_send2 env s = Some (s', SSH_OK) \<and> ses_socket s' = ses_socket s \<and>
    ses_out_buffer s' = Some b' \<and> ses_send_seq s' = ses_send_seq s \<and> ses_error s' = Some SSH_FATAL"
proof -
  from assms(3) obtain slot cipher where sl: "ssh_packet_get_current_crypto s 2 = Some slot" "crypto_at slot s = Some c"
    "cry_out_cipher c = Some cipher" by (rule out_crypto_Some)
  have inv: "buffer_inv b" "contents b \<noteq> []" using assms(2) by (simp_all add: packet_buffer_def)
  from ssh_buffer_get_contents [OF inv(1)] obtain d where d: "ssh_buffer_get b = Some d"
    "take (unat (ssh_buffer_get_len b)) d = contents b" .
  with inv(2) obtain type d' where d': "d = type # d'" by (cases d) auto
  have "unat (ssh_buffer_get_len b) > 0" using inv by (simp add: unat_get_len)
  then have "0 < ssh_buffer_get_len b" by (simp add: word_less_nat_alt)
  then show ?thesis
    by (simp add: packet_send2_def assms(1) sl d(1) d' assms(4-6) Let_def)
qed

theorem packet_send2_prng_failure_witness:
  "\<exists>s'. packet_send2 (sample_env\<lparr>env_random := \<lambda>_ _. None, env_compress := \<lambda>_ _. (one_packet 7, SSH_OK)\<rparr>)
      (keyed_session True) = Some (s', SSH_OK) \<and> ses_socket s' = []"
proof -
  let ?env = "sample_env\<lparr>env_random := \<lambda>_ _. None, env_compress := \<lambda>_ _. (one_packet 7, SSH_OK)\<rparr>"
  have "ses_socket (keyed_session True) = []"
    by (simp add: keyed_session_def plain_session_def sample_session_def)
  with packet_send2_prng_failure [OF keyed_session(1) _ keyed_session(3), where env = ?env and b' = "one_packet 7"]
  show ?thesis by (auto simp: one_packet)
qed

end
