(* ===== verification/PackSpec.thy ===== *)
theory PackSpec
  imports Pack
begin

text \<open>
  What \<open>ssh_buffer_pack\<close> and \<open>ssh_buffer_unpack\<close> promise for well-typed calls: a list of fields
  gives the format, the arguments and the bytes on the wire.
\<close>

section \<open>Fields\<close>

datatype 'bn field =
    F_byte u8 | F_word u16 | F_dword u32 | F_qword u64 | F_string ssh_string | F_cstring bytes
  | F_text bytes | F_data bytes | F_bignum 'bn | F_padded 'bn nat

fun field_char :: "'bn field \<Rightarrow> char" where
  "field_char (F_byte _) = CHR ''b''" | "field_char (F_word _) = CHR ''w''"
| "field_char (F_dword _) = CHR ''d''" | "field_char (F_qword _) = CHR ''q''"
| "field_char (F_string _) = CHR ''S''" | "field_char (F_cstring _) = CHR ''s''"
| "field_char (F_text _) = CHR ''t''" | "field_char (F_data _) = CHR ''P''"
| "field_char (F_bignum _) = CHR ''B''" | "field_char (F_padded _ _) = CHR ''F''"

fun field_args :: "'bn field \<Rightarrow> 'bn va_list" where
  "field_args (F_byte w) = [VA_int (ucast w)]" | "field_args (F_word w) = [VA_int (ucast w)]"
| "field_args (F_dword w) = [VA_int w]" | "field_args (F_qword w) = [VA_long w]"
| "field_args (F_string s) = [VA_string (Some s)]"
| "field_args (F_cstring bs) = [VA_pointer (Some (bs @ [0]))]"
| "field_args (F_text bs) = [VA_pointer (Some (bs @ [0]))]"
| "field_args (F_data bs) = [VA_long (of_nat (length bs)), VA_pointer (Some bs)]"
| "field_args (F_bignum b) = [VA_bignum b]"
| "field_args (F_padded b n) = [VA_bignum b, VA_long (of_nat n)]"

definition bn_bytes :: "'bn bignum_lib \<Rightarrow> 'bn \<Rightarrow> nat \<Rightarrow> bytes" where
  "bn_bytes lib b n =
     (if n = 0
      then (if bignum_num_bits lib b mod 8 = 0 \<and> bignum_is_bit_set lib b (int (bignum_num_bits lib b) - 1)
            then [0] else []) @ bignum_bn2bin lib b
      else replicate (n - bignum_num_bytes lib b) 0 @ bignum_bn2bin lib b)"

definition string_image :: "bytes \<Rightarrow> bytes" where
  "string_image bs = be32 (of_nat (length bs)) @ bs"

fun field_wire :: "'bn bignum_lib \<Rightarrow> 'bn field \<Rightarrow> bytes" where
  "field_wire lib (F_byte w) = [w]" | "field_wire lib (F_word w) = be16 w"
| "field_wire lib (F_dword w) = be32 w" | "field_wire lib (F_qword w) = be64 w"
| "field_wire lib (F_string s) = string_image (string_content s)"
| "field_wire lib (F_cstring bs) = string_image bs" | "field_wire lib (F_text bs) = bs"
| "field_wire lib (F_data bs) = bs" | "field_wire lib (F_bignum b) = string_image (bn_bytes lib b 0)"
| "field_wire lib (F_padded b n) = string_image (bn_bytes lib b n)"

fun field_ok :: "'bn field \<Rightarrow> bool" where
  "field_ok (F_string s) \<longleftrightarrow> string_wf s"
| "field_ok (F_cstring bs) \<longleftrightarrow> 0 \<notin> set bs \<and> length bs < 4294967296"
| "field_ok (F_text bs) \<longleftrightarrow> 0 \<notin> set bs \<and> length bs < 4294967296"
| "field_ok (F_data bs) \<longleftrightarrow> length bs < 4294967296"
| "field_ok (F_padded b n) \<longleftrightarrow> n < 18446744073709551616"
| "field_ok _ \<longleftrightarrow> True"

definition fields_args :: "'bn field list \<Rightarrow> 'bn va_list" where
  "fields_args fs = concat (map field_args fs)"

definition fields_wire :: "'bn bignum_lib \<Rightarrow> 'bn field list \<Rightarrow> bytes" where
  "fields_wire lib fs = concat (map (field_wire lib) fs)"

lemma fields_simps [simp]:
  "fields_args [] = []" "fields_args (f # fs) = field_args f @ fields_args fs"
  "fields_wire lib [] = []" "fields_wire lib (f # fs) = field_wire lib f @ fields_wire lib fs"
  by (simp_all add: fields_args_def fields_wire_def)

lemma length_field_args_pos: "0 < length (field_args f)"
  by (cases f) simp_all

section \<open>One field\<close>

lemma ucast_narrow [simp]:
  "ucast (ucast (a :: u8) :: u32) = a" "ucast (ucast (b :: u16) :: u32) = b"
  by (auto intro!: bit_word_eqI simp: bit_simps)

lemma strlen_block: "0 \<notin> set bs \<Longrightarrow> strlen (Some (bs @ [0])) = Some (length bs)"
proof -
  assume "0 \<notin> set bs"
  then have "takeWhile (\<lambda>c. c \<noteq> 0) (bs @ [0]) = bs"
    by (induction bs) auto
  then show ?thesis by (simp add: strlen_def)
qed

lemma size_one:
  assumes "field_ok f"
  shows "\<exists>sz more. pack_size_one lib (field_char f) (field_args f @ tail) =
    Some (SSH_OK, tail, more, sz) \<and> Suc more = length (field_args f)"
  using assms by (cases f) (simp_all add: pack_size_one_def strlen_block)

text \<open>The result of adding \<open>ws\<close>, perhaps in several steps: all of it, or a part and a failure.\<close>

definition packs :: "ssh_buffer \<Rightarrow> bytes \<Rightarrow> ssh_buffer \<Rightarrow> int \<Rightarrow> bool" where
  "packs b ws b' rc \<longleftrightarrow> buffer_inv b' \<and> buf_secure b' = buf_secure b \<and>
     (rc = 0 \<and> contents b' = contents b @ ws \<or>
      rc = - 1 \<and> (\<exists>ys zs. ws = ys @ zs \<and> contents b' = contents b @ ys))"

lemma appends_packs: "appends b ws (b', rc) \<Longrightarrow> packs b ws b' rc"
  by (auto simp: appends_def packs_def)

lemma packs_fail: "buffer_inv b \<Longrightarrow> packs b ws b (- 1)"
  by (auto simp: packs_def)

lemma packs_then:
  assumes "packs b xs b1 0" and "packs b1 ys b2 rc"
  shows "packs b (xs @ ys) b2 rc"
  using assms unfolding packs_def by (elim conjE disjE exE) auto

lemma packs_stop: "packs b xs b' rc \<Longrightarrow> rc \<noteq> 0 \<Longrightarrow> packs b (xs @ ys) b' rc"
  by (auto simp: packs_def)

lemma packs_rc: "packs b ws b' rc \<Longrightarrow> rc = 0 \<or> rc = - 1"
  by (auto simp: packs_def)

locale pack_setting = allocator mem + bignum_library lib bn_value
  for mem :: allocator and lib :: "'bn bignum_lib" and bn_value :: "'bn \<Rightarrow> nat"
begin

lemma bignum_string:
  assumes "make_bignum_string mem lib b n = Some s" and "n < 18446744073709551616"
  shows "string_wf s" and "string_content s = bn_bytes lib b n"
proof -
  let ?len = "bignum_num_bytes lib b"
  define pad where "pad = (if n = 0
      then (if bignum_num_bits lib b mod 8 = 0 \<and> bignum_is_bit_set lib b (int (bignum_num_bits lib b) - 1)
            then 1 else 0) else n - ?len)"
  have len: "length (bignum_bn2bin lib b) = ?len" "?len < 2 ^ 31"
    using bn2bin [of b] num_bytes [of b] int_range [of b] by auto
  obtain ptr where ptr: "ssh_string_new mem (of_nat (?len + pad)) = Some ptr"
    and s: "s = ptr\<lparr>str_data := blit pad (bignum_bn2bin lib b) (blit 0 (replicate pad 0) (str_data ptr))\<rparr>"
    and le: "n \<noteq> 0 \<longrightarrow> ?len \<le> n"
    using assms(1) by (auto simp: make_bignum_string_def Let_def pad_def split: option.splits if_splits)
  have "?len + pad < 18446744073709551616"
    using le assms(2) len(2) by (auto simp: pad_def)
  then have u: "unat (of_nat (?len + pad) :: usize) = ?len + pad"
    by (rule unat_of_nat64)
  note t = ssh_string_new_wf [OF ptr, unfolded u]
  have d: "length (str_data ptr) = ?len + pad + 1" using t(6) by simp
  show "string_wf s" using t(1) d len by (simp add: string_wf_def s length_blit)
  have "take (?len + pad) (blit pad (bignum_bn2bin lib b) (blit 0 (replicate pad 0) (str_data ptr))) =
      replicate pad 0 @ bignum_bn2bin lib b"
    using d len by (simp add: blit_def)
  moreover have "unat (ntohl (str_size s)) = ?len + pad" using t(3) by (simp add: s)
  ultimately have "string_content s = replicate pad 0 @ bignum_bn2bin lib b"
    by (simp add: string_content_def s)
  then show "string_content s = bn_bytes lib b n" by (auto simp: bn_bytes_def pad_def)
qed

lemma add_string_packs:
  assumes "buffer_inv b" and "string_wf s" and "ssh_buffer_add_ssh_string mem b (Some s) = (b', rc)"
  shows "packs b (string_image (string_content s)) b' rc"
  using add_ssh_string_appends [OF assms(1,2)] assms(3) by (auto simp: string_image_def intro: appends_packs)

lemma add_bytes_packs:
  assumes "buffer_inv b" and "length d < 4294967296"
    and "ssh_buffer_add_data mem b (Some (d @ z)) (of_nat (length d)) = (b', rc)"
  shows "packs b d b' rc"
proof -
  have u: "unat (of_nat (length d) :: u32) = length d"
    using assms(2) by (simp add: unat_of_nat take_bit_nat_eq_self)
  show ?thesis using add_data_appends [OF assms(1), of "of_nat (length d)" "d @ z"] assms(3)
    by (simp add: u appends_packs)
qed

lemma add_ints_packs:
  assumes "buffer_inv b"
  shows "ssh_buffer_add_u8 mem b w8 = (b', rc) \<Longrightarrow> packs b [w8] b' rc"
    and "ssh_buffer_add_u16 mem b (htons w16) = (b', rc) \<Longrightarrow> packs b (be16 w16) b' rc"
    and "ssh_buffer_add_u32 mem b (htonl w32) = (b', rc) \<Longrightarrow> packs b (be32 w32) b' rc"
    and "ssh_buffer_add_u64 mem b (htonll w64) = (b', rc) \<Longrightarrow> packs b (be64 w64) b' rc"
  using add_ints(1) [OF assms, of w8] add_ints(2) [OF assms, of "htons w16"]
    add_ints(3) [OF assms, of "htonl w32"] add_ints(4) [OF assms, of "htonll w64"]
  by (simp_all add: appends_packs wire)


lemma one_field:
  assumes "buffer_inv b" and "field_ok f"
  shows "\<exists>rc ap more b'. pack_one mem lib (field_char f) b (field_args f @ tail) = Some (rc, ap, more, b') \<and>
    packs b (field_wire lib f) b' rc \<and> (rc = 0 \<longrightarrow> ap = tail \<and> Suc more = length (field_args f))"
proof (cases f)
  case (F_byte w)
  obtain b' rc where "ssh_buffer_add_u8 mem b w = (b', rc)" by fastforce
  then show ?thesis using add_ints_packs(1) [OF assms(1)] by (simp add: F_byte pack_one_def)
next
  case (F_word w)
  obtain b' rc where "ssh_buffer_add_u16 mem b (htons w) = (b', rc)" by fastforce
  then show ?thesis using add_ints_packs(2) [OF assms(1)] by (simp add: F_word pack_one_def)
next
  case (F_dword w)
  obtain b' rc where "ssh_buffer_add_u32 mem b (htonl w) = (b', rc)" by fastforce
  then show ?thesis using add_ints_packs(3) [OF assms(1)] by (simp add: F_dword pack_one_def)
next
  case (F_qword w)
  obtain b' rc where "ssh_buffer_add_u64 mem b (htonll w) = (b', rc)" by fastforce
  then show ?thesis using add_ints_packs(4) [OF assms(1)] by (simp add: F_qword pack_one_def)
next
  case (F_string s)
  obtain b' rc where "ssh_buffer_add_ssh_string mem b (Some s) = (b', rc)" by fastforce
  then show ?thesis using add_string_packs [OF assms(1)] assms(2) by (simp add: F_string pack_one_def)
next
  case (F_cstring bs)
  then have l: "0 \<notin> set bs" "length bs < 4294967296" using assms(2) by simp_all
  obtain b1 rc1 where u: "ssh_buffer_add_u32 mem b (htonl (of_nat (length bs))) = (b1, rc1)" by fastforce
  note p1 = add_ints_packs(3) [OF assms(1) u]
  obtain b2 rc2 where d: "ssh_buffer_add_data mem b1 (Some (bs @ [0])) (of_nat (length bs)) = (b2, rc2)"
    by fastforce
  show ?thesis
  proof (cases "rc1 = 0")
    case True
    then have "buffer_inv b1" using p1 by (simp add: packs_def)
    from packs_then [OF p1 [unfolded True] add_bytes_packs [OF this l(2) d]] show ?thesis
      using l u d True by (simp add: F_cstring pack_one_def strlen_block string_image_def)
  next
    case False
    with packs_stop [OF p1 False, of bs] l u show ?thesis
      by (simp add: F_cstring pack_one_def strlen_block string_image_def)
  qed
next
  case (F_text bs)
  then have l: "0 \<notin> set bs" "length bs < 4294967296" using assms(2) by simp_all
  obtain b2 rc2 where d: "ssh_buffer_add_data mem b (Some (bs @ [0])) (of_nat (length bs)) = (b2, rc2)"
    by fastforce
  with l add_bytes_packs [OF assms(1) l(2) d] show ?thesis
    by (simp add: F_text pack_one_def strlen_block)
next
  case (F_data bs)
  then have l: "length bs < 4294967296" using assms(2) by simp
  have u: "unat (of_nat (length bs) :: u64) = length bs" using l by (intro unat_of_nat64) simp
  have c: "\<not> (of_nat (length bs) :: u64) > 4294967295" using l by (simp add: word_less_nat_alt u)
  have v: "(ucast (of_nat (length bs) :: u64) :: u32) = of_nat (length bs)"
    by (simp add: word_unat_eq_iff unat_ucast_down u unat_of_nat32 [OF l] l)
  obtain b2 rc2 where d: "ssh_buffer_add_data mem b (Some (bs @ [])) (of_nat (length bs)) = (b2, rc2)"
    by fastforce
  with l c v add_bytes_packs [OF assms(1) l d] show ?thesis
    by (simp add: F_data pack_one_def)
next
  case (F_bignum x)
  show ?thesis
  proof (cases "ssh_make_bignum_string mem lib x")
    case None then show ?thesis using assms(1) by (simp add: F_bignum pack_one_def packs_fail)
  next
    case (Some s)
    then have s: "string_wf s" "string_content s = bn_bytes lib x 0"
      using bignum_string [of x 0] by (simp_all add: ssh_make_bignum_string_def)
    obtain b' rc where "ssh_buffer_add_ssh_string mem b (Some s) = (b', rc)" by fastforce
    with add_string_packs [OF assms(1) s(1) this] s(2) Some show ?thesis
      by (simp add: F_bignum pack_one_def)
  qed
next
  case (F_padded x n)
  then have n: "unat (of_nat n :: u64) = n" using assms(2) by (intro unat_of_nat64) simp
  show ?thesis
  proof (cases "ssh_make_padded_bignum_string mem lib x n")
    case None then show ?thesis using assms(1) n by (simp add: F_padded pack_one_def packs_fail)
  next
    case (Some s)
    then have s: "string_wf s" "string_content s = bn_bytes lib x n"
      using bignum_string [of x n] assms(2) F_padded by (simp_all add: ssh_make_padded_bignum_string_def)
    obtain b' rc where "ssh_buffer_add_ssh_string mem b (Some s) = (b', rc)" by fastforce
    with add_string_packs [OF assms(1) s(1) this] s(2) Some n show ?thesis
      by (simp add: F_padded pack_one_def)
  qed
qed

section \<open>All fields\<close>

lemma size_all:
  assumes "list_all field_ok fs" and "count + length (fields_args fs) \<le> argc"
  shows "\<exists>sz. pack_size_loop lib argc (map field_char fs) (fields_args fs @ tail) count sz0 =
    Some (Inr (SSH_OK, tail, count + length (fields_args fs), sz))"
  using assms
proof (induction fs arbitrary: count sz0)
  case Nil
  then show ?case by simp
next
  case (Cons f fs)
  obtain sz more where sz: "pack_size_one lib (field_char f) (field_args f @ fields_args fs @ tail) =
      Some (SSH_OK, fields_args fs @ tail, more, sz)" "length (field_args f) = Suc more"
    using size_one [of f lib] Cons.prems(1) by fastforce
  then show ?case
    using Cons.IH [of "count + more + 1" "sz0 + sz"] Cons.prems by (simp add: add.assoc)
qed

lemma loop_all:
  assumes "buffer_inv b" and "list_all field_ok fs" and "count + length (fields_args fs) \<le> argc"
    and "fs = [] \<Longrightarrow> rc0 = 0"
  shows "\<exists>b' rc ap n. pack_loop mem lib argc (map field_char fs) (fields_args fs @ tail) count rc0 b =
      Some (b', Inr (rc, ap, n)) \<and> packs b (fields_wire lib fs) b' rc \<and>
      (rc = 0 \<longrightarrow> ap = tail \<and> n = count + length (fields_args fs))"
  using assms
proof (induction fs arbitrary: b count rc0)
  case Nil
  then show ?case by (simp add: packs_def)
next
  case (Cons f fs)
  obtain rc1 ap1 more b1 where
    one: "pack_one mem lib (field_char f) b (field_args f @ fields_args fs @ tail) = Some (rc1, ap1, more, b1)"
    and p1: "packs b (field_wire lib f) b1 rc1"
    and k: "rc1 = 0 \<longrightarrow> ap1 = fields_args fs @ tail \<and> Suc more = length (field_args f)"
    using one_field [OF Cons.prems(1), of f "fields_args fs @ tail"] Cons.prems(2) by auto
  have le: "\<not> argc < count" using Cons.prems(3) by simp
  show ?case
  proof (cases "rc1 = 0")
    case False
    with one packs_stop [OF p1 False] le show ?thesis by simp
  next
    case True
    then have inv: "buffer_inv b1" using p1 by (simp add: packs_def)
    from Cons.IH [OF inv, of "count + more + 1" 0] Cons.prems k True obtain b' rc ap n where
      l: "pack_loop mem lib argc (map field_char fs) (fields_args fs @ tail) (count + more + 1) 0 b1 =
        Some (b', Inr (rc, ap, n))" and p2: "packs b1 (fields_wire lib fs) b' rc"
      and e: "rc = 0 \<longrightarrow> ap = tail \<and> n = count + more + 1 + length (fields_args fs)" by auto
    have "Suc more = length (field_args f)" using k True by simp
    then show ?thesis using one l e le True k packs_then [OF p1 [unfolded True] p2] by simp
  qed
qed

lemma allocate_size_same:
  assumes "buffer_inv b"
  shows "same_content b (fst (ssh_buffer_allocate_size mem b len))"
proof -
  define s where "s = (if buf_pos b > 0 then buffer_shift b else b)"
  have s: "same_content b s" "unat (buf_used s) \<le> unat (buf_used b)"
    using assms buffer_shift_spec [OF assms] length_contents [OF assms]
    by (auto simp: s_def same_content_def)
  show ?thesis
  proof (cases "buf_allocated b < len")
    case False then show ?thesis using assms by (auto simp: ssh_buffer_allocate_size_def)
  next
    case True
    then have eq: "fst (ssh_buffer_allocate_size mem b len) = fst (realloc_buffer mem s len)"
      by (auto simp: ssh_buffer_allocate_size_def s_def split: prod.splits)
    have inv: "buffer_inv s" using s(1) by (simp add: same_content_def)
    have "unat (buf_used s) \<le> unat len"
      using True s(2) assms by (simp add: buffer_inv_def word_less_nat_alt)
    from realloc_same_content [OF inv this] show ?thesis
      by cases (use s(1) eq in \<open>auto simp: same_content_def\<close>)
  qed
qed

lemma pack_all:
  assumes "buffer_inv b" and "list_all field_ok fs" and "fs \<noteq> []" and "length (fields_args fs) \<le> 256"
  shows "\<exists>b' rc. ssh_buffer_pack mem lib b (map field_char fs) (fields_args fs) = Some (b', rc) \<and>
    packs b (fields_wire lib fs) b' rc"
proof -
  let ?tail = "[VA_int SSH_BUFFER_PACK_END]"
  obtain sz where sz: "pack_size_loop lib (length (fields_args fs)) (map field_char fs)
      (fields_args fs @ ?tail) 0 0 = Some (Inr (SSH_OK, ?tail, length (fields_args fs), sz))"
    using size_all [OF assms(2), of 0 "length (fields_args fs)" ?tail 0] by auto
  obtain b1 rc1 where a: "ssh_buffer_allocate_size mem b (ucast sz) = (b1, rc1)" by fastforce
  have s1: "same_content b b1" using allocate_size_same [OF assms(1), of "ucast sz"] a by simp
  then have inv: "buffer_inv b1" by (simp add: same_content_def)
  have alloc: "ssh_buffer_pack_allocate_va mem lib b (map field_char fs) (length (fields_args fs))
      (fields_args fs @ ?tail) = Some (b1, if rc1 \<noteq> 0 then SSH_ERROR else SSH_OK)"
    by (simp add: ssh_buffer_pack_allocate_va_def sz a)
  from loop_all [OF inv assms(2), of 0 "length (fields_args fs)" "- 1" ?tail] assms(3)
  obtain b' rc ap n where l: "pack_loop mem lib (length (fields_args fs)) (map field_char fs)
      (fields_args fs @ ?tail) 0 (- 1) b1 = Some (b', Inr (rc, ap, n))"
    and p: "packs b1 (fields_wire lib fs) b' rc" and e: "rc = 0 \<longrightarrow> ap = ?tail \<and> n = length (fields_args fs)"
    by auto
  have pb: "packs b (fields_wire lib fs) b' rc"
    using p s1 by (auto simp: packs_def same_content_def)
  have f: "packs b (fields_wire lib fs) b1 (- 1)"
    using s1 by (auto simp: packs_def same_content_def)
  from packs_rc [OF pb] show ?thesis
  proof
    assume "rc = 0"
    then show ?thesis using assms(4) alloc l e pb f
      by (simp add: ssh_buffer_pack_def ssh_buffer_pack_argc_def ssh_buffer_pack_va_def)
  next
    assume "rc = - 1"
    then show ?thesis using assms(4) alloc l e pb f
      by (simp add: ssh_buffer_pack_def ssh_buffer_pack_argc_def ssh_buffer_pack_va_def)
  qed
qed

lemma packs_fields:
  assumes "ssh_buffer_pack mem lib b p args = Some (b', 0)" and "buffer_inv b"
    and "p = map field_char fs" and "args = fields_args fs" and "list_all field_ok fs" and "fs \<noteq> []" and "length args \<le> 256"
  shows "buffer_inv b'" and "contents b' = contents b @ fields_wire lib fs"
proof -
  from pack_all [OF assms(2,5,6)] assms(1,3,4,7) have "packs b (fields_wire lib fs) b' 0" by auto
  then show "buffer_inv b'" "contents b' = contents b @ fields_wire lib fs" by (simp_all add: packs_def)
qed

end

end
