(* ===== verification/UnpackSpec.thy ===== *)
theory UnpackSpec
  imports PackSpec
begin

text \<open>
  What \<open>ssh_buffer_unpack\<close> promises when it is called with pointers of the types its format
  names: on every buffer content it returns, and what was packed is unpacked unchanged.
\<close>

section \<open>Well-typed calls\<close>

fun out_typed :: "char \<Rightarrow> 'bn out_list \<Rightarrow> bool" where
  "out_typed c [Out_u8 _] \<longleftrightarrow> c = CHR ''b''" | "out_typed c [Out_u16 _] \<longleftrightarrow> c = CHR ''w''"
| "out_typed c [Out_u32 _] \<longleftrightarrow> c = CHR ''d''" | "out_typed c [Out_u64 _] \<longleftrightarrow> c = CHR ''q''"
| "out_typed c [Out_string _] \<longleftrightarrow> c = CHR ''S''" | "out_typed c [Out_cstring _] \<longleftrightarrow> c = CHR ''s''"
| "out_typed c [Out_bignum _] \<longleftrightarrow> c = CHR ''B''"
| "out_typed c [Out_size _, Out_data _] \<longleftrightarrow> c = CHR ''P''"
| "out_typed c _ \<longleftrightarrow> False"

text \<open>No pointer of the list points to an allocation; every C string of the list is terminated.\<close>

fun no_pointer :: "'bn out_arg \<Rightarrow> bool" where
  "no_pointer (Out_string x) \<longleftrightarrow> x = None" | "no_pointer (Out_cstring x) \<longleftrightarrow> x = None"
| "no_pointer (Out_data x) \<longleftrightarrow> x = None" | "no_pointer (Out_bignum x) \<longleftrightarrow> x = None"
| "no_pointer _ \<longleftrightarrow> True"

fun terminated :: "'bn out_arg \<Rightarrow> bool" where
  "terminated (Out_cstring x) \<longleftrightarrow> strlen x \<noteq> None" | "terminated _ \<longleftrightarrow> True"

definition consumed :: "ssh_buffer \<Rightarrow> ssh_buffer \<Rightarrow> bool" where
  "consumed b b' \<longleftrightarrow> buffer_inv b' \<and> buf_secure b' = buf_secure b \<and>
     (\<exists>k. contents b' = drop k (contents b))"

lemma consumed_refl: "buffer_inv b \<Longrightarrow> consumed b b"
  by (auto simp: consumed_def intro: exI [of _ 0])

lemma consumed_trans: "consumed a b \<Longrightarrow> consumed b c \<Longrightarrow> consumed a c"
  by (auto simp: consumed_def)

lemma consumed_drop: "buffer_inv b' \<Longrightarrow> buf_secure b' = buf_secure b \<Longrightarrow>
    contents b' = drop n (contents b) \<Longrightarrow> consumed b b'"
  by (auto simp: consumed_def)

lemma get_data_consumed:
  assumes "buffer_inv b" and "ssh_buffer_get_data b n = (b', d, r)"
  shows "consumed b b'"
  using get_data_cases [OF assms(1), of n]
  by cases (use assms in \<open>auto intro: consumed_refl consumed_drop\<close>)

lemma cells_cases:
  assumes "out_typed c cells"
  obtains x where "c = CHR ''b''" "cells = [Out_u8 x]" | x where "c = CHR ''w''" "cells = [Out_u16 x]"
  | x where "c = CHR ''d''" "cells = [Out_u32 x]" | x where "c = CHR ''q''" "cells = [Out_u64 x]"
  | x where "c = CHR ''S''" "cells = [Out_string x]" | x where "c = CHR ''s''" "cells = [Out_cstring x]"
  | x where "c = CHR ''B''" "cells = [Out_bignum x]"
  | n x where "c = CHR ''P''" "cells = [Out_size n, Out_data x]"
  using assms by (cases "(c, cells)" rule: out_typed.cases) simp_all

text \<open>\<open>css\<close> is the cells of the fields of a format, one list per field.\<close>

definition outs_typed :: "string \<Rightarrow> 'bn out_list list \<Rightarrow> bool" where
  "outs_typed = list_all2 out_typed"

lemma outs_typed_length:
  "outs_typed p css \<Longrightarrow> length (concat css) = sum_list (map (\<lambda>c. if c = CHR ''P'' then 2 else 1) p)"
  unfolding outs_typed_def by (induction p css rule: list_all2_induct) (auto elim!: cells_cases)

lemma rollback_typed:
  assumes "outs_typed p css" and "\<forall>cells \<in> set css. list_all terminated cells"
  shows "\<exists>css'. unpack_rollback sec p (concat css @ tail) = Some (concat css' @ tail) \<and>
    outs_typed p css' \<and> (\<forall>cells \<in> set css'. list_all no_pointer cells)"
  using assms unfolding outs_typed_def
proof (induction p css rule: list_all2_induct)
  case Nil
  then show ?case by (simp add: exI [of _ "[]"])
next
  case (Cons c p cells css)
  then obtain css' where IH: "unpack_rollback sec p (concat css @ tail) = Some (concat css' @ tail)"
    "list_all2 out_typed p css'" "\<forall>cells \<in> set css'. list_all no_pointer cells" by auto
  define clear :: "'a out_arg \<Rightarrow> 'a out_arg" where
    "clear a = (case a of Out_u8 x \<Rightarrow> Out_u8 (if sec then 0 else x)
       | Out_u16 x \<Rightarrow> Out_u16 (if sec then 0 else x) | Out_u32 x \<Rightarrow> Out_u32 (if sec then 0 else x)
       | Out_u64 x \<Rightarrow> Out_u64 (if sec then 0 else x) | Out_string _ \<Rightarrow> Out_string None
       | Out_cstring _ \<Rightarrow> Out_cstring None | Out_data _ \<Rightarrow> Out_data None
       | Out_bignum _ \<Rightarrow> Out_bignum None | _ \<Rightarrow> a)" for a
  have "unpack_rollback sec (c # p) (concat (cells # css) @ tail) =
      Some (concat (map clear cells # css') @ tail) \<and> out_typed c (map clear cells) \<and>
      list_all no_pointer (map clear cells)"
    using Cons.hyps(1) Cons.prems IH(1) by (cases rule: cells_cases) (simp_all add: clear_def)
  with IH show ?case by (intro exI [of _ "map clear cells # css'"]) simp
qed

text \<open>The result of one turn of the loop on the cells of one field.\<close>

definition cell_step :: "ssh_buffer \<Rightarrow> char \<Rightarrow> 'bn out_list \<Rightarrow> 'bn out_list \<Rightarrow>
    (int \<times> 'bn out_list \<times> 'bn out_list \<times> nat \<times> ssh_buffer) option \<Rightarrow> bool" where
  "cell_step b c cells tail r \<longleftrightarrow> (\<exists>rc new ap inc b' cells'. r = Some (rc, new, ap, inc, b') \<and>
     consumed b b' \<and> (rc = 0 \<or> rc = - 1) \<and> new @ ap = cells' @ tail \<and> out_typed c cells' \<and>
     (rc = 0 \<longrightarrow> new = cells' \<and> ap = tail \<and> Suc inc = length cells' \<and> list_all terminated new) \<and>
     (rc = - 1 \<and> list_all no_pointer cells \<longrightarrow> list_all no_pointer cells'))"

lemma cell_stepI:
  assumes "r = Some (rc, new, tail, inc, b')" and "consumed b b'" and "rc = 0 \<or> rc = - 1"
    and "out_typed c new" and "Suc inc = length new"
    and "rc = 0 \<Longrightarrow> list_all terminated new" and "rc = - 1 \<Longrightarrow> list_all no_pointer new"
  shows "cell_step b c cells tail r"
  using assms unfolding cell_step_def by blast

context allocator
begin

lemma get_ssh_string_consumed:
  assumes "buffer_inv b" and "ssh_buffer_get_ssh_string mem b = (b', r)"
  shows "consumed b b'"
  using get_ssh_string_cases [OF assms(1)]
proof cases
  case 1 with assms show ?thesis by (auto intro: consumed_refl)
next
  case (2 a w rest) with assms show ?thesis by (auto intro: consumed_drop [where n = 4])
next
  case (3 a w rest) with assms show ?thesis by (auto intro: consumed_drop [where n = 4])
next
  case (4 a s w rest) with assms show ?thesis
    by (auto intro!: consumed_drop [where n = "4 + unat w"])
qed

lemma malloc_string_terminated:
  assumes "mem (Suc n) = Some new" and "length d = n"
  shows "strlen (Some ((blit 0 d new)[n := 0])) \<noteq> None"
proof -
  have "length (blit 0 d new) = Suc n" using malloc_size [OF assms(1)] assms(2) by (simp add: length_blit)
  then have "0 \<in> set ((blit 0 d new)[n := 0])" by (simp add: set_update_memI)
  then show ?thesis by (simp add: strlen_def)
qed

lemma step_ints:
  assumes "buffer_inv b"
  shows "cell_step b CHR ''b'' [Out_u8 w8] tail (unpack_one mem lib ml CHR ''b'' b (Out_u8 w8 # tail))"
    and "cell_step b CHR ''w'' [Out_u16 w16] tail (unpack_one mem lib ml CHR ''w'' b (Out_u16 w16 # tail))"
    and "cell_step b CHR ''d'' [Out_u32 w32] tail (unpack_one mem lib ml CHR ''d'' b (Out_u32 w32 # tail))"
    and "cell_step b CHR ''q'' [Out_u64 w64] tail (unpack_one mem lib ml CHR ''q'' b (Out_u64 w64 # tail))"
proof -
  have g: "consumed b (fst (ssh_buffer_get_data b n))" for n
    using get_data_consumed [OF assms, of n] by (cases "ssh_buffer_get_data b n") auto
  show "cell_step b CHR ''b'' [Out_u8 w8] tail (unpack_one mem lib ml CHR ''b'' b (Out_u8 w8 # tail))"
    using g [of 1] by (cases "ssh_buffer_get_data b 1")
      (auto intro!: cell_stepI simp: unpack_one_def ssh_buffer_get_u8_def)
  show "cell_step b CHR ''w'' [Out_u16 w16] tail (unpack_one mem lib ml CHR ''w'' b (Out_u16 w16 # tail))"
    using g [of 2] by (cases "ssh_buffer_get_data b 2") (auto intro!: cell_stepI simp: unpack_one_def)
  show "cell_step b CHR ''d'' [Out_u32 w32] tail (unpack_one mem lib ml CHR ''d'' b (Out_u32 w32 # tail))"
    using g [of 4] by (cases "ssh_buffer_get_data b 4")
      (auto intro!: cell_stepI simp: unpack_one_def ssh_buffer_get_u32_def)
  show "cell_step b CHR ''q'' [Out_u64 w64] tail (unpack_one mem lib ml CHR ''q'' b (Out_u64 w64 # tail))"
    using g [of 8] by (cases "ssh_buffer_get_data b 8")
      (auto intro!: cell_stepI simp: unpack_one_def ssh_buffer_get_u64_def)
qed

lemma step_strings:
  assumes "buffer_inv b"
  shows "cell_step b CHR ''S'' [Out_string s] tail (unpack_one mem lib ml CHR ''S'' b (Out_string s # tail))"
    and "cell_step b CHR ''B'' [Out_bignum n] tail (unpack_one mem lib ml CHR ''B'' b (Out_bignum n # tail))"
proof -
  obtain b' r where g: "ssh_buffer_get_ssh_string mem b = (b', r)" by fastforce
  note c = get_ssh_string_consumed [OF assms g]
  show "cell_step b CHR ''S'' [Out_string s] tail (unpack_one mem lib ml CHR ''S'' b (Out_string s # tail))"
    using g c by (auto intro!: cell_stepI simp: unpack_one_def)
  show "cell_step b CHR ''B'' [Out_bignum n] tail (unpack_one mem lib ml CHR ''B'' b (Out_bignum n # tail))"
    using g c by (cases r) (auto intro!: cell_stepI simp: unpack_one_def Let_def)
qed


lemma step_cstring:
  assumes "buffer_inv b"
  shows "cell_step b CHR ''s'' [Out_cstring x] tail (unpack_one mem lib ml CHR ''s'' b (Out_cstring x # tail))"
proof (cases "contents b" rule: contents_u32_cases)
  case 1
  then show ?thesis using assms(1)
    by (intro cell_stepI [where b' = b and inc = 0])
      (auto simp: unpack_one_def get_u32_short intro: consumed_refl)
next
  case (2 w rest)
  obtain a where a: "ssh_buffer_get_u32 b 0 = (a, htonl w, 4)" "buffer_inv a" "contents a = rest"
    "buf_secure a = buf_secure b" using get_u32_be [OF assms(1) 2] by metis
  have ca: "consumed b a" using a 2 by (intro consumed_drop [where n = 4]) simp_all
  have v: "ssh_buffer_validate_length a (ucast w) = (if unat w \<le> length rest then SSH_OK else SSH_ERROR)"
    using validate_length_ok [OF a(2), of "ucast w"] unat32_less [of w] a(3) by (simp add: unat_ucast_up)
  consider "w > ml - 1" | "\<not> w > ml - 1" "length rest < unat w"
    | "\<not> w > ml - 1" "unat w \<le> length rest" "mem (unat (w + 1)) = None"
    | new where "\<not> w > ml - 1" "unat w \<le> length rest" "mem (unat (w + 1)) = Some new"
    by fastforce
  then show ?thesis
  proof cases
    case 1
    then show ?thesis using a ca
      by (intro cell_stepI [where b' = a and inc = 0]) (auto simp: unpack_one_def)
  next
    case 2
    then show ?thesis using a ca v
      by (intro cell_stepI [where b' = a and inc = 0]) (auto simp: unpack_one_def)
  next
    case 3
    then show ?thesis using a ca v
      by (intro cell_stepI [where b' = a and inc = 0]) (auto simp: unpack_one_def)
  next
    case (4 new)
    have "unat w < 4294967295"
      using 4(2) length_contents [OF a(2)] a by (auto simp: buffer_inv_def)
    then have w1: "unat (w + 1) = Suc (unat w)" by (simp add: unat_add32)
    from get_data_cases [OF a(2), of w] show ?thesis
    proof cases
      case 1 with 4(2) a(3) show ?thesis by simp
    next
      case (2 b')
      have "consumed b b'" using ca 2 by (auto intro: consumed_trans consumed_drop)
      moreover have "strlen (Some ((blit 0 (take (unat w) (contents a)) new)[unat w := 0])) \<noteq> None"
        using 4 2(3) w1 by (intro malloc_string_terminated) simp_all
      ultimately show ?thesis using a v 4 2
        by (intro cell_stepI [where b' = b' and inc = 0]) (auto simp: unpack_one_def)
    qed
  qed
qed

lemma validate_long:
  assumes "buffer_inv b" and "ssh_buffer_validate_length b n = SSH_OK" and "unat n < 4294967296"
  shows "unat (ucast n :: u32) = unat n" and "unat n \<le> length (contents b)"
  using assms validate_length_ok [OF assms(1,3)] by (auto simp: unat_ucast_down split: if_splits)

lemma step_data:
  assumes "buffer_inv b"
  shows "cell_step b CHR ''P'' [Out_size n, Out_data x] tail
    (unpack_one mem lib ml CHR ''P'' b (Out_size n # Out_data x # tail))"
proof -
  have early: "cell_step b CHR ''P'' [Out_size n, Out_data x] tail
      (Some (SSH_ERROR, [Out_size n], Out_data x # tail, 0, b))"
    using consumed_refl [OF assms] unfolding cell_step_def by force
  have bound: "\<not> n > ucast (ml - 1) \<Longrightarrow> unat n < 4294967296"
    using unat32_less [of "ml - 1"] by (simp add: word_less_nat_alt unat_ucast_up not_less)
  have vrc: "ssh_buffer_validate_length b n = SSH_OK \<or> ssh_buffer_validate_length b n = SSH_ERROR"
    by (simp add: ssh_buffer_validate_length_def)
  consider "n > ucast (ml - 1)" | "\<not> n > ucast (ml - 1)" "ssh_buffer_validate_length b n = SSH_ERROR"
    | "\<not> n > ucast (ml - 1)" "ssh_buffer_validate_length b n = SSH_OK" "mem (unat n) = None"
    | new where "\<not> n > ucast (ml - 1)" "ssh_buffer_validate_length b n = SSH_OK" "mem (unat n) = Some new"
    using vrc by fastforce
  then show ?thesis
  proof cases
    case 1 then show ?thesis using early by (simp add: unpack_one_def)
  next
    case 2 then show ?thesis using early by (simp add: unpack_one_def)
  next
    case 3 then show ?thesis using consumed_refl [OF assms]
      by (intro cell_stepI [where inc = 1]) (auto simp: unpack_one_def)
  next
    case (4 new)
    note v = validate_long [OF assms 4(2) bound [OF 4(1)]]
    have wide: "ucast (ucast n :: u32) = n" using v(1) by (simp add: word_unat_eq_iff unat_ucast_up)
    from get_data_cases [OF assms, of "ucast n"] show ?thesis
    proof cases
      case 1 with v show ?thesis by simp
    next
      case (2 b')
      then show ?thesis using 4 wide
        by (intro cell_stepI [where b' = b' and inc = 1])
          (auto simp: unpack_one_def intro: consumed_drop)
    qed
  qed
qed

lemma step_any:
  assumes "buffer_inv b" and "out_typed c cells"
  shows "cell_step b c cells tail (unpack_one mem lib ml c b (cells @ tail))"
  using assms(2) by (cases rule: cells_cases)
    (simp_all add: step_ints [OF assms(1)] step_strings [OF assms(1)] step_data [OF assms(1)]
      step_cstring [OF assms(1)])

section \<open>The loop and the clean-up\<close>

lemma unpack_loop_typed:
  assumes "buffer_inv b" and "outs_typed p css" and "count + length (concat css) \<le> argc"
    and "p \<noteq> [] \<or> rc0 = 0"
  shows "\<exists>b' q past' ap rc n ps css1 css2. unpack_loop mem lib ml argc p (concat css @ tail) past count rc0 b =
      Some (b', q, past @ past', ap, Inr (rc, n)) \<and> consumed b b' \<and> (rc = 0 \<or> rc = - 1) \<and>
      past' @ ap = concat css1 @ concat css2 @ tail \<and> p = ps @ q \<and>
      outs_typed ps css1 \<and> outs_typed q css2 \<and> (\<forall>cells \<in> set css1. list_all terminated cells) \<and>
      (rc = 0 \<longrightarrow> q = [] \<and> ap = tail \<and> past' = concat css1 \<and> n = count + length (concat css1)) \<and>
      (rc = - 1 \<and> (\<forall>cells \<in> set css. list_all no_pointer cells) \<longrightarrow> (\<forall>cells \<in> set css2. list_all no_pointer cells))"
  using assms
proof (induction p arbitrary: css b count past rc0)
  case Nil
  then have [simp]: "css = []" by (simp add: outs_typed_def)
  show ?case using Nil consumed_refl [of b]
    by (simp add: outs_typed_def)
next
  case (Cons c p)
  from Cons.prems(2) obtain cells css0 where css [simp]: "css = cells # css0"
    and t: "out_typed c cells" "outs_typed p css0" by (auto simp: outs_typed_def list_all2_Cons1)
  have le: "\<not> argc < count" using Cons.prems(3) by simp
  from step_any [OF Cons.prems(1) t(1), of "concat css0 @ tail" lib]
  obtain rc1 new ap1 inc b1 cells' where
    one: "unpack_one mem lib ml c b (cells @ concat css0 @ tail) = Some (rc1, new, ap1, inc, b1)"
    and c1: "consumed b b1" and rc: "rc1 = 0 \<or> rc1 = - 1" and na: "new @ ap1 = cells' @ concat css0 @ tail"
    and t': "out_typed c cells'"
    and ok: "rc1 = 0 \<longrightarrow> new = cells' \<and> ap1 = concat css0 @ tail \<and> Suc inc = length cells' \<and> list_all terminated new"
    and bad: "rc1 = - 1 \<and> list_all no_pointer cells \<longrightarrow> list_all no_pointer cells'"
    unfolding cell_step_def by blast
  from rc show ?case
  proof
    assume r: "rc1 = - 1"
    have "unpack_loop mem lib ml argc (c # p) (concat css @ tail) past count rc0 b =
        Some (b1, c # p, past @ new, ap1, Inr (- 1, count + inc))"
      using le one r by simp
    moreover have "outs_typed (c # p) (cells' # css0)" using t t' by (simp add: outs_typed_def)
    ultimately show ?thesis using c1 na bad r t'
      by (intro exI [of _ b1] exI [of _ "c # p"] exI [of _ new] exI [of _ ap1] exI [of _ "- 1"]
          exI [of _ "count + inc"] exI [of _ "[]"] exI [of _ "[]"] exI [of _ "cells' # css0"])
        (simp add: outs_typed_def del: unpack_loop.simps)
  next
    assume r: "rc1 = 0"
    have inv1: "buffer_inv b1" using c1 by (simp add: consumed_def)
    have len: "length cells = length cells'"
      using t(1) t' by (elim cells_cases) simp_all
    have cnt: "count + inc + 1 + length (concat css0) \<le> argc" using Cons.prems(3) ok r len by simp
    from Cons.IH [OF inv1 t(2) cnt, of 0 "past @ new", OF disjI2 [OF refl]]
    obtain b' q past' ap rc' n ps css1 css2 where
      l: "unpack_loop mem lib ml argc p (concat css0 @ tail) (past @ new) (count + inc + 1) 0 b1 =
        Some (b', q, (past @ new) @ past', ap, Inr (rc', n))"
      and h: "consumed b1 b'" "rc' = 0 \<or> rc' = - 1" "past' @ ap = concat css1 @ concat css2 @ tail" "p = ps @ q"
        "outs_typed ps css1" "outs_typed q css2" "\<forall>cells \<in> set css1. list_all terminated cells"
        "rc' = 0 \<longrightarrow> q = [] \<and> ap = tail \<and> past' = concat css1 \<and> n = count + inc + 1 + length (concat css1)"
        "rc' = - 1 \<and> (\<forall>cells \<in> set css0. list_all no_pointer cells) \<longrightarrow> (\<forall>cells \<in> set css2. list_all no_pointer cells)"
      by blast
    have "unpack_loop mem lib ml argc (c # p) (concat css @ tail) past count rc0 b =
        Some (b', q, past @ new @ past', ap, Inr (rc', n))"
      using le one r l ok by simp
    moreover have "outs_typed (c # ps) (cells' # css1)" using h(5) t' by (simp add: outs_typed_def)
    moreover have "consumed b b'" using c1 h(1) by (rule consumed_trans)
    moreover have inc: "Suc inc = length new" "new = cells'" "list_all terminated cells'" using ok r by auto
    ultimately show ?thesis using h
      by (intro exI [of _ b'] exI [of _ q] exI [of _ "new @ past'"] exI [of _ ap] exI [of _ rc']
          exI [of _ n] exI [of _ "c # ps"] exI [of _ "cells' # css1"] exI [of _ css2])
        (simp del: unpack_loop.simps)
  qed
qed


lemma unpack_typed:
  assumes "buffer_inv b" and "outs_typed p css" and "p \<noteq> []"
  shows "\<exists>b' css' rc. ssh_buffer_unpack mem lib b p (concat css) =
      Some (b', concat css' @ [Out_canary SSH_BUFFER_PACK_END], rc) \<and>
    consumed b b' \<and> outs_typed p css' \<and> (rc = 0 \<or> rc = - 1) \<and>
    (rc = - 1 \<and> (\<forall>cells \<in> set css. list_all no_pointer cells) \<longrightarrow>
       (\<forall>cells \<in> set css'. list_all no_pointer cells)) \<and>
    (rc = 0 \<longrightarrow> (\<forall>cells \<in> set css'. list_all terminated cells))"
proof (cases "length (concat css) > 256")
  case True
  then show ?thesis using assms(1,2)
    by (intro exI [of _ b] exI [of _ css] exI [of _ "- 1"])
      (simp add: ssh_buffer_unpack_def ssh_buffer_unpack_argc_def ssh_buffer_unpack_va_def consumed_refl)
next
  case False
  let ?tail = "[Out_canary SSH_BUFFER_PACK_END] :: 'a out_list" and ?n = "length (concat css)"
  have pn: "p \<noteq> [] \<or> (- 1 :: int) = 0" using assms(3) by simp
  have "0 + length (concat css) \<le> ?n" by simp
  from unpack_loop_typed [OF assms(1,2) this pn, of lib "ssh_buffer_get_len b" ?tail "[]"]
  obtain b' q past' ap rc n ps css1 css2 where
    l: "unpack_loop mem lib (ssh_buffer_get_len b) ?n p (concat css @ ?tail) [] 0 (- 1) b =
      Some (b', q, past', ap, Inr (rc, n))"
    and h: "consumed b b'" "rc = 0 \<or> rc = - 1" "past' @ ap = concat css1 @ concat css2 @ ?tail" "p = ps @ q"
      "outs_typed ps css1" "outs_typed q css2" "\<forall>cells \<in> set css1. list_all terminated cells"
      "rc = 0 \<longrightarrow> q = [] \<and> ap = ?tail \<and> past' = concat css1 \<and> n = 0 + length (concat css1)"
      "rc = - 1 \<and> (\<forall>cells \<in> set css. list_all no_pointer cells) \<longrightarrow> (\<forall>cells \<in> set css2. list_all no_pointer cells)"
    unfolding append_Nil by blast
  have css12: "outs_typed p (css1 @ css2)"
    using h(4-6) by (simp add: outs_typed_def list_all2_appendI)
  have pre: "take (length p - length q) p = ps" using h(4) by simp
  show ?thesis
  proof (cases "rc = 0")
    case True
    have same: "length (concat css1) = ?n"
      using outs_typed_length [OF assms(2)] outs_typed_length [OF css12] h(6,8) True
      by (simp add: outs_typed_def)
    have "ssh_buffer_unpack mem lib b p (concat css) = Some (b', concat css1 @ ?tail, 0)"
      using False l h(8) True same
      by (simp add: ssh_buffer_unpack_def ssh_buffer_unpack_argc_def ssh_buffer_unpack_va_def Let_def)
    then show ?thesis using h True by (intro exI [of _ b'] exI [of _ css1] exI [of _ 0]) simp
  next
    case f: False
    then have rc: "rc = - 1" using h(2) by simp
    from rollback_typed [OF h(5,7), of "buf_secure b'" "concat css2 @ ?tail"] obtain css1' where
      r: "unpack_rollback (buf_secure b') ps (concat css1 @ concat css2 @ ?tail) =
        Some (concat css1' @ concat css2 @ ?tail)" "outs_typed ps css1'"
        "\<forall>cells \<in> set css1'. list_all no_pointer cells" by blast
    have "ssh_buffer_unpack mem lib b p (concat css) =
        Some (b', concat (css1' @ css2) @ ?tail, - 1)"
      using False l r h(3) pre rc
      by (simp add: ssh_buffer_unpack_def ssh_buffer_unpack_argc_def ssh_buffer_unpack_va_def Let_def)
    moreover have "outs_typed p (css1' @ css2)"
      using h(4,6) r(2) by (simp add: outs_typed_def list_all2_appendI)
    ultimately show ?thesis using h r rc
      by (intro exI [of _ b'] exI [of _ "css1' @ css2"] exI [of _ "- 1"]) auto
  qed
qed

end

section \<open>Unpacking what was packed\<close>

fun unpackable :: "'bn bignum_lib \<Rightarrow> 'bn field \<Rightarrow> bool" where
  "unpackable lib (F_text _) \<longleftrightarrow> False" | "unpackable lib (F_padded _ _) \<longleftrightarrow> False"
| "unpackable lib (F_bignum x) \<longleftrightarrow> length (bn_bytes lib x 0) \<le> 0x10000000"
| "unpackable lib _ \<longleftrightarrow> True"

text \<open>The variables passed for a field, and what they must hold afterwards.\<close>

fun out_for :: "'bn field \<Rightarrow> 'bn out_list \<Rightarrow> bool" where
  "out_for (F_data d) [Out_size n, Out_data _] \<longleftrightarrow> n = of_nat (length d)"
| "out_for f cells \<longleftrightarrow> out_typed (field_char f) cells \<and> (\<forall>d. f \<noteq> F_data d)"

fun out_holds :: "('bn \<Rightarrow> nat) \<Rightarrow> 'bn field \<Rightarrow> 'bn out_list \<Rightarrow> bool" where
  "out_holds v (F_byte w) cells \<longleftrightarrow> cells = [Out_u8 w]"
| "out_holds v (F_word w) cells \<longleftrightarrow> cells = [Out_u16 w]"
| "out_holds v (F_dword w) cells \<longleftrightarrow> cells = [Out_u32 w]"
| "out_holds v (F_qword w) cells \<longleftrightarrow> cells = [Out_u64 w]"
| "out_holds v (F_string s) cells \<longleftrightarrow>
     (\<exists>t. cells = [Out_string (Some t)] \<and> string_wf t \<and> string_content t = string_content s)"
| "out_holds v (F_cstring bs) cells \<longleftrightarrow> cells = [Out_cstring (Some (bs @ [0]))]"
| "out_holds v (F_data d) cells \<longleftrightarrow> cells = [Out_size (of_nat (length d)), Out_data (Some d)]"
| "out_holds v (F_bignum x) cells \<longleftrightarrow> (\<exists>y. cells = [Out_bignum (Some y)] \<and> v y = v x)"
| "out_holds v _ cells \<longleftrightarrow> False"

lemma out_for_typed: "out_for f cells \<Longrightarrow> out_typed (field_char f) cells"
  by (cases "(f, cells)" rule: out_for.cases) auto

lemma get_data_app:
  assumes "buffer_inv b" and "contents b = d @ rest" and "unat n = length d"
  obtains b' where "ssh_buffer_get_data b n = (b', d, n)" and "buffer_inv b'" and "contents b' = rest"
    and "buf_secure b' = buf_secure b"
  using get_data_cases [OF assms(1), of n] by cases (use assms that in auto)

lemma string_image_len:
  assumes "length bs < 4294967296"
  obtains w where "string_image bs @ rest = be32 w @ bs @ rest" and "unat w = length bs"
  using unat_of_nat32 [OF assms] that by (simp add: string_image_def)

lemma be_value_zero: "be_value (0 # bs) = be_value bs"
  by (simp add: be_value_def)

text \<open>What is missing when a well-formed encoding is not accepted: memory, or, for a big number, the crypto library.\<close>

definition out_of_memory :: "allocator \<Rightarrow> 'bn bignum_lib \<Rightarrow> 'bn field list \<Rightarrow> bool" where
  "out_of_memory mem lib fs \<longleftrightarrow> (\<exists>n. mem n = None) \<or> (\<exists>x bs. F_bignum x \<in> set fs \<and> bignum_bin2bn lib bs = None)"

lemma out_of_memory_mono: "out_of_memory mem lib fs \<Longrightarrow> set fs \<subseteq> set gs \<Longrightarrow> out_of_memory mem lib gs"
  by (auto simp: out_of_memory_def)

lemma ssh_string_new_None: "ssh_string_new mem n = None \<Longrightarrow> unat n \<le> 0x10000000 \<Longrightarrow> \<exists>n. mem n = None"
  by (auto simp: ssh_string_new_def STRING_SIZE_MAX_def word_less_nat_alt split: if_splits option.splits)

definition wire_step :: "allocator \<Rightarrow> 'bn bignum_lib \<Rightarrow> ('bn \<Rightarrow> nat) \<Rightarrow> ssh_buffer \<Rightarrow> 'bn field \<Rightarrow> bytes \<Rightarrow> 'bn out_list \<Rightarrow>
    (int \<times> 'bn out_list \<times> 'bn out_list \<times> nat \<times> ssh_buffer) option \<Rightarrow> bool" where
  "wire_step mem lib v b f rest tail r \<longleftrightarrow> (\<exists>rc new ap inc b'. r = Some (rc, new, ap, inc, b') \<and>
     (rc = - 1 \<and> out_of_memory mem lib [f] \<or>
      rc = 0 \<and> out_holds v f new \<and> ap = tail \<and> Suc inc = length new \<and> buffer_inv b' \<and>
      contents b' = rest \<and> buf_secure b' = buf_secure b))"

lemma wire_step_ok:
  assumes "r = Some (0, new, tail, inc, b')" and "out_holds v f new" and "Suc inc = length new"
    and "buffer_inv b'" and "contents b' = rest" and "buf_secure b' = buf_secure b"
  shows "wire_step mem lib v b f rest tail r"
  using assms by (simp add: wire_step_def)

lemma wire_step_fail:
  assumes "r = Some (- 1, new, ap, inc, b')" and "out_of_memory mem lib [f]"
  shows "wire_step mem lib v b f rest tail r"
  using assms by (simp add: wire_step_def)

lemma terminate_block:
  assumes "length new = Suc (length bs)"
  shows "(blit 0 bs new)[length bs := 0] = bs @ [0]"
proof -
  from assms have "length (drop (length bs) new) = Suc 0" by simp
  then obtain x where "drop (length bs) new = [x]" by (metis length_0_conv length_Suc_conv)
  then show ?thesis by (simp add: blit_0 list_update_append)
qed

context allocator
begin

lemma get_string_app:
  assumes "buffer_inv b" and "contents b = string_image bs @ rest" and "length bs \<le> 0x10000000"
  obtains (fail) b' where "ssh_buffer_get_ssh_string mem b = (b', None)" and "\<exists>n. mem n = None"
  | (ok) b' s where "ssh_buffer_get_ssh_string mem b = (b', Some s)" and "string_wf s"
      and "string_content s = bs" and "contents b' = rest" and "buffer_inv b'"
      and "buf_secure b' = buf_secure b"
proof -
  obtain w where w: "contents b = be32 w @ bs @ rest" "unat w = length bs"
    using string_image_len [of bs rest] assms(2,3) by auto
  from get_ssh_string_cases [OF assms(1)] show ?thesis
  proof cases
    case 1 with w show ?thesis by simp
  next
    case (2 b' w' rest')
    have "be32 w' @ rest' = be32 w @ bs @ rest" using 2(3) w(1) by simp
    from be32_app_eq [OF this] 2(5) w(2) show ?thesis by simp
  next
    case (3 b' w' rest')
    have "be32 w' @ rest' = be32 w @ bs @ rest" using 3(3) w(1) by simp
    from be32_app_eq(1) [OF this] 3(6) w(2) assms(3) have "\<exists>n. mem n = None"
      using ssh_string_new_None [OF 3(6)] by (simp add: unat_ucast_up)
    with 3(1) show ?thesis by (rule fail)
  next
    case (4 b' s w' rest')
    have "be32 w' @ rest' = be32 w @ bs @ rest" using 4(3) w(1) by simp
    from be32_app_eq [OF this] 4 w(2) show ?thesis by (intro ok [of b' s]) simp_all
  qed
qed

end

context pack_setting
begin

lemma bn_bytes_value: "be_value (bn_bytes lib x 0) = bn_value x"
  using bn2bin [of x] by (simp add: bn_bytes_def be_value_zero)

lemma step_wire_ints:
  assumes "buffer_inv b" and "contents b = field_wire lib f @ rest" and "out_typed (field_char f) cells"
    and "field_char f \<in> {CHR ''b'', CHR ''w'', CHR ''d'', CHR ''q''}"
  shows "wire_step mem lib bn_value b f rest tail (unpack_one mem lib ml (field_char f) b (cells @ tail))"
  using assms(3)
proof (cases rule: cells_cases)
  case (1 x)
  then obtain w where [simp]: "f = F_byte w" by (cases f) simp_all
  from get_data_app [OF assms(1,2), of 1] obtain b' where
    "ssh_buffer_get_data b 1 = (b', [w], 1)" "buffer_inv b'" "contents b' = rest"
    "buf_secure b' = buf_secure b" by auto
  with 1 show ?thesis by (intro wire_step_ok [where b' = b' and inc = 0])
    (auto simp: unpack_one_def ssh_buffer_get_u8_def)
next
  case (2 x)
  then obtain w where [simp]: "f = F_word w" by (cases f) simp_all
  from get_data_app [OF assms(1,2), of 2] obtain b' where
    "ssh_buffer_get_data b 2 = (b', be16 w, 2)" "buffer_inv b'" "contents b' = rest"
    "buf_secure b' = buf_secure b" by auto
  with 2 show ?thesis by (intro wire_step_ok [where b' = b' and inc = 0])
    (auto simp: unpack_one_def wire)
next
  case (3 x)
  then obtain w where [simp]: "f = F_dword w" by (cases f) simp_all
  from get_data_app [OF assms(1,2), of 4] obtain b' where
    "ssh_buffer_get_data b 4 = (b', be32 w, 4)" "buffer_inv b'" "contents b' = rest"
    "buf_secure b' = buf_secure b" by auto
  with 3 show ?thesis by (intro wire_step_ok [where b' = b' and inc = 0])
    (auto simp: unpack_one_def ssh_buffer_get_u32_def wire)
next
  case (4 x)
  then obtain w where [simp]: "f = F_qword w" by (cases f) simp_all
  from get_data_app [OF assms(1,2), of 8] obtain b' where
    "ssh_buffer_get_data b 8 = (b', be64 w, 8)" "buffer_inv b'" "contents b' = rest"
    "buf_secure b' = buf_secure b" by auto
  with 4 show ?thesis by (intro wire_step_ok [where b' = b' and inc = 0])
    (auto simp: unpack_one_def ssh_buffer_get_u64_def wire)
qed (use assms(4) in simp_all)

lemma step_wire_strings:
  assumes "buffer_inv b" and "field_ok f" and "unpackable lib f"
    and "contents b = field_wire lib f @ rest" and "out_typed (field_char f) cells"
    and "f = F_string s \<or> f = F_bignum x"
  shows "wire_step mem lib bn_value b f rest tail (unpack_one mem lib ml (field_char f) b (cells @ tail))"
  using assms(6)
proof
  assume [simp]: "f = F_string s"
  from assms(5) obtain y where [simp]: "cells = [Out_string y]" by (elim cells_cases) simp_all
  have c: "contents b = string_image (string_content s) @ rest" using assms(4) by simp
  have "length (string_content s) \<le> 0x10000000"
    using assms(2) by (simp add: string_wf_def string_content_def)
  from get_string_app [OF assms(1) c this] show ?thesis
  proof cases
    case (1 b') then show ?thesis
      by (intro wire_step_fail) (auto simp: unpack_one_def out_of_memory_def)
  next
    case (2 b' t) then show ?thesis
      by (intro wire_step_ok [where b' = b' and inc = 0]) (auto simp: unpack_one_def)
  qed
next
  assume [simp]: "f = F_bignum x"
  from assms(5) obtain y where [simp]: "cells = [Out_bignum y]" by (elim cells_cases) simp_all
  have c: "contents b = string_image (bn_bytes lib x 0) @ rest" using assms(4) by simp
  have "length (bn_bytes lib x 0) \<le> 0x10000000" using assms(3) by simp
  from get_string_app [OF assms(1) c this] show ?thesis
  proof cases
    case (1 b') then show ?thesis
      by (intro wire_step_fail) (auto simp: unpack_one_def out_of_memory_def)
  next
    case (2 b' t)
    have t: "ssh_make_string_bn lib t = bignum_bin2bn lib (bn_bytes lib x 0)"
    proof -
      have "take (length (string_content t)) (str_data t) = string_content t"
        using 2(2) by (simp add: string_content_def string_wf_def)
      then show ?thesis using 2(2,3) by (simp add: ssh_make_string_bn_def unat_ssh_string_len)
    qed
    show ?thesis
    proof (cases "bignum_bin2bn lib (bn_bytes lib x 0)")
      case None
      with 2 t show ?thesis
        by (intro wire_step_fail) (auto simp: unpack_one_def out_of_memory_def Let_def)
    next
      case (Some y)
      with 2 t bin2bn [OF Some] bn_bytes_value [of x] show ?thesis
        by (intro wire_step_ok [where b' = b' and inc = 0]) (auto simp: unpack_one_def Let_def)
    qed
  qed
qed

lemma step_wire_blocks:
  assumes "buffer_inv b" and "field_ok f" and "length (contents b) \<le> unat ml"
    and "contents b = field_wire lib f @ rest" and "out_for f cells"
    and "f = F_cstring bs \<or> f = F_data bs \<and> length bs < unat ml"
  shows "wire_step mem lib bn_value b f rest tail (unpack_one mem lib ml (field_char f) b (cells @ tail))"
  using assms(6)
proof
  assume [simp]: "f = F_cstring bs"
  from assms(5) obtain y where [simp]: "cells = [Out_cstring y]"
    using out_for_typed [OF assms(5)] by (elim cells_cases) simp_all
  have l: "length bs < 4294967296" using assms(2) by simp
  obtain w where w: "contents b = be32 w @ bs @ rest" "unat w = length bs"
    using string_image_len [OF l, of rest] assms(4) by auto
  obtain a where a: "ssh_buffer_get_u32 b 0 = (a, htonl w, 4)" "buffer_inv a" "contents a = bs @ rest"
    "buf_secure a = buf_secure b" using get_u32_be [OF assms(1) w(1)] by metis
  have ml: "4 + length bs \<le> unat ml" using assms(3) w(1) by simp
  then have "unat (ml - 1) = unat ml - 1" using unat_sub32 [of 1 ml] by simp
  then have fits: "\<not> w > ml - 1" using w(2) ml by (simp add: word_less_nat_alt)
  have v: "ssh_buffer_validate_length a (ucast w) = SSH_OK"
    using validate_length_ok [OF a(2), of "ucast w"] unat32_less [of w] a(3) w(2) by (simp add: unat_ucast_up)
  have "unat w < 4294967295"
    using w(2) a(3) length_contents [OF a(2)] a(2) by (auto simp: buffer_inv_def)
  then have w1: "unat (w + 1) = Suc (length bs)" using w(2) by (simp add: unat_add32)
  obtain b' where b': "ssh_buffer_get_data a w = (b', bs, w)" "buffer_inv b'" "contents b' = rest"
    "buf_secure b' = buf_secure a" using get_data_app [OF a(2,3) w(2)] by metis
  show ?thesis
  proof (cases "mem (unat (w + 1))")
    case None
    with a v fits show ?thesis
      by (intro wire_step_fail) (auto simp: unpack_one_def Let_def out_of_memory_def)
  next
    case (Some new)
    then have "length new = Suc (length bs)" using malloc_size w1 by metis
    then have "(blit 0 bs new)[length bs := 0] = bs @ [0]" by (rule terminate_block)
    with Some a v fits b' w(2) show ?thesis
      by (intro wire_step_ok [where b' = b' and inc = 0]) (auto simp: unpack_one_def Let_def)
  qed
next
  assume f: "f = F_data bs \<and> length bs < unat ml"
  then have [simp]: "f = F_data bs" and lt: "length bs < unat ml" by simp_all
  let ?n = "of_nat (length bs) :: u64"
  have l: "length bs < 4294967296" using assms(2) by simp
  have u: "unat ?n = length bs" using l by (intro unat_of_nat64) simp
  obtain x where [simp]: "cells = [Out_size ?n, Out_data x]"
    using assms(5) out_for_typed [OF assms(5)] by (elim cells_cases) simp_all
  have "unat (ml - 1) = unat ml - 1" using lt unat_sub32 [of 1 ml] by simp
  then have fits: "\<not> ?n > ucast (ml - 1)" using lt by (simp add: word_less_nat_alt u unat_ucast_up)
  have v: "ssh_buffer_validate_length b ?n = SSH_OK"
    using validate_length_ok [OF assms(1), of ?n] l u assms(4) by simp
  have c: "unat (ucast ?n :: u32) = length bs" using l u by (simp add: unat_ucast_down)
  then have wide: "ucast (ucast ?n :: u32) = ?n" by (simp add: word_unat_eq_iff unat_ucast_up u)
  obtain b' where b': "ssh_buffer_get_data b (ucast ?n) = (b', bs, ucast ?n)" "buffer_inv b'"
    "contents b' = rest" "buf_secure b' = buf_secure b"
    using get_data_app [OF assms(1) _ c] assms(4) by auto
  show ?thesis
  proof (cases "mem (length bs)")
    case None
    with v fits u show ?thesis
      by (intro wire_step_fail) (auto simp: unpack_one_def out_of_memory_def)
  next
    case (Some new)
    then have "blit 0 bs new = bs" using malloc_size by (simp add: blit_0)
    with Some v fits u b' wide show ?thesis
      by (intro wire_step_ok [where b' = b' and inc = 1]) (auto simp: unpack_one_def)
  qed
qed

end

end
