(* ===== verification/PackProps.thy ===== *)
theory PackProps
  imports UnpackSpec
begin

text \<open>
  The properties of formatted packing, and a crypto library on 64 bit numbers over which they
  are exercised.
\<close>

section \<open>A library of 64 bit big numbers\<close>

fun bit_count :: "nat \<Rightarrow> nat" where
  "bit_count n = (if n = 0 then 0 else Suc (bit_count (n div 2)))"

declare bit_count.simps [simp del]

lemma bit_count_0 [simp]: "bit_count 0 = 0" "0 < n \<Longrightarrow> bit_count n = Suc (bit_count (n div 2))"
  by (simp_all add: bit_count.simps)

lemma bit_count_bounds: "n < 2 ^ bit_count n \<and> (n > 0 \<longrightarrow> 2 ^ (bit_count n - 1) \<le> n)"
proof (induction n rule: bit_count.induct)
  case (1 n)
  show ?case
  proof (cases "n div 2 = 0")
    case True
    then have "n = 0 \<or> n = 1" by auto
    then show ?thesis by (auto simp: numeral_eq_Suc)
  next
    case False
    then have n: "n > 1" by auto
    obtain k where k: "bit_count (n div 2) = Suc k" using False by (cases "bit_count (n div 2)") auto
    have "n div 2 < 2 ^ Suc k" "2 ^ k \<le> n div 2" using 1 n False k by auto
    then have "n < 2 ^ Suc (Suc k)" "2 ^ Suc k \<le> n" by auto
    with n k show ?thesis by simp
  qed
qed

lemma bit_count_le: "n < 2 ^ k \<Longrightarrow> bit_count n \<le> k"
proof (rule ccontr)
  assume n: "n < 2 ^ k" and "\<not> bit_count n \<le> k"
  then have "n > 0" "k \<le> bit_count n - 1" by (cases n; simp)+
  then have "(2 :: nat) ^ k \<le> 2 ^ (bit_count n - 1)" by (intro power_increasing) simp_all
  also have "\<dots> \<le> n" using bit_count_bounds [of n] \<open>n > 0\<close> by blast
  finally have "2 ^ k \<le> n" .
  with n show False by simp
qed

lemma bit_count_div_256: "256 \<le> n \<Longrightarrow> bit_count n = bit_count (n div 256) + 8"
  by (simp add: div_mult2_eq [symmetric])

function nat_bytes :: "nat \<Rightarrow> bytes" where
  "nat_bytes n = (if n = 0 then [] else nat_bytes (n div 256) @ [of_nat (n mod 256)])"
  by pat_completeness auto
termination by (relation "measure id") simp_all

declare nat_bytes.simps [simp del]

lemma nat_bytes_0 [simp]: "nat_bytes 0 = []"
  by (simp add: nat_bytes.simps)

lemma be_value_snoc: "be_value (xs @ [x]) = 256 * be_value xs + unat x"
  by (simp add: be_value_def)

lemma be_value_nat_bytes: "be_value (nat_bytes n) = n"
proof (induction n rule: nat_bytes.induct)
  case (1 n)
  have "unat (of_nat (n mod 256) :: u8) = n mod 256" by (simp add: unat_of_nat take_bit_eq_mod)
  with 1 show ?case by (subst nat_bytes.simps) (auto simp: be_value_snoc be_value_def)
qed

lemma length_nat_bytes: "length (nat_bytes n) = (bit_count n + 7) div 8"
proof (induction n rule: nat_bytes.induct)
  case (1 n)
  consider "n = 0" | "0 < n" "n < 256" | "256 \<le> n" by linarith
  then show ?case
  proof cases
    case 2
    then have "bit_count n \<le> 8" by (intro bit_count_le) simp
    moreover have "0 < bit_count n" using 2(1) by simp
    ultimately have "(bit_count n + 7) div 8 = 1" by linarith
    with 2 show ?thesis by (simp add: nat_bytes.simps [of n])
  next
    case 3
    with 1 show ?thesis by (simp add: nat_bytes.simps [of n] bit_count_div_256 del: bit_count_0(2))
  qed simp
qed

definition word_bignum :: "u64 bignum_lib" where
  "word_bignum = \<lparr>bignum_num_bits = (\<lambda>w. bit_count (unat w)),
     bignum_num_bytes = (\<lambda>w. (bit_count (unat w) + 7) div 8),
     bignum_is_bit_set = (\<lambda>w i. i \<ge> 0 \<and> bit w (nat i)), bignum_bn2bin = (\<lambda>w. nat_bytes (unat w)),
     bignum_bin2bn = (\<lambda>bs. if bit_count (be_value bs) \<le> 64
                            then Some (of_nat (be_value bs)) else None)\<rparr>"

interpretation word_lib: bignum_library word_bignum unat
proof
  fix b :: u64
  show "unat b < 2 ^ bignum_num_bits word_bignum b \<and>
      (bignum_num_bits word_bignum b > 0 \<longrightarrow> 2 ^ (bignum_num_bits word_bignum b - 1) \<le> unat b)"
    using bit_count_bounds [of "unat b"] by (cases "unat b = 0") (auto simp: word_bignum_def)
  show "bignum_num_bytes word_bignum b = (bignum_num_bits word_bignum b + 7) div 8"
    by (simp add: word_bignum_def)
  show "bignum_is_bit_set word_bignum b i \<longleftrightarrow> i \<ge> 0 \<and> bit (unat b) (nat i)" for i
    by (auto simp: word_bignum_def bit_unsigned_iff)
  show "length (bignum_bn2bin word_bignum b) = bignum_num_bytes word_bignum b \<and>
      be_value (bignum_bn2bin word_bignum b) = unat b"
    by (simp add: word_bignum_def length_nat_bytes be_value_nat_bytes)
  show "unat b = be_value bs" if "bignum_bin2bn word_bignum bs = Some b" for bs
  proof -
    have le: "bit_count (be_value bs) \<le> 64" and b: "b = of_nat (be_value bs)"
      using that by (auto simp: word_bignum_def split: if_splits)
    have "be_value bs < 2 ^ bit_count (be_value bs)" using bit_count_bounds [of "be_value bs"] by simp
    also have "\<dots> \<le> 2 ^ 64" using le by (intro power_increasing) simp_all
    finally show ?thesis by (simp add: b unat_of_nat64)
  qed
  have "unat b < 2 ^ 64" using unsigned_less [of b] by simp
  then have "bit_count (unat b) \<le> 64" by (rule bit_count_le)
  then show "bignum_num_bits word_bignum b < 2 ^ 31" by (simp add: word_bignum_def)
qed

interpretation sample_pack: pack_setting "zero_alloc limit" word_bignum unat ..


section \<open>Properties\<close>

text \<open>C24: a well-typed call of \<open>ssh_buffer_pack\<close> always returns: whatever list of fields the
  format names, if the arguments have the types it names the function never reads a wrong
  argument and never aborts, and either it returns 0 and the buffer has grown by the encodings
  of all fields in order, or it returns -1 and has grown by a beginning of these bytes.\<close>

theorem ssh_buffer_pack_wire:
  assumes "pack_setting mem lib v" and "buffer_inv b" and "list_all field_ok fs"
    and "fs \<noteq> []" and "length (fields_args fs) \<le> 256"
  shows "\<exists>b' rc. ssh_buffer_pack mem lib b (map field_char fs) (fields_args fs) = Some (b', rc) \<and>
    buffer_inv b' \<and> buf_secure b' = buf_secure b \<and>
    (rc = 0 \<and> contents b' = contents b @ fields_wire lib fs \<or>
     rc = - 1 \<and> (\<exists>ys zs. fields_wire lib fs = ys @ zs \<and> contents b' = contents b @ ys))"
  using pack_setting.pack_all [OF assms] unfolding packs_def by blast

definition sample_fields :: "u64 field list" where
  "sample_fields = [F_byte 94, F_dword 7, F_cstring [104, 105], F_bignum 200, F_data [1, 2, 3], F_qword 9]"

lemma sample_fields_ok: "list_all field_ok sample_fields" "sample_fields \<noteq> []"
  "length (fields_args sample_fields) \<le> 256"
  by (simp_all add: sample_fields_def)

lemma sample_fields_wire: "fields_wire word_bignum sample_fields =
    [94] @ be32 7 @ string_image [104, 105] @ string_image [0, 200] @ [1, 2, 3] @ be64 9"
proof -
  have "bit (200 :: u64) 7" by simp
  then have "bn_bytes word_bignum 200 0 = [0, 200]"
    by (simp add: bn_bytes_def word_bignum_def nat_bytes.simps)
  then show ?thesis by (simp add: sample_fields_def)
qed

definition empty_buffer :: ssh_buffer where
  "empty_buffer = \<lparr>buf_secure = False, buf_used = 0, buf_allocated = 8, buf_pos = 0,
     buf_data = replicate 8 0, buf_freed = []\<rparr>"

lemmas pack_eval = ssh_buffer_pack_def ssh_buffer_pack_argc_def ssh_buffer_pack_allocate_va_def
  ssh_buffer_pack_va_def pack_size_one_def pack_one_def ssh_buffer_allocate_size_def
  ssh_buffer_add_u8_def ssh_buffer_add_u32_def ssh_buffer_add_data_def make_room_def Let_def

lemma empty_buffer_inv: "buffer_inv empty_buffer" "contents empty_buffer = []"
  by (simp_all add: empty_buffer_def buffer_inv_def contents_def)

theorem ssh_buffer_pack_wire_witness:
  "\<exists>b' rc. ssh_buffer_pack (zero_alloc 1000) word_bignum empty_buffer ''bdsBPq''
      [VA_int 94, VA_int 7, VA_pointer (Some [104, 105, 0]), VA_bignum 200, VA_long 3,
       VA_pointer (Some [1, 2, 3]), VA_long 9] = Some (b', rc) \<and>
    (rc = 0 \<longrightarrow> contents b' =
      [94] @ be32 7 @ string_image [104, 105] @ string_image [0, 200] @ [1, 2, 3] @ be64 9)"
proof -
  have "map field_char sample_fields = ''bdsBPq''" and
    "fields_args sample_fields = [VA_int 94, VA_int 7, VA_pointer (Some [104, 105, 0]), VA_bignum 200,
       VA_long 3, VA_pointer (Some [1, 2, 3]), VA_long 9]"
    by (simp_all add: sample_fields_def)
  with ssh_buffer_pack_wire [OF sample_pack.pack_setting_axioms empty_buffer_inv(1) sample_fields_ok, of 1000]
  show ?thesis by (auto simp: empty_buffer_inv(2) sample_fields_wire)
qed

text \<open>C25: \<open>ssh_buffer_unpack\<close> is safe on whatever bytes the peer sent. If the caller passes
  pointers of the types the format names, then for every content of the buffer it returns 0 or
  -1, consumes bytes from the front only, keeps the invariant, and leaves the caller's variables
  with the types they had; and after -1 no variable is left pointing to an allocation.\<close>

theorem ssh_buffer_unpack_safe:
  assumes "allocator mem" and "buffer_inv b" and "outs_typed p css" and "p \<noteq> []"
  shows "\<exists>b' css' rc. ssh_buffer_unpack mem lib b p (concat css) =
      Some (b', concat css' @ [Out_canary SSH_BUFFER_PACK_END], rc) \<and>
    buffer_inv b' \<and> (\<exists>k. contents b' = drop k (contents b)) \<and> outs_typed p css' \<and>
    (rc = 0 \<or> rc = - 1) \<and>
    (rc = - 1 \<and> (\<forall>cells \<in> set css. list_all no_pointer cells) \<longrightarrow>
       (\<forall>cells \<in> set css'. list_all no_pointer cells))"
  using allocator.unpack_typed [OF assms, of lib] unfolding consumed_def by blast

theorem ssh_buffer_unpack_safe_witness:
  "\<exists>b' css' rc. ssh_buffer_unpack (zero_alloc 1000) word_bignum sample_wire ''Sds''
      (concat [[Out_string None], [Out_u32 0], [Out_cstring None]]) =
      Some (b', concat css' @ [Out_canary SSH_BUFFER_PACK_END], rc) \<and>
    (rc = - 1 \<longrightarrow> (\<forall>cells \<in> set css'. list_all no_pointer cells))"
proof -
  let ?css = "[[Out_string None], [Out_u32 0], [Out_cstring None]] :: u64 out_list list"
  have t: "outs_typed ''Sds'' ?css" "''Sds'' \<noteq> []" by (simp_all add: outs_typed_def)
  have n: "\<forall>cells \<in> set ?css. list_all no_pointer cells" by simp
  from ssh_buffer_unpack_safe [OF zero_alloc.allocator_axioms sample_wire_inv(1) t, of 1000 word_bignum] n
  show ?thesis by blast
qed

section \<open>Round trip\<close>

lemma holds_typed: "out_holds v f cells \<Longrightarrow> out_typed (field_char f) cells"
  by (cases f) auto

context pack_setting
begin

lemma step_wire:
  assumes "buffer_inv b" and "field_ok f" and "unpackable lib f" and "length (contents b) \<le> unat ml"
    and "contents b = field_wire lib f @ rest" and "out_for f cells" and "\<forall>d. f = F_data d \<longrightarrow> length d < unat ml"
  shows "wire_step mem lib bn_value b f rest tail (unpack_one mem lib ml (field_char f) b (cells @ tail))"
  using assms out_for_typed [OF assms(6)] step_wire_ints [OF assms(1,5) out_for_typed [OF assms(6)]]
    step_wire_strings [OF assms(1-3,5) out_for_typed [OF assms(6)]] step_wire_blocks [OF assms(1,2,4-6)]
  by (cases f) auto

lemma loop_wire:
  assumes "buffer_inv b" and "list_all field_ok fs" and "list_all (unpackable lib) fs"
    and "length (contents b) \<le> unat ml" and "contents b = fields_wire lib fs @ rest"
    and "list_all2 out_for fs css" and "\<forall>d. F_data d \<in> set fs \<longrightarrow> length d < unat ml"
    and "count + length (concat css) \<le> argc" and "fs \<noteq> [] \<or> rc0 = 0"
  shows "\<exists>b' q past' ap rc n. unpack_loop mem lib ml argc (map field_char fs) (concat css @ tail) past count rc0 b =
      Some (b', q, past @ past', ap, Inr (rc, n)) \<and>
      (rc = - 1 \<and> out_of_memory mem lib fs \<or>
       (\<exists>css'. rc = 0 \<and> q = [] \<and> ap = tail \<and> past' = concat css' \<and> list_all2 (out_holds bn_value) fs css' \<and>
         n = count + length past' \<and> buffer_inv b' \<and> contents b' = rest))"
  using assms
proof (induction fs arbitrary: css b count past rc0)
  case Nil
  then show ?case by (simp add: exI [of _ "[]"])
next
  case (Cons f fs)
  from Cons.prems(6) obtain cells css0 where css [simp]: "css = cells # css0"
    and t: "out_for f cells" "list_all2 out_for fs css0" by (auto simp: list_all2_Cons1)
  have le: "\<not> argc < count" using Cons.prems(8) by simp
  have c: "contents b = field_wire lib f @ (fields_wire lib fs @ rest)" using Cons.prems(5) by simp
  have d: "\<forall>d. f = F_data d \<longrightarrow> length d < unat ml" using Cons.prems(7) by auto
  have f: "field_ok f" "unpackable lib f" using Cons.prems(2,3) by simp_all
  from step_wire [OF Cons.prems(1) f Cons.prems(4) c t(1) d, of "concat css0 @ tail"]
  obtain rc1 new ap1 inc b1 where
    one: "unpack_one mem lib ml (field_char f) b (cells @ concat css0 @ tail) = Some (rc1, new, ap1, inc, b1)"
    and r: "rc1 = - 1 \<and> out_of_memory mem lib [f] \<or>
      rc1 = 0 \<and> out_holds bn_value f new \<and> ap1 = concat css0 @ tail \<and> Suc inc = length new \<and> buffer_inv b1 \<and>
      contents b1 = fields_wire lib fs @ rest \<and> buf_secure b1 = buf_secure b"
    unfolding wire_step_def by blast
  show ?case
  proof (cases "rc1 = 0")
    case False
    with r have "rc1 = - 1" "out_of_memory mem lib (f # fs)" by (auto elim: out_of_memory_mono)
    with one le show ?thesis by simp
  next
    case True
    with r have h: "out_holds bn_value f new" "ap1 = concat css0 @ tail" "Suc inc = length new" "buffer_inv b1"
      "contents b1 = fields_wire lib fs @ rest" by auto
    have len: "length new = length cells"
      using h(1) out_for_typed [OF t(1)] by (elim cells_cases; cases f) auto
    have l1: "length (contents b1) \<le> unat ml" using Cons.prems(4) c h(5) by simp
    have fs: "list_all field_ok fs" "list_all (unpackable lib) fs" "\<forall>d. F_data d \<in> set fs \<longrightarrow> length d < unat ml"
      using Cons.prems(2,3,7) by simp_all
    have cnt: "count + inc + 1 + length (concat css0) \<le> argc" using Cons.prems(8) h(3) len by simp
    from Cons.IH [OF h(4) fs(1,2) l1 h(5) t(2) fs(3) cnt disjI2 [OF refl], of "past @ new"]
    obtain b' q past' ap rc n where
      l: "unpack_loop mem lib ml argc (map field_char fs) (concat css0 @ tail) (past @ new) (count + inc + 1) 0 b1 =
        Some (b', q, (past @ new) @ past', ap, Inr (rc, n))"
      and k: "rc = - 1 \<and> out_of_memory mem lib fs \<or>
       (\<exists>css'. rc = 0 \<and> q = [] \<and> ap = tail \<and> past' = concat css' \<and> list_all2 (out_holds bn_value) fs css' \<and>
         n = count + inc + 1 + length past' \<and> buffer_inv b' \<and> contents b' = rest)" by blast
    have run: "unpack_loop mem lib ml argc (map field_char (f # fs)) (concat css @ tail) past count rc0 b =
        Some (b', q, past @ (new @ past'), ap, Inr (rc, n))"
      using le one True h(2) l by simp
    from k show ?thesis
    proof
      assume "rc = - 1 \<and> out_of_memory mem lib fs"
      then have "rc = - 1 \<and> out_of_memory mem lib (f # fs)" by (auto elim: out_of_memory_mono)
      with run show ?thesis by blast
    next
      assume "\<exists>css'. rc = 0 \<and> q = [] \<and> ap = tail \<and> past' = concat css' \<and> list_all2 (out_holds bn_value) fs css' \<and>
         n = count + inc + 1 + length past' \<and> buffer_inv b' \<and> contents b' = rest"
      then obtain css' where e: "rc = 0" "q = []" "ap = tail" "past' = concat css'"
        "list_all2 (out_holds bn_value) fs css'" "n = count + inc + 1 + length past'" "buffer_inv b'"
        "contents b' = rest" by blast
      have "new @ past' = concat (new # css')" "list_all2 (out_holds bn_value) (f # fs) (new # css')"
        "n = count + length (new @ past')" using e h(1,3) by simp_all
      with run e show ?thesis by blast
    qed
  qed
qed

lemma unpack_wire:
  assumes "buffer_inv b" and "list_all field_ok fs" and "list_all (unpackable lib) fs" and "fs \<noteq> []"
    and "contents b = fields_wire lib fs @ rest" and "list_all2 out_for fs css"
    and "\<forall>d. F_data d \<in> set fs \<longrightarrow> length d < length (contents b)" and "length (concat css) \<le> 256"
  shows "\<exists>b' outs rc. ssh_buffer_unpack mem lib b (map field_char fs) (concat css) = Some (b', outs, rc) \<and>
    (rc = - 1 \<and> out_of_memory mem lib fs \<or>
     rc = 0 \<and> buffer_inv b' \<and> contents b' = rest \<and>
     (\<exists>css'. outs = concat css' @ [Out_canary SSH_BUFFER_PACK_END] \<and> list_all2 (out_holds bn_value) fs css'))"
proof -
  let ?tail = "[Out_canary SSH_BUFFER_PACK_END] :: 'a out_list" and ?n = "length (concat css)"
  have ml: "length (contents b) \<le> unat (ssh_buffer_get_len b)"
    "\<forall>d. F_data d \<in> set fs \<longrightarrow> length d < unat (ssh_buffer_get_len b)"
    using assms(7) unat_get_len [OF assms(1)] by simp_all
  have n: "0 + length (concat css) \<le> ?n" by simp
  have ne: "fs \<noteq> [] \<or> (- 1 :: int) = 0" using assms(4) by simp
  from loop_wire [OF assms(1-3) ml(1) assms(5,6) ml(2) n ne, of ?tail "[]"]
  obtain b' q past' ap rc m where
    l: "unpack_loop mem lib (ssh_buffer_get_len b) ?n (map field_char fs) (concat css @ ?tail) [] 0 (- 1) b =
      Some (b', q, past', ap, Inr (rc, m))"
    and k: "rc = - 1 \<and> out_of_memory mem lib fs \<or>
       (\<exists>css'. rc = 0 \<and> q = [] \<and> ap = ?tail \<and> past' = concat css' \<and> list_all2 (out_holds bn_value) fs css' \<and>
         m = 0 + length past' \<and> buffer_inv b' \<and> contents b' = rest)"
    unfolding append_Nil by blast
  have "list_all2 out_typed (map field_char fs) css"
    using assms(6) by (auto simp: list_all2_map1 intro: list_all2_mono out_for_typed)
  then have typed: "outs_typed (map field_char fs) css" by (simp add: outs_typed_def)
  from unpack_typed [OF assms(1) typed, of lib] assms(4) obtain b'' outs rc'' where
    run: "ssh_buffer_unpack mem lib b (map field_char fs) (concat css) = Some (b'', outs, rc'')" by auto
  from k show ?thesis
  proof
    assume f: "rc = - 1 \<and> out_of_memory mem lib fs"
    then have "rc'' = - 1" using run l assms(8)
      by (auto simp: ssh_buffer_unpack_def ssh_buffer_unpack_argc_def ssh_buffer_unpack_va_def Let_def
          split: option.splits bind_splits if_splits)
    with run f show ?thesis by blast
  next
    assume "\<exists>css'. rc = 0 \<and> q = [] \<and> ap = ?tail \<and> past' = concat css' \<and> list_all2 (out_holds bn_value) fs css' \<and>
         m = 0 + length past' \<and> buffer_inv b' \<and> contents b' = rest"
    then obtain css' where e: "rc = 0" "q = []" "ap = ?tail" "past' = concat css'"
        "list_all2 (out_holds bn_value) fs css'" "m = length past'" "buffer_inv b'" "contents b' = rest" by auto
    have "outs_typed (map field_char fs) css'"
      using e(5) unfolding outs_typed_def by (auto simp: list_all2_map1 intro: list_all2_mono holds_typed)
    then have "length (concat css') = ?n"
      using outs_typed_length typed by metis
    then have "ssh_buffer_unpack mem lib b (map field_char fs) (concat css) = Some (b', concat css' @ ?tail, 0)"
      using l e(1-4,6) assms(8)
      by (simp add: ssh_buffer_unpack_def ssh_buffer_unpack_argc_def ssh_buffer_unpack_va_def Let_def)
    with e show ?thesis by blast
  qed
qed

end

text \<open>C23: what one side packs the other unpacks. If a list of fields was packed into an empty
  buffer, unpacking with the same format and pointers of matching types gives every field back
  with its value (a string with its content, a big number with its value) and leaves the buffer
  empty; it can fail only when memory or the crypto library does. The raw block fields must be
  shorter than the whole content.\<close>

theorem pack_unpack_roundtrip:
  assumes "pack_setting mem lib v" and "buffer_inv b" and "contents b = []"
    and "list_all field_ok fs" and "list_all (unpackable lib) fs" and "fs \<noteq> []"
    and "length (fields_args fs) \<le> 256"
    and "ssh_buffer_pack mem lib b (map field_char fs) (fields_args fs) = Some (b1, 0)"
    and "list_all2 out_for fs css" and "length (concat css) \<le> 256"
    and "\<forall>d. F_data d \<in> set fs \<longrightarrow> length d < length (fields_wire lib fs)"
  shows "\<exists>b2 outs rc. ssh_buffer_unpack mem lib b1 (map field_char fs) (concat css) = Some (b2, outs, rc) \<and>
    (rc = - 1 \<and> out_of_memory mem lib fs \<or>
     rc = 0 \<and> buffer_inv b2 \<and> contents b2 = [] \<and>
     (\<exists>css'. outs = concat css' @ [Out_canary SSH_BUFFER_PACK_END] \<and> list_all2 (out_holds v) fs css'))"
proof -
  from pack_setting.pack_all [OF assms(1,2,4,6,7)] assms(3,8)
  have b1: "buffer_inv b1" "contents b1 = fields_wire lib fs @ []" by (auto simp: packs_def)
  with assms(11) have "\<forall>d. F_data d \<in> set fs \<longrightarrow> length d < length (contents b1)" by simp
  from pack_setting.unpack_wire [OF assms(1) b1(1) assms(4-6) b1(2) assms(9) this assms(10)]
  show ?thesis .
qed

theorem pack_unpack_roundtrip_witness:
  "\<exists>b1. (\<exists>rc. ssh_buffer_pack (zero_alloc 1000) word_bignum empty_buffer ''bd''
      [VA_int 94, VA_int 7] = Some (b1, rc) \<and> rc = 0) \<and>
    (\<exists>b2 outs rc. ssh_buffer_unpack (zero_alloc 1000) word_bignum b1 ''bd'' [Out_u8 0, Out_u32 0] =
       Some (b2, outs, rc) \<and> (rc = 0 \<longrightarrow> outs = [Out_u8 94, Out_u32 7, Out_canary SSH_BUFFER_PACK_END]))"
proof -
  let ?fs = "[F_byte 94, F_dword 7] :: u64 field list" and ?css = "[[Out_u8 0], [Out_u32 0]] :: u64 out_list list"
  have "map_option snd (ssh_buffer_pack (zero_alloc 1000) word_bignum empty_buffer ''bd''
      [VA_int 94, VA_int 7]) = Some 0" by (simp add: pack_eval empty_buffer_def)
  then obtain b1 where p: "ssh_buffer_pack (zero_alloc 1000) word_bignum empty_buffer (map field_char ?fs)
      (fields_args ?fs) = Some (b1, 0)" by auto
  have h: "list_all field_ok ?fs" "list_all (unpackable word_bignum) ?fs" "?fs \<noteq> []"
    "length (fields_args ?fs) \<le> 256" "list_all2 out_for ?fs ?css" "length (concat ?css) \<le> 256"
    "\<forall>d. F_data d \<in> set ?fs \<longrightarrow> length d < length (fields_wire word_bignum ?fs)" by simp_all
  from pack_unpack_roundtrip [OF sample_pack.pack_setting_axioms empty_buffer_inv h(1-4) p h(5-7)]
  obtain b2 outs rc where u: "ssh_buffer_unpack (zero_alloc 1000) word_bignum b1 ''bd'' [Out_u8 0, Out_u32 0] =
      Some (b2, outs, rc)" "rc = 0 \<longrightarrow> (\<exists>css'. outs = concat css' @ [Out_canary SSH_BUFFER_PACK_END] \<and>
      list_all2 (out_holds unat) ?fs css')" by auto
  from u(2) have "rc = 0 \<longrightarrow> outs = [Out_u8 94, Out_u32 7, Out_canary SSH_BUFFER_PACK_END]"
    by (auto simp: list_all2_Cons1)
  with p u(1) show ?thesis by auto
qed

text \<open>The test of a raw block against the content is off by one: \<open>ssh_buffer_unpack\<close> refuses to
  read a block that is the whole content, which \<open>ssh_buffer_pack\<close> wrote.\<close>

theorem unpack_whole_block_refused:
  "map_option (\<lambda>(b, rc). (contents b, rc)) (ssh_buffer_pack (zero_alloc 100) word_bignum empty_buffer ''P''
      [VA_long 2, VA_pointer (Some [5, 6])]) = Some ([5, 6], 0) \<and>
   (\<forall>b mem x. buffer_inv b \<and> contents b = [5, 6] \<longrightarrow>
      ssh_buffer_unpack mem word_bignum b ''P'' [Out_size 2, Out_data x] =
        Some (b, [Out_size 2, Out_data x, Out_canary SSH_BUFFER_PACK_END], - 1))"
proof (intro conjI allI impI)
  show "map_option (\<lambda>(b, rc). (contents b, rc)) (ssh_buffer_pack (zero_alloc 100) word_bignum empty_buffer ''P''
      [VA_long 2, VA_pointer (Some [5, 6])]) = Some ([5, 6], 0)"
    by (simp add: pack_eval empty_buffer_def contents_def blit_0 segment_def)
  fix b mem x assume b: "buffer_inv b \<and> contents b = [5, 6]"
  then have "unat (ssh_buffer_get_len b) = 2" using unat_get_len by auto
  then have "ssh_buffer_get_len b = 2" by (simp add: word_unat_eq_iff)
  then show "ssh_buffer_unpack mem word_bignum b ''P'' [Out_size 2, Out_data x] =
        Some (b, [Out_size 2, Out_data x, Out_canary SSH_BUFFER_PACK_END], - 1)"
    by (simp add: ssh_buffer_unpack_def ssh_buffer_unpack_argc_def ssh_buffer_unpack_va_def
        unpack_one_def Let_def)
qed

theorem unpack_whole_block_refused_witness:
  "\<exists>b. buffer_inv b \<and> contents b = [5, 6] \<and>
     ssh_buffer_unpack (zero_alloc 100) word_bignum b ''P'' [Out_size 2, Out_data None] =
       Some (b, [Out_size 2, Out_data None, Out_canary SSH_BUFFER_PACK_END], - 1)"
proof -
  let ?b = "empty_buffer\<lparr>buf_used := 2, buf_data := [5, 6, 0, 0, 0, 0, 0, 0]\<rparr>"
  have "buffer_inv ?b" "contents ?b = [5, 6]"
    by (simp_all add: empty_buffer_def buffer_inv_def contents_def segment_def)
  with unpack_whole_block_refused show ?thesis by blast
qed

section \<open>Big numbers on the wire\<close>

lemma be_value_Cons: "be_value (x # xs) = unat x * 256 ^ length xs + be_value xs"
proof -
  have "foldl (\<lambda>n b. 256 * n + unat b) n ys = n * 256 ^ length ys + foldl (\<lambda>n b. 256 * n + unat b) 0 ys"
    for n and ys :: bytes
  proof (induction ys arbitrary: n)
    case Nil then show ?case by simp
  next
    case (Cons y ys)
    from Cons [of "256 * n + unat y"] Cons [of "unat y"] show ?case by (simp add: algebra_simps)
  qed
  from this [of "unat x" xs] show ?thesis by (simp add: be_value_def)
qed

lemma be_value_zeros: "be_value (replicate k 0 @ bs) = be_value bs"
  by (induction k) (simp_all add: be_value_zero)

context pack_setting
begin

lemma bn_bytes_top:
  assumes "bn_bytes lib x 0 = y # ys"
  shows "unat y < 128"
proof (rule ccontr)
  assume y: "\<not> unat y < 128"
  let ?k = "bignum_num_bits lib x" and ?bs = "bignum_bn2bin lib x"
  have "\<not> (?k mod 8 = 0 \<and> bignum_is_bit_set lib x (int ?k - 1))"
    using assms y by (auto simp: bn_bytes_def)
  then have bs: "?bs = y # ys" and no: "\<not> (?k mod 8 = 0 \<and> bignum_is_bit_set lib x (int ?k - 1))"
    using assms by (auto simp: bn_bytes_def)
  have len: "Suc (length ys) = (?k + 7) div 8" using bn2bin [of x] num_bytes [of x] bs by simp
  have "128 * 256 ^ length ys \<le> unat y * 256 ^ length ys" using y by simp
  also have "\<dots> \<le> bn_value x" using bn2bin [of x] bs by (simp add: be_value_Cons)
  finally have "(2 :: nat) ^ (7 + 8 * length ys) \<le> bn_value x" by (simp add: power_add power_mult)
  with num_bits [of x] have "(2 :: nat) ^ (7 + 8 * length ys) < 2 ^ ?k" by linarith
  then have "7 + 8 * length ys < ?k" by (rule power_less_imp_less_exp [rotated]) simp
  with len have k: "?k = 8 + 8 * length ys" by linarith
  have "bn_value x div 2 ^ (?k - 1) = 1"
  proof (rule div_nat_eqI)
    show "2 ^ (?k - 1) * 1 \<le> bn_value x" using num_bits [of x] k by simp
    show "bn_value x < 2 ^ (?k - 1) * Suc 1"
      using num_bits [of x] k power_Suc [of "2 :: nat" "?k - 1"] by simp
  qed
  then have "bit (bn_value x) (?k - 1)" by (simp add: bit_iff_odd)
  moreover have "int ?k - 1 = int (?k - 1)" using k by simp
  ultimately have "bignum_is_bit_set lib x (int ?k - 1)"
    by (simp only: is_bit_set nat_int of_nat_0_le_iff simp_thms)
  with no k show False by simp
qed

lemma mpint_plain:
  assumes "ssh_make_bignum_string mem lib num = Some s"
  shows "string_wf s \<and> be_value (string_content s) = bn_value num \<and>
    (\<forall>x xs. string_content s = x # xs \<longrightarrow> unat x < 128)"
  using bignum_string [of num 0 s] assms bn_bytes_value bn_bytes_top
  by (auto simp: ssh_make_bignum_string_def)

lemma mpint_padded:
  assumes "ssh_make_padded_bignum_string mem lib num (unat n) = Some t" and "n \<noteq> 0"
  shows "string_wf t \<and> be_value (string_content t) = bn_value num \<and>
    length (string_content t) = unat (n :: u64)"
proof -
  have n: "unat n \<noteq> 0" using assms(2) by (simp add: unat_eq_0)
  have lt: "unat n < 18446744073709551616" using unsigned_less [of n] by simp
  have le: "bignum_num_bytes lib num \<le> unat n"
    using assms(1) n by (auto simp: ssh_make_padded_bignum_string_def make_bignum_string_def Let_def
        split: if_splits)
  show ?thesis
    using bignum_string [OF assms(1) [unfolded ssh_make_padded_bignum_string_def] lt] n le bn2bin [of num]
    by (simp add: bn_bytes_def be_value_zeros)
qed

end

text \<open>C38: a big number is written as an SSH \<open>mpint\<close>: its bytes most significant first, with one
  leading zero byte exactly when the top bit would otherwise be set, so that the peer reads the
  same value and never a negative one; padding to a fixed length keeps the value and gives that
  length.\<close>

theorem bignum_string_mpint:
  assumes "pack_setting mem lib v"
    and "ssh_make_bignum_string mem lib num = Some s"
    and "ssh_make_padded_bignum_string mem lib num (unat n) = Some t" and "n \<noteq> 0"
  shows "string_wf s \<and> be_value (string_content s) = v num \<and>
    (\<forall>x xs. string_content s = x # xs \<longrightarrow> unat x < 128) \<and>
    string_wf t \<and> be_value (string_content t) = v num \<and> length (string_content t) = unat (n :: u64)"
  using pack_setting.mpint_plain [OF assms(1,2)] pack_setting.mpint_padded [OF assms(1,3,4)] by blast

theorem bignum_string_mpint_witness:
  "\<exists>s. ssh_make_bignum_string (zero_alloc 100) word_bignum 200 = Some s \<and>
     string_wf s \<and> be_value (string_content s) = 200"
proof -
  have "bit (200 :: u64) 7" "\<not> bit (200 :: u64) 8" by simp_all
  then have e: "ssh_make_bignum_string (zero_alloc 100) word_bignum 200 \<noteq> None"
    "ssh_make_padded_bignum_string (zero_alloc 100) word_bignum 200 (unat (4 :: u64)) \<noteq> None"
    by (simp_all add: ssh_make_bignum_string_def ssh_make_padded_bignum_string_def make_bignum_string_def
        word_bignum_def ssh_string_new_def STRING_SIZE_MAX_def zero_alloc_def sizeof_ssh_string_def)
  then obtain s t where "ssh_make_bignum_string (zero_alloc 100) word_bignum 200 = Some s"
    "ssh_make_padded_bignum_string (zero_alloc 100) word_bignum 200 (unat (4 :: u64)) = Some t" by blast
  from bignum_string_mpint [OF sample_pack.pack_setting_axioms this] this(1) show ?thesis by auto
qed

end
