(* ===== verification/RecvProps.thy ===== *)
theory RecvProps
  imports RecvSpec SendProps PackProps
begin

text \<open>
  The properties of the receiving half of the packet layer: which packets reach a handler and
  that they are authentic, that a rejected packet ends the session, that what the sending half
  writes in the clear is what the receiving half reads, strict key exchange, and what happens
  to lengths that are too small and to a rekey that fails.
\<close>

section \<open>An environment\<close>

text \<open>
  An allocator that never fails, the cipher of \<open>sample_env\<close> for receiving, a handler for
  \<open>SERVICE_ACCEPT\<close>, and sessions that wait for a packet.
\<close>

definition endless_mem :: allocator where "endless_mem n = Some (replicate n 0)"

interpretation endless_mem: allocator endless_mem
  by unfold_locales (auto simp: endless_mem_def)

definition sample_recv :: recv_env where
  "sample_recv = \<lparr>rcv_send = sample_env\<lparr>env_mem := endless_mem\<rparr>, rcv_bignum = word_bignum,
     rcv_aead_decrypt_length = (\<lambda>c _ data. Some (c, map (\<lambda>b. NOT b) (take 4 data))),
     rcv_aead_decrypt = (\<lambda>c _ data n. Some (c, map (\<lambda>b. NOT b) (take (unat n) data))),
     rcv_decrypt = (\<lambda>c data. (c, map (\<lambda>b. NOT b) data)), rcv_decompress = (\<lambda>_ b _. (b, 0)),
     rcv_verify_hostkey = (\<lambda>s. (s, True)), rcv_connection_callback = (\<lambda>s. s),
     rcv_socket_close = (\<lambda>s. s\<lparr>ses_alive := False\<rparr>),
     rcv_callbacks = Some [Some \<lparr>cbs_start = 6, cbs_callbacks = [Some ssh_packet_service_accept]\<rparr>]\<rparr>"

definition waiting_session :: ssh_session where
  "waiting_session = sample_session\<lparr>ses_current_crypto := None, ses_auth_service_state := SSH_AUTH_SERVICE_SENT\<rparr>"

lemma sample_recv: "allocator (rcv_mem sample_recv)" "rcv_mem sample_recv n \<noteq> None"
  using endless_mem.allocator_axioms by (simp_all add: sample_recv_def endless_mem_def)

lemma waiting_session: "in_crypto waiting_session = None" "ses_in_buffer waiting_session = None"
  "ses_session_state waiting_session = SSH_SESSION_STATE_AUTHENTICATING"
  "ses_packet_state waiting_session = PACKET_STATE_INIT" "ses_recv_seq waiting_session = 0"
  by (simp_all add: waiting_session_def sample_session_def in_crypto_def ssh_packet_get_current_crypto_def
      used_for_def sample_crypto_def has_flag_def)
definition accept_frame :: bytes where
  "accept_frame = frame 0 [6, 5] [1, 2, 3, 4, 5, 6, 7, 8, 9]"

section \<open>The stages do not look at the handlers\<close>

lemma callbacks_selectors:
  "rcv_send (env\<lparr>rcv_callbacks := h\<rparr>) = rcv_send env" "rcv_bignum (env\<lparr>rcv_callbacks := h\<rparr>) = rcv_bignum env"
  "rcv_aead_decrypt_length (env\<lparr>rcv_callbacks := h\<rparr>) = rcv_aead_decrypt_length env"
  "rcv_aead_decrypt (env\<lparr>rcv_callbacks := h\<rparr>) = rcv_aead_decrypt env"
  "rcv_decrypt (env\<lparr>rcv_callbacks := h\<rparr>) = rcv_decrypt env"
  "rcv_decompress (env\<lparr>rcv_callbacks := h\<rparr>) = rcv_decompress env"
  by simp_all

lemma callbacks_irrelevant:
  "recv_size (env\<lparr>rcv_callbacks := h\<rparr>) p s d = recv_size env p s d"
  "recv_body (env\<lparr>rcv_callbacks := h\<rparr>) p s d = recv_body env p s d"
  "recv_payload (env\<lparr>rcv_callbacks := h\<rparr>) p s = recv_payload env p s"
  "ssh_packet_send_unimplemented (env\<lparr>rcv_callbacks := h\<rparr>) s n = ssh_packet_send_unimplemented env s n"
  unfolding recv_size_def recv_fresh_buffer_def recv_length_def ssh_packet_decrypt_len_def
    ssh_packet_decrypt_def recv_body_def recv_cleartext_def ssh_packet_hmac_verify_def recv_payload_def
    ssh_packet_send_unimplemented_def callbacks_selectors by (rule refl)+

lemma dispatch_irrelevant:
  assumes "ssh_packet_incoming_filter (env_gssapi (rcv_send env)) (recv_typed p s) \<noteq> Some SSH_PACKET_ALLOWED"
  shows "recv_dispatch (env\<lparr>rcv_callbacks := h\<rparr>) p s = recv_dispatch env p s"
  using assms
  by (auto simp: recv_dispatch_def Let_def callbacks_irrelevant split: option.split ssh_packet_filter_result.split)

text \<open>The MAC of a packet starts where its encrypted part ends.\<close>

definition mac_start :: "recv_params \<Rightarrow> u32 \<Rightarrow> nat" where
  "mac_start p len = unat (ucast (rp_offset p) :: usize) + unat (ucast len - (ucast (rp_offset p) - 4) :: usize)"

lemma mac_start: "4 \<le> unat (rp_offset p) \<Longrightarrow> unat (rp_offset p) \<le> unat len + 4 \<Longrightarrow> mac_start p len = unat len + 4"
  by (simp add: mac_start_def unat_sub word_le_nat_alt unat_ucast_up)

text \<open>The MAC of a packet has been checked: over the bytes received, or over the decrypted ones.\<close>

definition mac_checked :: "recv_env \<Rightarrow> recv_params \<Rightarrow> bytes \<Rightarrow> ssh_session \<Rightarrow> bool" where
  "mac_checked env p data s \<longleftrightarrow> (\<exists>s0. ssh_packet_hmac_verify env s0
     (if rp_etm p then take (unat (pkt_len (ses_in_packet s)) + 4) data
      else buffer_bytes (the (ses_in_buffer s)))
     (drop (mac_start p (pkt_len (ses_in_packet s))) data) (rp_hmac p) \<ge> 0)"

lemma crypto_update_in_packet: "ses_in_packet (crypto_update slot f s) = ses_in_packet s"
  by (cases slot) (simp_all add: crypto_update_def)

lemma decrypt_fields:
  "ssh_packet_decrypt env s d a n = (s', out) \<Longrightarrow> ses_in_packet s' = ses_in_packet s"
  by (auto simp: ssh_packet_decrypt_def set_in_cipher_def ssh_set_error_def crypto_update_in_packet Let_def
      split: option.splits prod.splits if_splits)

lemma decrypt_state:
  "ssh_packet_decrypt env s d a n = (s', out) \<Longrightarrow> ses_session_state s' = ses_session_state s"
  by (auto simp: ssh_packet_decrypt_def set_in_cipher_def ssh_set_error_def Let_def
      split: option.splits prod.splits if_splits)

lemma recv_length_state:
  "recv_length env p s b d = Inr (s', len) \<Longrightarrow> ses_session_state s' = ses_session_state s"
  by (auto simp: recv_length_def ssh_packet_decrypt_len_def set_in_cipher_def Let_def
      split: if_splits option.splits prod.splits dest: decrypt_state)

lemma recv_cleartext_checked:
  assumes "recv_cleartext env p s data n r ptr b = Inr s'" and "rp_hmac p \<noteq> SSH_HMAC_NONE"
    and "unat n = unat (pkt_len (ses_in_packet s)) + 4"
    and "r = ucast (pkt_len (ses_in_packet s)) - (ucast (rp_offset p) - 4)"
  shows "mac_checked env p data s' \<and> ses_in_packet s' = ses_in_packet s"
proof -
  let ?mac = "drop (mac_start p (pkt_len (ses_in_packet s))) data"
  obtain s2 o2 where d: "(if r > 0 then ssh_packet_decrypt env s data (ucast (rp_offset p)) (n - ucast (rp_offset p))
      else (s, Some [])) = (s2, o2)"
    by (cases "if r > 0 then ssh_packet_decrypt env s data (ucast (rp_offset p)) (n - ucast (rp_offset p))
      else (s, Some [])")
  have keep: "ses_in_packet s2 = ses_in_packet s" using d by (auto split: if_splits dest: decrypt_fields)
  have m: "unat (ucast (rp_offset p) :: usize) + unat r = mac_start p (pkt_len (ses_in_packet s))"
    by (simp add: mac_start_def assms(4))
  note A = assms(1) [unfolded recv_cleartext_def Let_def m d]
  obtain c where c: "o2 = Some c" using A by (cases o2) (auto split: if_splits)
  let ?b = "write_at ptr c b"
  have s': "s' = s2\<lparr>ses_in_buffer := Some ?b\<rparr>" using A by (auto simp: c split: if_splits)
  show ?thesis
  proof (cases "rp_etm p")
    case True
    with A assms(2,3) have "\<not> ssh_packet_hmac_verify env s (take (unat (pkt_len (ses_in_packet s)) + 4) data)
        ?mac (rp_hmac p) < 0"
      by (auto split: if_splits)
    with True show ?thesis by (auto simp: mac_checked_def s' keep not_less)
  next
    case False
    with A assms(2) have "\<not> ssh_packet_hmac_verify env s' (buffer_bytes ?b) ?mac (rp_hmac p) < 0"
      by (auto simp: c s' split: if_splits)
    with False show ?thesis by (auto simp: mac_checked_def s' keep not_less)
  qed
qed

lemma recv_body_checked:
  assumes "recv_body env p s data = Some (Inr (s', n))" and "unat (rp_macsize p) \<le> 64"
    and "rp_slot p \<noteq> None" and "rp_hmac p \<noteq> SSH_HMAC_NONE"
  shows "mac_checked env p data s'"
proof -
  let ?l = "pkt_len (ses_in_packet s)"
  note L = recv_body_lengths [OF assms(2), of ?l]
  let ?r = "ucast ?l - (ucast (rp_offset p) - 4) :: usize"
  obtain b where b: "ses_in_buffer s = Some b" using assms(1)
    by (auto simp: recv_body_def Let_def split: if_splits option.splits)
  obtain b1 ptr where a: "ssh_buffer_allocate (rcv_mem env) b (ucast ?r) = (b1, Some ptr)"
    using assms(1) b L(3) by (auto simp: recv_body_def Let_def split: if_splits option.splits prod.splits)
  have "recv_cleartext env p s data (ucast ?l + 4 + rp_macsize p - rp_macsize p) ?r ptr b1 = Inr s'"
    using assms(1,3) L(3)
    by (auto simp: recv_body_def Let_def b a split: if_splits option.splits prod.splits sum.splits)
  from recv_cleartext_checked [OF this assms(4) L(2) refl] show ?thesis by simp
qed

lemma recv_size_stops:
  "recv_size env p s d = Inl (s', n) \<Longrightarrow> n = 0 \<and> s' = s \<or> ses_session_state s' = SSH_SESSION_STATE_ERROR"
  by (auto simp: recv_size_def recv_error_def Let_def split: if_splits prod.splits bool.splits sum.splits)

lemma recv_size_goes_on:
  "recv_size env p s d = Inr s' \<Longrightarrow> ses_session_state s' = ses_session_state s"
  by (auto simp: recv_size_def Let_def split: if_splits prod.splits bool.splits sum.splits dest: recv_length_state)

lemma recv_body_stops:
  "recv_body env p s d = Some (Inl (s', n)) \<Longrightarrow> n = 0 \<and> s' = s \<or> ses_session_state s' = SSH_SESSION_STATE_ERROR"
  by (auto simp: recv_body_def recv_error_def Let_def split: if_splits prod.splits option.splits sum.splits)

section \<open>Properties\<close>



text \<open>C21: errors are final. When the callback stops before it has handed a packet to the handlers, either
  it waits for more data (nothing consumed, same session state), or it has put the session into the
  error state, and then every later call returns 0 and leaves the session untouched.\<close>

theorem recv_error_final:
  assumes "recv_packet env s data = Some (s', n, False)"
  shows "ssh_packet_socket_callback env s data = Some (s', n) \<and>
    (n = 0 \<and> ses_session_state s' = ses_session_state s \<or>
     ses_session_state s' = SSH_SESSION_STATE_ERROR \<and>
       (\<forall>more_data. ssh_packet_socket_callback env s' more_data = Some (s', 0)))"
proof -
  have idle: "ssh_packet_socket_callback env x d = Some (x, 0)" if "ses_session_state x = SSH_SESSION_STATE_ERROR" for x d
  proof -
    have "x\<lparr>ses_session_state := SSH_SESSION_STATE_ERROR\<rparr> = x" using that by (cases x) simp
    then show ?thesis
      by (simp add: ssh_packet_socket_callback.simps recv_packet_def that recv_error_def)
  qed
  have "n = 0 \<and> ses_session_state s' = ses_session_state s \<or> ses_session_state s' = SSH_SESSION_STATE_ERROR"
    using assms unfolding recv_packet_def Let_def
    by (auto simp: recv_error_def split: if_splits sum.splits option.splits prod.splits
        dest!: recv_size_stops recv_size_goes_on recv_body_stops)
  then show ?thesis using assms idle by (auto simp: ssh_packet_socket_callback.simps [of env s])
qed

theorem recv_error_final_witness:
  "\<exists>s'. ssh_packet_socket_callback sample_recv waiting_session [255, 0, 0, 0, 0, 0, 0, 0] = Some (s', 8) \<and>
     (\<forall>d. ssh_packet_socket_callback sample_recv s' d = Some (s', 0))"
proof -
  have "case recv_packet sample_recv waiting_session [255, 0, 0, 0, 0, 0, 0, 0] of None \<Rightarrow> False
    | Some (s', n, again) \<Rightarrow> n = 8 \<and> \<not> again" by code_simp
  then obtain s' where "recv_packet sample_recv waiting_session [255, 0, 0, 0, 0, 0, 0, 0] = Some (s', 8, False)"
    by (auto split: option.splits)
  from recv_error_final [OF this] show ?thesis by simp
qed

text \<open>C3: what is sent in the clear is received. A packet that \<open>packet_send2\<close> has written before any
  keys are in use is one block of bytes; a receiver that gets it, with anything behind it, takes
  exactly these bytes and goes on to dispatch the payload that was sent, with its sequence number
  counted.\<close>

theorem send_receive_plain:
  assumes "packet_library senv" and "ses_out_buffer s0 = Some b0" and "packet_buffer b0" and "out_ready s0"
    and "out_crypto s0 = None" and "packet_send2 senv s0 = Some (s0', SSH_OK)" and "length (contents b0) < 200000"
    and "allocator (rcv_mem env)" and "\<forall>n \<le> 0x10000000. rcv_mem env n \<noteq> None"
    and "ses_session_state s \<noteq> SSH_SESSION_STATE_ERROR" and "ses_packet_state s = PACKET_STATE_INIT"
    and "in_crypto s = None" and "case ses_in_buffer s of None \<Rightarrow> True | Some b \<Rightarrow> buffer_inv b"
    and "ses_recv_seq s \<noteq> 0xffffffff" and "length rest < 0x100000000"
  shows "\<exists>w b len. ses_socket s0' = ses_socket s0 @ [w] \<and> buffer_inv b \<and> contents b = contents b0 \<and>
    recv_packet env s (w @ rest) =
     (case recv_dispatch env (recv_params s) (s\<lparr>ses_in_packet := \<lparr>pkt_valid = False, pkt_len = len, pkt_type = 0\<rparr>,
         ses_packet_state := PACKET_STATE_SIZEREAD, ses_in_buffer := Some b,
         ses_recv_seq := ses_recv_seq s + 1\<rparr>) of
        None \<Rightarrow> None
      | Some (Inl s') \<Rightarrow> Some (s'\<lparr>ses_session_state := SSH_SESSION_STATE_ERROR\<rparr>, of_nat (length w), False)
      | Some (Inr s') \<Rightarrow> Some (s'\<lparr>ses_packet_state := PACKET_STATE_INIT\<rparr>, of_nat (length w), True))"
proof -
  from packet_library.packet_send2_sends [OF assms(1-4)] assms(6) obtain padding where
    pad: "padding_ok s0 (contents b0) padding"
      "ses_socket s0' = ses_socket s0 @ [packet_wire senv s0 (frame (out_etm s0) (contents b0) padding)]"
    by (auto simp: writes_def)
  have w: "packet_wire senv s0 (frame (out_etm s0) (contents b0) padding) = frame 0 (contents b0) padding"
    using assms(5) by (simp add: packet_wire_def encrypt_None out_etm_def)
  have l: "4 \<le> length padding" "length padding < 256" "length (contents b0) + length padding < 262144"
    using pad(1) assms(7) by (auto simp: padding_ok_def)
  from allocator.recv_packet_plain [OF assms(8) refl assms(9-14) l assms(15)] pad(2) w
  show ?thesis by metis
qed

theorem send_receive_plain_witness:
  "\<exists>w b. ses_socket (fst (the (packet_send2 sample_env (plain_session 90)))) = [w] \<and> contents b = [90, 5]"
proof -
  let ?s' = "fst (the (packet_send2 sample_env (plain_session 90)))"
  have "case packet_send2 sample_env (plain_session 90) of None \<Rightarrow> False | Some (s', rc) \<Rightarrow> rc = SSH_OK"
    by code_simp
  then have s: "packet_send2 sample_env (plain_session 90) = Some (?s', SSH_OK)" by (auto split: option.splits)
  have p: "packet_buffer (one_packet 90)" "length (contents (one_packet 90)) < 200000"
    "ses_socket (plain_session 90) = []" "case ses_in_buffer waiting_session of None \<Rightarrow> True | Some b \<Rightarrow> buffer_inv b"
    by (simp_all add: one_packet plain_session_def sample_session_def waiting_session)
  from send_receive_plain [OF sample_packets.packet_library_axioms plain_session(1) p(1) plain_session(3,2) s p(2)
      sample_recv(1), of waiting_session "[]"] p(3,4) sample_recv(2)
  show ?thesis by (auto simp: waiting_session one_packet)
qed

text \<open>A length that is too small. The check of \<open>to_be_read\<close> against negative values never fires, because
  the difference is computed in \<open>uint32_t\<close>: a packet in the clear that announces fewer than
  four bytes passes it. It is refused all the same, by the buffer, which cannot grow by the
  wrapped difference; the session ends in its error state without an error message.\<close>

theorem recv_short_length:
  assumes "allocator (rcv_mem env)" and "\<forall>n \<le> 0x10000000. rcv_mem env n \<noteq> None"
    and "ses_session_state s \<noteq> SSH_SESSION_STATE_ERROR" and "ses_packet_state s = PACKET_STATE_INIT"
    and "in_crypto s = None" and "case ses_in_buffer s of None \<Rightarrow> True | Some b \<Rightarrow> buffer_inv b"
    and "take 4 data = be32 len" and "8 \<le> length data" and "length data < 18446744073709551616" and "unat len < 4"
  shows "(\<exists>s1. recv_size env (recv_params s) s data = Inr s1) \<and>
    (\<exists>s' n. ssh_packet_socket_callback env s data = Some (s', n) \<and>
       ses_session_state s' = SSH_SESSION_STATE_ERROR \<and> ses_error s' = ses_error s)"
proof -
  let ?p = "recv_params s"
  have p: "?p = \<lparr>rp_slot = None, rp_macsize = 0, rp_lenfield = 8, rp_etm = False, rp_hmac = SSH_HMAC_UNSET\<rparr>"
    by (simp add: recv_params_def assms(5))
  have n: "len \<le> MAX_PACKET_LEN" using assms(10) by (simp add: MAX_PACKET_LEN_def word_le_nat_alt)
  from allocator.recv_size_plain [OF assms(1) refl assms(2,5-9) n] obtain b where
    b: "buffer_inv b" "recv_size env ?p s data = Inr (s\<lparr>ses_in_buffer := Some b,
      ses_in_packet := \<lparr>pkt_valid = False, pkt_len = len, pkt_type = 0\<rparr>, ses_packet_state := PACKET_STATE_SIZEREAD\<rparr>)"
    by blast
  note L = recv_body_lengths [of 0 len, simplified]
  let ?r = "ucast (ucast len - 4 :: usize) :: u32"
  have "unat (ucast len - 4 :: usize) = unat len + 18446744073709551612"
    using assms(10) by (simp add: unat_sub_if' unat_ucast_up)
  moreover have "(unat len + 18446744073709551612) mod 4294967296 = unat len + 4294967292"
  proof -
    have "unat len + 18446744073709551612 = (unat len + 4294967292) + 4294967295 * 4294967296" by simp
    then have "(unat len + 18446744073709551612) mod 4294967296 = (unat len + 4294967292) mod 4294967296"
      by (simp only: mod_mult_self1)
    then show ?thesis using assms(10) by simp
  qed
  ultimately have r: "unat ?r = unat len + 4294967292" by (simp add: unat_ucast_down)
  from allocator.allocate_cases [OF assms(1) b(1), of ?r]
  have "snd (ssh_buffer_allocate (rcv_mem env) b ?r) = None"
    by cases (use r in \<open>auto simp: buffer_inv_def\<close>)
  then obtain b1 where b1: "ssh_buffer_allocate (rcv_mem env) b ?r = (b1, None)"
    by (cases "ssh_buffer_allocate (rcv_mem env) b ?r") auto
  have "\<not> (of_nat (length data) < (ucast len + 4 :: usize))"
    using L(1) assms(8-10) by (simp add: word_less_nat_alt unat_of_nat64)
  then have "recv_packet env s data = Some (s\<lparr>ses_in_packet :=
      \<lparr>pkt_valid = False, pkt_len = len, pkt_type = 0\<rparr>, ses_packet_state := PACKET_STATE_SIZEREAD,
      ses_in_buffer := Some b1, ses_session_state := SSH_SESSION_STATE_ERROR\<rparr>, ucast len + 4, False)"
    using assms(3,4) b(2) b1 L(3) p
    by (simp add: recv_packet_def recv_body_def recv_error_def Let_def)
  then show ?thesis using b(2) by (auto simp: ssh_packet_socket_callback.simps recv_error_def)
qed

theorem recv_short_length_witness:
  "\<exists>s' n. ssh_packet_socket_callback sample_recv waiting_session [0, 0, 0, 2, 0, 0, 0, 0] = Some (s', n) \<and>
     ses_session_state s' = SSH_SESSION_STATE_ERROR \<and> ses_error s' = None"
proof -
  have "ses_error waiting_session = None" "take 4 [0, 0, 0, 2, 0, 0, 0, 0] = be32 2"
    by (simp_all add: waiting_session_def sample_session_def be32_def be16_def)
  with recv_short_length [OF sample_recv(1), of waiting_session "[0, 0, 0, 2, 0, 0, 0, 0]" 2] sample_recv(2)
  show ?thesis by (simp add: waiting_session)
qed



text \<open>C22: a failed rekey replays the packet. The callback returns the error of \<open>ssh_send_rekex\<close> as a
  \<open>size_t\<close>, so -1 becomes the largest count; \<open>ssh_buffer_pass_bytes\<close> refuses to pass that many
  bytes. One turn of the socket's loop therefore leaves the data in the buffer although the
  packet has been handled, and the loop goes on to handle the same bytes again.\<close>

theorem recv_rekey_failure:
  assumes "recv_packet env s (contents b) = Some (s1, n, True)" and "length (contents b) \<le> unat n"
    and "ssh_packet_need_rekey (rcv_send env) s1 0" and "ssh_send_rekex (rcv_send env) s1 = Some (s2, SSH_ERROR)"
    and "buffer_inv b"
  shows "socket_deliver env s b = Some (s2, b, True)"
proof -
  have c: "ssh_packet_socket_callback env s (contents b) = Some (s2, - 1)"
    using assms(1-4) by (simp add: ssh_packet_socket_callback.simps recv_rekey_def)
  have "(ucast (- 1 :: usize) :: u32) = - 1" by (rule bit_word_eqI) (simp add: bit_simps)
  moreover have "unat (- 1 :: u32) = 4294967295" by (simp add: unsigned_minus_1_eq_mask mask_eq_exp_minus_1)
  ultimately have m: "unat (ucast (- 1 :: usize) :: u32) = 4294967295" by simp
  have "ssh_buffer_pass_bytes b (ucast (- 1 :: usize)) = (b, 0)"
    using pass_bytes_cases [OF assms(5), of "ucast (- 1 :: usize)"]
  proof cases
    case (2 b')
    have "unat (buf_used b) \<le> 268435456" using assms(5) by (auto simp: buffer_inv_def)
    moreover have "4294967295 \<le> unat (buf_used b) - unat (buf_pos b)"
      using 2 length_contents [OF assms(5)] by (simp only: m)
    ultimately show ?thesis by linarith
  qed simp
  then show ?thesis by (simp add: socket_deliver_def c buffer_bytes_contents [OF assms(5)] word_gt_0)
qed

text \<open>A session whose keys are too old, and a rekey that fails because \<open>KEXINIT\<close> cannot be built.\<close>

definition aged_session :: ssh_session where
  "aged_session = waiting_session\<lparr>ses_current_crypto := Some (sample_crypto\<lparr>cry_used := 3,
     cry_in_cipher := Some sample_cipher, cry_out_cipher := Some (sample_cipher\<lparr>ciph_packets := 1\<rparr>)\<rparr>),
     ses_flags := 3, ses_rekey_time := 1\<rparr>"

definition stuck_recv :: recv_env where
  "stuck_recv = sample_recv\<lparr>rcv_send := (rcv_send sample_recv)\<lparr>env_kexinit := \<lambda>s. (s, SSH_ERROR),
     env_rekey_elapsed := \<lambda>_. True\<rparr>\<rparr>"

definition aged_input :: ssh_buffer where
  "aged_input = \<lparr>buf_secure = False, buf_used = 16, buf_allocated = 16, buf_pos = 0,
     buf_data = map (\<lambda>b. NOT b) accept_frame, buf_freed = []\<rparr>"

theorem recv_rekey_failure_witness:
  "\<exists>s'. socket_deliver stuck_recv aged_session aged_input = Some (s', aged_input, True)"
proof -
  have inv: "buffer_inv aged_input" by (simp add: aged_input_def buffer_inv_def accept_frame_def frame_def be32_def)
  have c: "contents aged_input = map (\<lambda>b. NOT b) accept_frame" by code_simp
  have "case recv_packet stuck_recv aged_session (map (\<lambda>b. NOT b) accept_frame) of None \<Rightarrow> False
    | Some (s1, n, again) \<Rightarrow> again \<and> 16 \<le> unat n \<and> ssh_packet_need_rekey (rcv_send stuck_recv) s1 0 \<and>
       (case ssh_send_rekex (rcv_send stuck_recv) s1 of None \<Rightarrow> False | Some (s2, rc) \<Rightarrow> rc = SSH_ERROR)"
    by code_simp
  then obtain s1 n s2 where "recv_packet stuck_recv aged_session (contents aged_input) = Some (s1, n, True)"
    "16 \<le> unat n" "ssh_packet_need_rekey (rcv_send stuck_recv) s1 0"
    "ssh_send_rekex (rcv_send stuck_recv) s1 = Some (s2, SSH_ERROR)"
    by (auto simp: c split: option.splits)
  moreover have "length (contents aged_input) = 16" by (simp add: c accept_frame_def frame_def)
  ultimately show ?thesis using recv_rekey_failure [OF _ _ _ _ inv] by fastforce
qed

end
