(* ===== verification/Channels.thy ===== *)
theory Channels
  imports PacketRecv
begin

text \<open>
  The channels of \<open>channels.c\<close>: opening, flow control, reading and writing, closing, and the
  handlers of the channel messages; with \<open>ssh_handle_packets_termination\<close> and
  \<open>ssh_blocking_flush\<close> of \<open>session.c\<close>, in which the blocking calls wait.

  A channel pointer is the address of the structure, 0 for \<open>NULL\<close>. The result \<open>None\<close> is undefined
  behaviour, such as the use of a channel that has been freed, or a call that does not return.

  The record \<open>channel_env\<close> has what these functions use from outside: the environment of the packet
  layer, the user's callbacks, the message queue of the server side, the address \<open>calloc\<close> gives
  a new channel, the time-outs of the session and the bytes the socket still holds. What happens
  while a call waits is a list of turns of the event loop, given to the call, which hands on the
  turns it has not used; a call that would wait beyond the end of the list does not return.
\<close>

section \<open>The environment\<close>

datatype channel_event =
    Open_response bool | Write_wontblock u32 | Channel_eof | Channel_close | Exit_status u32
  | Channel_signal bytes | Exit_signal bytes u8 bytes bytes | Request_response | Auth_agent_req

datatype poll_setup = No_socket | No_memory | Not_added | Poll_ready

record poll_turn =
  turn_setup :: poll_setup
  turn_dopoll :: "ssh_session \<Rightarrow> ssh_session \<times> int"
  turn_late :: bool

type_synonym data_callback = "ssh_session \<Rightarrow> nat \<Rightarrow> bytes \<Rightarrow> bool \<Rightarrow> ssh_session \<times> int"

record channel_env =
  chn_send :: packet_env
  chn_bignum :: "u64 bignum_lib"
  chn_notify :: "channel_event \<Rightarrow> nat \<Rightarrow> ssh_session \<Rightarrow> ssh_session"
  chn_data :: "nat \<Rightarrow> data_callback list"
  chn_auth_agent :: "nat \<Rightarrow> bool"
  chn_message :: "nat \<Rightarrow> bytes \<Rightarrow> u8 \<Rightarrow> ssh_session \<Rightarrow> ssh_session"
  chn_calloc :: "ssh_session \<Rightarrow> nat option"
  chn_timeout :: "int option"
  chn_unsent :: "ssh_session \<Rightarrow> nat"

abbreviation (input) chn_mem :: "channel_env \<Rightarrow> allocator" where "chn_mem env \<equiv> env_mem (chn_send env)"

definition CHANNEL_MAX_PACKET :: u32 where "CHANNEL_MAX_PACKET = 32768"
definition WINDOW_DEFAULT :: u32 where "WINDOW_DEFAULT = 64 * CHANNEL_MAX_PACKET"

abbreviation (input) SSH_CHANNEL_FLAG_CLOSED_REMOTE :: u32 where "SSH_CHANNEL_FLAG_CLOSED_REMOTE \<equiv> 1"
abbreviation (input) SSH_CHANNEL_FLAG_CLOSED_LOCAL :: u32 where "SSH_CHANNEL_FLAG_CLOSED_LOCAL \<equiv> 2"
abbreviation (input) SSH_CHANNEL_FLAG_FREED_LOCAL :: u32 where "SSH_CHANNEL_FLAG_FREED_LOCAL \<equiv> 4"
abbreviation (input) SSH_CHANNEL_FLAG_NOT_BOUND :: u32 where "SSH_CHANNEL_FLAG_NOT_BOUND \<equiv> 8"
abbreviation (input) SSH2_EXTENDED_DATA_STDERR :: u32 where "SSH2_EXTENDED_DATA_STDERR \<equiv> 1"
abbreviation (input) SSH_TIMEOUT_INFINITE :: int where "SSH_TIMEOUT_INFINITE \<equiv> - 1"
abbreviation (input) SSH_TIMEOUT_USER :: int where "SSH_TIMEOUT_USER \<equiv> - 2"
abbreviation (input) SSH_TIMEOUT_DEFAULT :: int where "SSH_TIMEOUT_DEFAULT \<equiv> - 3"
abbreviation (input) SSH_TIMEOUT_NONBLOCKING :: int where "SSH_TIMEOUT_NONBLOCKING \<equiv> 0"

section \<open>The channels of a session\<close>

definition channel_at :: "nat \<Rightarrow> ssh_session \<Rightarrow> ssh_channel option" where
  "channel_at channel session = List.find (\<lambda>c. chan_addr c = channel) (ses_channels session)"

definition channel_set :: "nat \<Rightarrow> (ssh_channel \<Rightarrow> ssh_channel) \<Rightarrow> ssh_session \<Rightarrow> ssh_session" where
  "channel_set channel f session =
     session\<lparr>ses_channels := map (\<lambda>c. if chan_addr c = channel then f c else c) (ses_channels session)\<rparr>"

text \<open>An assignment to fields of a channel, which has to be there.\<close>

definition channel_put :: "nat \<Rightarrow> (ssh_channel \<Rightarrow> ssh_channel) \<Rightarrow> ssh_session \<Rightarrow> ssh_session option" where
  "channel_put channel f session = (case channel_at channel session of
     None \<Rightarrow> None | Some _ \<Rightarrow> Some (channel_set channel f session))"

text \<open>Packing into the out buffer, unpacking from the packet that is being handled, and the label
  \<open>error\<close> of the functions that send.\<close>

definition pack_out :: "channel_env \<Rightarrow> string \<Rightarrow> u64 va_list \<Rightarrow> ssh_session \<Rightarrow> (ssh_session \<times> int) option" where
  "pack_out env format args session = do {
     out_buffer \<leftarrow> ses_out_buffer session;
     (out_buffer, rc) \<leftarrow> ssh_buffer_pack (chn_mem env) (chn_bignum env) out_buffer format args;
     Some (session\<lparr>ses_out_buffer := Some out_buffer\<rparr>, rc) }"

definition add_out :: "channel_env \<Rightarrow> bytes option \<Rightarrow> u32 \<Rightarrow> ssh_session \<Rightarrow> (ssh_session \<times> int) option" where
  "add_out env data len session = do {
     out_buffer \<leftarrow> ses_out_buffer session;
     (case ssh_buffer_add_data (chn_mem env) out_buffer data len of (out_buffer, rc) \<Rightarrow>
        Some (session\<lparr>ses_out_buffer := Some out_buffer\<rparr>, rc)) }"

definition unpack_in :: "channel_env \<Rightarrow> string \<Rightarrow> u64 out_list \<Rightarrow> ssh_session \<Rightarrow>
    (ssh_session \<times> u64 out_list \<times> int) option" where
  "unpack_in env format args session = do {
     packet \<leftarrow> ses_in_buffer session;
     (packet, args, rc) \<leftarrow> ssh_buffer_unpack (chn_mem env) (chn_bignum env) packet format args;
     Some (session\<lparr>ses_in_buffer := Some packet\<rparr>, args, rc) }"

definition reinit_out :: "channel_env \<Rightarrow> ssh_session \<Rightarrow> ssh_session" where
  "reinit_out env session = session\<lparr>ses_out_buffer :=
     map_option (\<lambda>b. fst (ssh_buffer_reinit (chn_mem env) b)) (ses_out_buffer session)\<rparr>"

fun out_u32 :: "u64 out_arg \<Rightarrow> u32" where "out_u32 (Out_u32 w) = w" | "out_u32 _ = 0"
fun out_u8 :: "u64 out_arg \<Rightarrow> u8" where "out_u8 (Out_u8 w) = w" | "out_u8 _ = 0"
fun out_cstring :: "u64 out_arg \<Rightarrow> bytes option" where "out_cstring (Out_cstring s) = s" | "out_cstring _ = None"

text \<open>A C string literal, and \<open>strcmp\<close> with one.\<close>

definition c_string :: "string \<Rightarrow> bytes" where "c_string s = map of_char s @ [0]"

definition c_equal :: "bytes \<Rightarrow> string \<Rightarrow> bool" where
  "c_equal block s \<longleftrightarrow> take (length s + 1) block = c_string s"

section \<open>Waiting\<close>

definition ssh_handle_packets :: "poll_turn \<Rightarrow> ssh_session \<Rightarrow> ssh_session \<times> int" where
  "ssh_handle_packets turn session = (case turn_setup turn of
     No_socket \<Rightarrow> (session, SSH_ERROR)
   | No_memory \<Rightarrow> (ssh_set_error SSH_FATAL session, SSH_ERROR)
   | Not_added \<Rightarrow> (session, SSH_ERROR)
   | Poll_ready \<Rightarrow> (case turn_dopoll turn session of (session, rc) \<Rightarrow>
       (if rc = SSH_ERROR then session\<lparr>ses_session_state := SSH_SESSION_STATE_ERROR\<rparr> else session, rc)))"

definition ssh_is_blocking :: "ssh_session \<Rightarrow> bool" where
  "ssh_is_blocking session \<longleftrightarrow> has_flag (ses_flags session) SSH_SESSION_FLAG_BLOCKING"

definition ssh_timeout_elapsed :: "poll_turn \<Rightarrow> int \<Rightarrow> bool" where
  "ssh_timeout_elapsed turn timeout =
    (if timeout = - 2 \<or> timeout = - 1 then False else if timeout = 0 then True else turn_late turn)"

definition wait_timeout :: "channel_env \<Rightarrow> int \<Rightarrow> ssh_session \<Rightarrow> int" where
  "wait_timeout env timeout session =
    (if timeout \<ge> 0 then timeout
     else if ssh_is_blocking session
     then (if timeout = SSH_TIMEOUT_USER \<or> timeout = SSH_TIMEOUT_DEFAULT
           then (case chn_timeout env of Some ms \<Rightarrow> ms | None \<Rightarrow> SSH_TIMEOUT_INFINITE)
           else SSH_TIMEOUT_INFINITE)
     else SSH_TIMEOUT_NONBLOCKING)"

fun wait_loop :: "int \<Rightarrow> (ssh_session \<Rightarrow> bool option) \<Rightarrow> int \<Rightarrow> poll_turn list \<Rightarrow> ssh_session \<Rightarrow>
    (ssh_session \<times> int \<times> poll_turn list) option" where
  "wait_loop timeout_ms fct ret [] session =
     (case fct session of Some True \<Rightarrow> Some (session, ret, []) | _ \<Rightarrow> None)"
| "wait_loop timeout_ms fct ret (turn # turns) session = (case fct session of
     None \<Rightarrow> None
   | Some True \<Rightarrow> Some (session, ret, turn # turns)
   | Some False \<Rightarrow> (case ssh_handle_packets turn session of (session, ret) \<Rightarrow>
       if ret = SSH_ERROR then Some (session, ret, turns)
       else if ssh_timeout_elapsed turn timeout_ms
       then (case fct session of None \<Rightarrow> None
             | Some b \<Rightarrow> Some (session, if b then SSH_OK else SSH_AGAIN, turns))
       else wait_loop timeout_ms fct ret turns session))"

definition ssh_handle_packets_termination :: "channel_env \<Rightarrow> int \<Rightarrow> (ssh_session \<Rightarrow> bool option) \<Rightarrow>
    poll_turn list \<Rightarrow> ssh_session \<Rightarrow> (ssh_session \<times> int \<times> poll_turn list) option" where
  "ssh_handle_packets_termination env timeout fct turns session =
     wait_loop (wait_timeout env timeout session) fct SSH_OK turns session"

definition ssh_flush_termination :: "channel_env \<Rightarrow> ssh_session \<Rightarrow> bool" where
  "ssh_flush_termination env session \<longleftrightarrow>
     chn_unsent env session = 0 \<or> ses_session_state session = SSH_SESSION_STATE_ERROR"

definition ssh_blocking_flush :: "channel_env \<Rightarrow> int \<Rightarrow> poll_turn list \<Rightarrow> ssh_session \<Rightarrow>
    (ssh_session \<times> int \<times> poll_turn list) option" where
  "ssh_blocking_flush env timeout turns session =
    (case ssh_handle_packets_termination env timeout (Some \<circ> ssh_flush_termination env) turns session of
       None \<Rightarrow> None
     | Some (session, rc, turns) \<Rightarrow>
         Some (session, if rc = SSH_ERROR then rc
                        else if \<not> ssh_flush_termination env session then SSH_AGAIN else rc, turns))"

definition ssh_channel_flush :: "channel_env \<Rightarrow> poll_turn list \<Rightarrow> ssh_session \<Rightarrow>
    (ssh_session \<times> int \<times> poll_turn list) option" where
  "ssh_channel_flush env turns session = ssh_blocking_flush env SSH_TIMEOUT_DEFAULT turns session"

section \<open>Creating and freeing\<close>

text \<open>The new channel is the first of the list; 0 is \<open>NULL\<close>.\<close>

definition ssh_channel_new :: "channel_env \<Rightarrow> ssh_session \<Rightarrow> ssh_session \<times> nat" where
  "ssh_channel_new env session =
    (if \<not> has_flag (ses_flags session) SSH_SESSION_FLAG_AUTHENTICATED then (session, 0)
     else case chn_calloc env session of
       None \<Rightarrow> (ssh_set_error SSH_FATAL session, 0)
     | Some channel \<Rightarrow>
       (case ssh_buffer_new (chn_mem env) of None \<Rightarrow> (ssh_set_error SSH_FATAL session, 0)
        | Some stdout_buffer \<Rightarrow>
       (case ssh_buffer_new (chn_mem env) of None \<Rightarrow> (ssh_set_error SSH_FATAL session, 0)
        | Some stderr_buffer \<Rightarrow>
          (session\<lparr>ses_channels := \<lparr>chan_addr = channel, chan_local_channel = 0, chan_local_window = 0,
             chan_local_eof = False, chan_local_maxpacket = 0, chan_remote_channel = 0,
             chan_remote_window = 0, chan_remote_eof = False, chan_remote_maxpacket = 0,
             chan_state = SSH_CHANNEL_STATE_NOT_OPEN, chan_delayed_close = False,
             chan_flags = SSH_CHANNEL_FLAG_NOT_BOUND, chan_stdout_buffer = Some stdout_buffer,
             chan_stderr_buffer = Some stderr_buffer, chan_exit_status = False, chan_exit_code = - 1,
             chan_exit_signal = None, chan_exit_core_dumped = False,
             chan_request_state = SSH_CHANNEL_REQ_STATE_NONE\<rparr> # ses_channels session\<rparr>, channel))))"

definition ssh_channel_do_free :: "nat \<Rightarrow> ssh_session \<Rightarrow> ssh_session" where
  "ssh_channel_do_free channel session =
     session\<lparr>ses_channels := filter (\<lambda>c. chan_addr c \<noteq> channel) (ses_channels session)\<rparr>"

definition ssh_channel_new_id :: "ssh_session \<Rightarrow> ssh_session \<times> u32" where
  "ssh_channel_new_id session =
     (session\<lparr>ses_maxchannel := ses_maxchannel session + 1\<rparr>, ses_maxchannel session + 1)"

definition ssh_channel_from_local :: "ssh_session \<Rightarrow> u32 \<Rightarrow> nat" where
  "ssh_channel_from_local session local_id =
    (case List.find (\<lambda>c. chan_local_channel c = local_id) (ses_channels session) of
       None \<Rightarrow> 0 | Some c \<Rightarrow> chan_addr c)"

definition channel_from_msg :: "channel_env \<Rightarrow> ssh_session \<Rightarrow> (ssh_session \<times> nat) option" where
  "channel_from_msg env session = do {
     (session, args, rc) \<leftarrow> unpack_in env ''d'' [Out_u32 0] session;
     (if rc \<noteq> SSH_OK then Some (ssh_set_error SSH_FATAL session, 0)
      else let channel = ssh_channel_from_local session (out_u32 (args ! 0))
           in Some (if channel = 0 then ssh_set_error SSH_FATAL session else session, channel)) }"

section \<open>Windows and buffers\<close>

definition buffered :: "ssh_buffer option \<Rightarrow> u32" where
  "buffered b = (case b of None \<Rightarrow> 0 | Some b \<Rightarrow> ssh_buffer_get_len b)"

definition grow_window :: "channel_env \<Rightarrow> nat \<Rightarrow> ssh_session \<Rightarrow> (ssh_session \<times> int) option" where
  "grow_window env channel session = do {
     c \<leftarrow> channel_at channel session;
     let used = chan_local_window c + buffered (chan_stdout_buffer c) + buffered (chan_stderr_buffer c);
         increment = (if WINDOW_DEFAULT > used then WINDOW_DEFAULT - used else 0)
     in if increment < WINDOW_DEFAULT div 2 then Some (session, SSH_OK)
        else do {
          (session, rc) \<leftarrow> pack_out env ''bdd'' [VA_int (ucast SSH2_MSG_CHANNEL_WINDOW_ADJUST),
             VA_int (chan_remote_channel c), VA_int increment] session;
          if rc \<noteq> SSH_OK then Some (reinit_out env (ssh_set_error SSH_FATAL session), SSH_ERROR)
          else do {
            (session, rc) \<leftarrow> ssh_packet_send (chn_send env) session;
            if rc = SSH_ERROR then Some (reinit_out env session, SSH_ERROR)
            else do {
              session \<leftarrow> channel_put channel
                (\<lambda>c. c\<lparr>chan_local_window := chan_local_window c + increment\<rparr>) session;
              Some (session, SSH_OK) } } } }"

definition channel_buffer :: "bool \<Rightarrow> ssh_channel \<Rightarrow> ssh_buffer option" where
  "channel_buffer is_stderr c = (if is_stderr then chan_stderr_buffer c else chan_stdout_buffer c)"

definition set_channel_buffer :: "bool \<Rightarrow> ssh_buffer option \<Rightarrow> ssh_channel \<Rightarrow> ssh_channel" where
  "set_channel_buffer is_stderr b c =
     (if is_stderr then c\<lparr>chan_stderr_buffer := b\<rparr> else c\<lparr>chan_stdout_buffer := b\<rparr>)"

definition ssh_channel_has_unread_data :: "ssh_channel \<Rightarrow> bool" where
  "ssh_channel_has_unread_data c \<longleftrightarrow>
     buffered (chan_stdout_buffer c) > 0 \<or> buffered (chan_stderr_buffer c) > 0"

text \<open>A buffer that cannot take the data is freed, with what it held.\<close>

definition channel_default_bufferize :: "channel_env \<Rightarrow> nat \<Rightarrow> bytes option \<Rightarrow> u32 \<Rightarrow> bool \<Rightarrow> ssh_session \<Rightarrow>
    (ssh_session \<times> int) option" where
  "channel_default_bufferize env channel data len is_stderr session =
    (if channel = 0 then Some (session, - 1)
     else if data = None then Some (ssh_set_error SSH_FATAL session, - 1)
     else do {
       c \<leftarrow> channel_at channel session;
       let put = (\<lambda>b session. channel_set channel (set_channel_buffer is_stderr b) session)
       in case (case channel_buffer is_stderr c of Some b \<Rightarrow> Some b | None \<Rightarrow> ssh_buffer_new (chn_mem env)) of
            None \<Rightarrow> Some (ssh_set_error SSH_FATAL session, - 1)
          | Some b \<Rightarrow>
            (case ssh_buffer_add_data (chn_mem env) b data len of (b, rc) \<Rightarrow>
               if rc < 0 then Some (put None (ssh_set_error SSH_FATAL session), - 1)
               else Some (put (Some b) session, 0)) })"

section \<open>Handlers of the channel messages\<close>

definition ssh_packet_channel_open_conf :: "channel_env \<Rightarrow> packet_handler" where
  "ssh_packet_channel_open_conf env session type = do {
     (session, args, rc) \<leftarrow> unpack_in env ''d'' [Out_u32 0] session;
     (if rc \<noteq> SSH_OK then Some (ssh_set_error SSH_FATAL session, SSH_PACKET_USED)
      else let channel = ssh_channel_from_local session (out_u32 (args ! 0))
      in if channel = 0 then Some (ssh_set_error SSH_FATAL session, SSH_PACKET_USED)
      else do {
        c \<leftarrow> channel_at channel session;
        (session, args, rc) \<leftarrow> unpack_in env ''ddd'' [Out_u32 (chan_remote_channel c),
           Out_u32 (chan_remote_window c), Out_u32 (chan_remote_maxpacket c)] session;
        let session = channel_set channel (\<lambda>c. c\<lparr>chan_remote_channel := out_u32 (args ! 0),
              chan_remote_window := out_u32 (args ! 1), chan_remote_maxpacket := out_u32 (args ! 2)\<rparr>) session
        in if rc \<noteq> SSH_OK \<or> chan_state c \<noteq> SSH_CHANNEL_STATE_OPENING
           then Some (ssh_set_error SSH_FATAL session, SSH_PACKET_USED)
           else let session = channel_set channel (\<lambda>c. c\<lparr>chan_state := SSH_CHANNEL_STATE_OPEN,
                      chan_flags := chan_flags c AND NOT SSH_CHANNEL_FLAG_NOT_BOUND\<rparr>) session
                in Some (chn_notify env (Open_response True) channel session, SSH_PACKET_USED) }) }"

definition ssh_packet_channel_open_fail :: "channel_env \<Rightarrow> packet_handler" where
  "ssh_packet_channel_open_fail env session type = do {
     (session, channel) \<leftarrow> channel_from_msg env session;
     (if channel = 0 then Some (session, SSH_PACKET_USED)
      else do {
        (session, args, rc) \<leftarrow> unpack_in env ''ds'' [Out_u32 0, Out_cstring None] session;
        (if rc \<noteq> SSH_OK then Some (ssh_set_error SSH_FATAL session, SSH_PACKET_USED)
         else do {
           c \<leftarrow> channel_at channel session;
           (if chan_state c \<noteq> SSH_CHANNEL_STATE_OPENING
            then Some (ssh_set_error SSH_FATAL session, SSH_PACKET_USED)
            else let session = channel_set channel (\<lambda>c. c\<lparr>chan_state := SSH_CHANNEL_STATE_OPEN_DENIED\<rparr>)
                       (ssh_set_error SSH_REQUEST_DENIED session)
                 in Some (chn_notify env (Open_response False) channel session, SSH_PACKET_USED)) }) }) }"

definition channel_rcv_change_window :: "channel_env \<Rightarrow> packet_handler" where
  "channel_rcv_change_window env session type = do {
     (session, channel) \<leftarrow> channel_from_msg env session;
     (session, args, rc) \<leftarrow> unpack_in env ''d'' [Out_u32 0] session;
     (if channel = 0 \<or> rc \<noteq> SSH_OK then Some (session, SSH_PACKET_USED)
      else do {
        c \<leftarrow> channel_at channel session;
        let bytes = out_u32 (args ! 0);
            window = chan_remote_window c + bytes;
            session = channel_set channel (\<lambda>c. c\<lparr>chan_remote_window := window\<rparr>) session
        in Some (if chan_remote_window c = 0 \<and> bytes > 0
                 then chn_notify env (Write_wontblock window) channel session else session,
                 SSH_PACKET_USED) }) }"

text \<open>The data callbacks take from the buffer what they have used; the window grows after each.\<close>

fun run_data_callbacks :: "channel_env \<Rightarrow> data_callback list \<Rightarrow> nat \<Rightarrow> bool \<Rightarrow> ssh_session \<Rightarrow>
    (ssh_session \<times> packet_used) option" where
  "run_data_callbacks env [] channel is_stderr session = Some (session, SSH_PACKET_USED)"
| "run_data_callbacks env (cb # callbacks) channel is_stderr session = do {
     c \<leftarrow> channel_at channel session;
     buf \<leftarrow> channel_buffer is_stderr c;
     (if ssh_buffer_get buf = None then Some (session, SSH_PACKET_USED)
      else case cb session channel (buffer_bytes buf) is_stderr of (session, rest) \<Rightarrow>
        if rest > 0
        then do {
          c \<leftarrow> channel_at channel session;
          buf \<leftarrow> channel_buffer is_stderr c;
          (session, rc) \<leftarrow> grow_window env channel (channel_set channel
             (set_channel_buffer is_stderr (Some (fst (ssh_buffer_pass_bytes buf (of_int rest))))) session);
          (if rc = SSH_ERROR then Some (session, SSH_PACKET_FAILED)
           else run_data_callbacks env callbacks channel is_stderr session) }
        else run_data_callbacks env callbacks channel is_stderr session) }"

text \<open>The text of a data message: the string, and whether it goes to \<open>stderr\<close>.\<close>

definition channel_data_string :: "channel_env \<Rightarrow> ssh_session \<Rightarrow> u8 \<Rightarrow>
    (ssh_session \<times> (ssh_string \<times> bool) option) option" where
  "channel_data_string env session type = do {
     packet \<leftarrow> ses_in_buffer session;
     (case (if type = SSH2_MSG_CHANNEL_DATA then (packet, 0, 4) else ssh_buffer_get_u32 packet 0) of
        (packet, _, rc) \<Rightarrow>
          if rc \<noteq> 4 then Some (session\<lparr>ses_in_buffer := Some packet\<rparr>, None)
          else case ssh_buffer_get_ssh_string (chn_mem env) packet of (packet, str) \<Rightarrow>
            Some (session\<lparr>ses_in_buffer := Some packet\<rparr>,
                  map_option (\<lambda>s. (s, type \<noteq> SSH2_MSG_CHANNEL_DATA)) str)) }"

definition channel_rcv_data :: "channel_env \<Rightarrow> packet_handler" where
  "channel_rcv_data env session type = do {
     (session, channel) \<leftarrow> channel_from_msg env session;
     (if channel = 0 then Some (session, SSH_PACKET_USED)
      else do {
        (session, data) \<leftarrow> channel_data_string env session type;
        (case data of None \<Rightarrow> Some (session, SSH_PACKET_USED)
         | Some (str, is_stderr) \<Rightarrow> do {
             let len = (ucast (ssh_string_len (Some str)) :: u32);
             c \<leftarrow> channel_at channel session;
             (if len > chan_local_window c then Some (ssh_set_error SSH_FATAL session, SSH_PACKET_USED)
              else do {
                (session, rc) \<leftarrow> channel_default_bufferize env channel (ssh_string_data (Some str)) len
                   is_stderr session;
                (if rc < 0 then Some (session, SSH_PACKET_USED)
                 else do {
                   session \<leftarrow> channel_put channel
                     (\<lambda>c. c\<lparr>chan_local_window := chan_local_window c - len\<rparr>) session;
                   run_data_callbacks env (chn_data env channel) channel is_stderr session }) }) }) }) }"

definition channel_rcv_eof :: "channel_env \<Rightarrow> packet_handler" where
  "channel_rcv_eof env session type = do {
     (session, channel) \<leftarrow> channel_from_msg env session;
     Some (if channel = 0 then session
           else chn_notify env Channel_eof channel
                  (channel_set channel (\<lambda>c. c\<lparr>chan_remote_eof := True\<rparr>) session), SSH_PACKET_USED) }"

definition channel_rcv_close :: "channel_env \<Rightarrow> packet_handler" where
  "channel_rcv_close env session type = do {
     (session, channel) \<leftarrow> channel_from_msg env session;
     (if channel = 0 then Some (session, SSH_PACKET_USED)
      else do {
        c \<leftarrow> channel_at channel session;
        let session = channel_set channel (\<lambda>c. (if \<not> ssh_channel_has_unread_data c
              then c\<lparr>chan_state := SSH_CHANNEL_STATE_CLOSED\<rparr> else c\<lparr>chan_delayed_close := True\<rparr>)
              \<lparr>chan_remote_eof := True\<rparr>) session;
            session = chn_notify env Channel_close channel session
        in do {
          c \<leftarrow> channel_at channel session;
          let flags = chan_flags c OR SSH_CHANNEL_FLAG_CLOSED_REMOTE;
              session = channel_set channel (\<lambda>c. c\<lparr>chan_flags := flags\<rparr>) session
          in Some (if has_flag flags SSH_CHANNEL_FLAG_FREED_LOCAL
                   then ssh_channel_do_free channel session else session, SSH_PACKET_USED) } }) }"

text \<open>The reply to a request, when packing it works.\<close>

definition channel_reply :: "channel_env \<Rightarrow> nat \<Rightarrow> u8 \<Rightarrow> ssh_session \<Rightarrow> (ssh_session \<times> packet_used) option" where
  "channel_reply env channel status session = do {
     c \<leftarrow> channel_at channel session;
     (session, rc) \<leftarrow> pack_out env ''bd'' [VA_int (ucast status), VA_int (chan_remote_channel c)] session;
     (if rc \<noteq> SSH_OK then Some (session, SSH_PACKET_USED)
      else do {
        (session, _) \<leftarrow> ssh_packet_send (chn_send env) session;
        Some (session, SSH_PACKET_USED) }) }"

definition rcv_exit_status :: "channel_env \<Rightarrow> nat \<Rightarrow> ssh_session \<Rightarrow> (ssh_session \<times> packet_used) option" where
  "rcv_exit_status env channel session = do {
     c \<leftarrow> channel_at channel session;
     (session, args, rc) \<leftarrow> unpack_in env ''d'' [Out_u32 (chan_exit_code c)] session;
     let code = out_u32 (args ! 0);
         session = channel_set channel (\<lambda>c. c\<lparr>chan_exit_code := code\<rparr>) session
     in Some (if rc \<noteq> SSH_OK then session
              else chn_notify env (Exit_status code) channel
                     (channel_set channel (\<lambda>c. c\<lparr>chan_exit_status := True\<rparr>) session), SSH_PACKET_USED) }"

definition rcv_signal :: "channel_env \<Rightarrow> nat \<Rightarrow> ssh_session \<Rightarrow> (ssh_session \<times> packet_used) option" where
  "rcv_signal env channel session = do {
     (session, args, rc) \<leftarrow> unpack_in env ''s'' [Out_cstring None] session;
     (case out_cstring (args ! 0) of
        Some sig \<Rightarrow> Some (if rc \<noteq> SSH_OK then session
                          else chn_notify env (Channel_signal sig) channel session, SSH_PACKET_USED)
      | None \<Rightarrow> Some (session, SSH_PACKET_USED)) }"

definition rcv_exit_signal :: "channel_env \<Rightarrow> nat \<Rightarrow> ssh_session \<Rightarrow> (ssh_session \<times> packet_used) option" where
  "rcv_exit_signal env channel session = do {
     (session, args, rc) \<leftarrow> unpack_in env ''sbss''
        [Out_cstring None, Out_u8 0, Out_cstring None, Out_cstring None] session;
     (if rc \<noteq> SSH_OK then Some (session, SSH_PACKET_USED)
      else do {
        sig \<leftarrow> out_cstring (args ! 0);
        errmsg \<leftarrow> out_cstring (args ! 2);
        lang \<leftarrow> out_cstring (args ! 3);
        let core_dumped = out_u8 (args ! 1);
            session = chn_notify env (Exit_signal sig core_dumped errmsg lang) channel session
        in do {
          session \<leftarrow> channel_put channel (\<lambda>c. c\<lparr>chan_exit_core_dumped := core_dumped \<noteq> 0,
             chan_exit_signal := Some sig, chan_exit_status := True\<rparr>) session;
          Some (session, SSH_PACKET_USED) } }) }"

definition channel_rcv_request :: "channel_env \<Rightarrow> packet_handler" where
  "channel_rcv_request env session type = do {
     (session, channel) \<leftarrow> channel_from_msg env session;
     (if channel = 0 then Some (session, SSH_PACKET_USED)
      else do {
        (session, args, rc) \<leftarrow> unpack_in env ''sb'' [Out_cstring None, Out_u8 0] session;
        (if rc \<noteq> SSH_OK then Some (session, SSH_PACKET_USED)
         else do {
           request \<leftarrow> out_cstring (args ! 0);
           let want_reply = out_u8 (args ! 1);
           (if c_equal request ''exit-status'' then rcv_exit_status env channel session
            else if c_equal request ''signal'' then rcv_signal env channel session
            else if c_equal request ''exit-signal'' then rcv_exit_signal env channel session
            else if c_equal request ''keepalive@openssh.com''
            then channel_reply env channel SSH2_MSG_CHANNEL_FAILURE session
            else if c_equal request ''auth-agent-req@openssh.com''
            then let supported = chn_auth_agent env channel;
                     session = (if supported then chn_notify env Auth_agent_req channel session else session)
                 in if want_reply \<noteq> 0
                    then channel_reply env channel
                           (if supported then SSH2_MSG_CHANNEL_SUCCESS else SSH2_MSG_CHANNEL_FAILURE) session
                    else Some (session, SSH_PACKET_USED)
            else if env_server (chn_send env)
            then Some (chn_message env channel request want_reply session, SSH_PACKET_USED)
            else Some (session, SSH_PACKET_USED)) }) }) }"

text \<open>The handlers of \<open>SUCCESS\<close> and \<open>FAILURE\<close> differ in the state they set.\<close>

definition request_answered :: "channel_env \<Rightarrow> ssh_channel_request_state \<Rightarrow> packet_handler" where
  "request_answered env answer session type = do {
     (session, channel) \<leftarrow> channel_from_msg env session;
     (if channel = 0 then Some (session, SSH_PACKET_USED)
      else do {
        c \<leftarrow> channel_at channel session;
        Some (if chan_request_state c \<noteq> SSH_CHANNEL_REQ_STATE_PENDING then session
              else chn_notify env Request_response channel
                     (channel_set channel (\<lambda>c. c\<lparr>chan_request_state := answer\<rparr>) session), SSH_PACKET_USED) }) }"

definition ssh_packet_channel_success :: "channel_env \<Rightarrow> packet_handler" where
  "ssh_packet_channel_success env = request_answered env SSH_CHANNEL_REQ_STATE_ACCEPTED"

definition ssh_packet_channel_failure :: "channel_env \<Rightarrow> packet_handler" where
  "ssh_packet_channel_failure env = request_answered env SSH_CHANNEL_REQ_STATE_DENIED"

section \<open>Opening, requests\<close>

definition ssh_channel_open_termination :: "nat \<Rightarrow> ssh_session \<Rightarrow> bool option" where
  "ssh_channel_open_termination channel session = map_option (\<lambda>c.
     chan_state c \<noteq> SSH_CHANNEL_STATE_OPENING \<or> ses_session_state session = SSH_SESSION_STATE_ERROR)
     (channel_at channel session)"

text \<open>The label \<open>end\<close> of \<open>channel_open\<close>, and \<open>pending\<close> in front of it.\<close>

definition channel_open_end :: "nat \<Rightarrow> poll_turn list \<Rightarrow> ssh_session \<Rightarrow> int \<Rightarrow>
    (ssh_session \<times> int \<times> poll_turn list) option" where
  "channel_open_end channel turns session err = do {
     c \<leftarrow> channel_at channel session;
     Some (session, if chan_state c = SSH_CHANNEL_STATE_OPEN then SSH_OK
                    else if err \<noteq> SSH_AGAIN then SSH_ERROR else err, turns) }"

definition channel_open_pending :: "channel_env \<Rightarrow> nat \<Rightarrow> poll_turn list \<Rightarrow> ssh_session \<Rightarrow>
    (ssh_session \<times> int \<times> poll_turn list) option" where
  "channel_open_pending env channel turns session = do {
     (session, err, turns) \<leftarrow> ssh_handle_packets_termination env SSH_TIMEOUT_DEFAULT
        (ssh_channel_open_termination channel) turns session;
     channel_open_end channel turns session
       (if ses_session_state session = SSH_SESSION_STATE_ERROR then SSH_ERROR else err) }"

definition channel_open :: "channel_env \<Rightarrow> nat \<Rightarrow> string \<Rightarrow> u32 \<Rightarrow> u32 \<Rightarrow> ssh_buffer option \<Rightarrow>
    poll_turn list \<Rightarrow> ssh_session \<Rightarrow> (ssh_session \<times> int \<times> poll_turn list) option" where
  "channel_open env channel type window maxpacket payload turns session = do {
     c \<leftarrow> channel_at channel session;
     (case chan_state c of
        SSH_CHANNEL_STATE_OPENING \<Rightarrow> channel_open_pending env channel turns session
      | SSH_CHANNEL_STATE_NOT_OPEN \<Rightarrow>
          (case ssh_channel_new_id session of (session, local_id) \<Rightarrow> do {
             let session = channel_set channel (\<lambda>c. c\<lparr>chan_local_channel := local_id,
                   chan_local_maxpacket := maxpacket, chan_local_window := window\<rparr>) session;
             (session, rc) \<leftarrow> pack_out env ''bsddd'' [VA_int (ucast SSH2_MSG_CHANNEL_OPEN),
                VA_pointer (Some (c_string type)), VA_int local_id, VA_int window, VA_int maxpacket] session;
             (if rc \<noteq> SSH_OK then Some (ssh_set_error SSH_FATAL session, SSH_ERROR, turns)
              else do {
                out_buffer \<leftarrow> ses_out_buffer session;
                (case (case payload of None \<Rightarrow> (out_buffer, 0)
                       | Some p \<Rightarrow> ssh_buffer_add_buffer (chn_mem env) out_buffer p) of (out_buffer, rc) \<Rightarrow> do {
                   let session = session\<lparr>ses_out_buffer := Some out_buffer\<rparr>;
                   (if rc < 0 then Some (ssh_set_error SSH_FATAL session, SSH_ERROR, turns)
                    else do {
                      let session = channel_set channel
                            (\<lambda>c. c\<lparr>chan_state := SSH_CHANNEL_STATE_OPENING\<rparr>) session;
                      (session, rc) \<leftarrow> ssh_packet_send (chn_send env) session;
                      (if rc = SSH_ERROR then Some (session, SSH_ERROR, turns)
                       else channel_open_pending env channel turns session) }) }) }) })
      | _ \<Rightarrow> channel_open_end channel turns session SSH_ERROR) }"

definition ssh_channel_open_session :: "channel_env \<Rightarrow> nat \<Rightarrow> poll_turn list \<Rightarrow> ssh_session \<Rightarrow>
    (ssh_session \<times> int \<times> poll_turn list) option" where
  "ssh_channel_open_session env channel turns session =
    (if channel = 0 then Some (session, SSH_ERROR, turns)
     else channel_open env channel ''session'' WINDOW_DEFAULT CHANNEL_MAX_PACKET None turns session)"

definition ssh_channel_open_auth_agent :: "channel_env \<Rightarrow> nat \<Rightarrow> poll_turn list \<Rightarrow> ssh_session \<Rightarrow>
    (ssh_session \<times> int \<times> poll_turn list) option" where
  "ssh_channel_open_auth_agent env channel turns session =
    (if channel = 0 then Some (session, SSH_ERROR, turns)
     else channel_open env channel ''auth-agent@openssh.com'' WINDOW_DEFAULT CHANNEL_MAX_PACKET None
            turns session)"

definition ssh_channel_request_termination :: "nat \<Rightarrow> ssh_session \<Rightarrow> bool option" where
  "ssh_channel_request_termination channel session = map_option (\<lambda>c.
     chan_request_state c \<noteq> SSH_CHANNEL_REQ_STATE_PENDING \<or>
     ses_session_state session = SSH_SESSION_STATE_ERROR) (channel_at channel session)"

text \<open>The label \<open>pending\<close> of \<open>channel_request\<close>.\<close>

definition channel_request_pending :: "channel_env \<Rightarrow> nat \<Rightarrow> poll_turn list \<Rightarrow> ssh_session \<Rightarrow>
    (ssh_session \<times> int \<times> poll_turn list) option" where
  "channel_request_pending env channel turns session = do {
     (session, rc, turns) \<leftarrow> ssh_handle_packets_termination env SSH_TIMEOUT_DEFAULT
        (ssh_channel_request_termination channel) turns session;
     c \<leftarrow> channel_at channel session;
     let state = (if ses_session_state session = SSH_SESSION_STATE_ERROR \<or> rc = SSH_ERROR
                  then SSH_CHANNEL_REQ_STATE_ERROR else chan_request_state c);
         reset = channel_set channel (\<lambda>c. c\<lparr>chan_request_state := SSH_CHANNEL_REQ_STATE_NONE\<rparr>)
     in Some (case state of
          SSH_CHANNEL_REQ_STATE_ERROR \<Rightarrow> (reset session, SSH_ERROR, turns)
        | SSH_CHANNEL_REQ_STATE_DENIED \<Rightarrow> (reset (ssh_set_error SSH_REQUEST_DENIED session), SSH_ERROR, turns)
        | SSH_CHANNEL_REQ_STATE_ACCEPTED \<Rightarrow> (reset session, SSH_OK, turns)
        | SSH_CHANNEL_REQ_STATE_PENDING \<Rightarrow> (session, SSH_AGAIN, turns)
        | SSH_CHANNEL_REQ_STATE_NONE \<Rightarrow> (reset (ssh_set_error SSH_FATAL session), SSH_ERROR, turns)) }"

text \<open>The message, packed into the out buffer.\<close>

definition channel_request_message :: "channel_env \<Rightarrow> ssh_channel \<Rightarrow> string \<Rightarrow> ssh_buffer option \<Rightarrow> bool \<Rightarrow>
    ssh_session \<Rightarrow> (ssh_session \<times> int) option" where
  "channel_request_message env c request buffer reply session = do {
     (session, ret) \<leftarrow> pack_out env ''bdsb'' [VA_int (ucast SSH2_MSG_CHANNEL_REQUEST),
        VA_int (chan_remote_channel c), VA_pointer (Some (c_string request)),
        VA_int (if reply then 1 else 0)] session;
     (if ret \<noteq> SSH_OK then Some (session, - 1)
      else case buffer of None \<Rightarrow> Some (session, 0)
      | Some b \<Rightarrow> add_out env (ssh_buffer_get b) (ssh_buffer_get_len b) session) }"

definition channel_request :: "channel_env \<Rightarrow> nat \<Rightarrow> string \<Rightarrow> ssh_buffer option \<Rightarrow> bool \<Rightarrow>
    poll_turn list \<Rightarrow> ssh_session \<Rightarrow> (ssh_session \<times> int \<times> poll_turn list) option" where
  "channel_request env channel request buffer reply turns session = do {
     c \<leftarrow> channel_at channel session;
     (if chan_request_state c \<noteq> SSH_CHANNEL_REQ_STATE_NONE
      then channel_request_pending env channel turns session
      else do {
        (session, ret) \<leftarrow> channel_request_message env c request buffer reply session;
        (if ret < 0 then Some (reinit_out env (ssh_set_error SSH_FATAL session), SSH_ERROR, turns)
         else do {
           let session = channel_set channel
                 (\<lambda>c. c\<lparr>chan_request_state := SSH_CHANNEL_REQ_STATE_PENDING\<rparr>) session;
           (session, rc) \<leftarrow> ssh_packet_send (chn_send env) session;
           (if rc = SSH_ERROR then Some (session, SSH_ERROR, turns)
            else if \<not> reply
            then do {
              session \<leftarrow> channel_put channel
                (\<lambda>c. c\<lparr>chan_request_state := SSH_CHANNEL_REQ_STATE_NONE\<rparr>) session;
              Some (session, SSH_OK, turns) }
            else channel_request_pending env channel turns session) }) }) }"

text \<open>A request with a payload, which is packed into a buffer of its own; the requests that can be repeated
  until they are answered pass none if they are already sent.\<close>

definition packed_request :: "channel_env \<Rightarrow> nat \<Rightarrow> string \<Rightarrow> string \<Rightarrow> u64 va_list \<Rightarrow> bool \<Rightarrow> poll_turn list \<Rightarrow>
    ssh_session \<Rightarrow> (ssh_session \<times> int \<times> poll_turn list) option" where
  "packed_request env channel request format args reply turns session =
    (case ssh_buffer_new (chn_mem env) of
       None \<Rightarrow> Some (ssh_set_error SSH_FATAL session, SSH_ERROR, turns)
     | Some buffer \<Rightarrow> do {
         (buffer, rc) \<leftarrow> ssh_buffer_pack (chn_mem env) (chn_bignum env) buffer format args;
         (if rc \<noteq> SSH_OK then Some (ssh_set_error SSH_FATAL session, rc, turns)
          else channel_request env channel request (Some buffer) reply turns session) })"

definition repeatable_request :: "channel_env \<Rightarrow> nat \<Rightarrow> string \<Rightarrow> string \<Rightarrow> u64 va_list \<Rightarrow> poll_turn list \<Rightarrow>
    ssh_session \<Rightarrow> (ssh_session \<times> int \<times> poll_turn list) option" where
  "repeatable_request env channel request format args turns session = do {
     c \<leftarrow> channel_at channel session;
     (if chan_request_state c \<noteq> SSH_CHANNEL_REQ_STATE_NONE
      then channel_request env channel request None True turns session
      else packed_request env channel request format args True turns session) }"

definition ssh_channel_request_shell :: "channel_env \<Rightarrow> nat \<Rightarrow> poll_turn list \<Rightarrow> ssh_session \<Rightarrow>
    (ssh_session \<times> int \<times> poll_turn list) option" where
  "ssh_channel_request_shell env channel turns session =
    (if channel = 0 then Some (session, SSH_ERROR, turns)
     else channel_request env channel ''shell'' None True turns session)"

text \<open>The requests with one string as their argument: the subsystem and the command.\<close>

definition request_string :: "channel_env \<Rightarrow> nat \<Rightarrow> string \<Rightarrow> bytes option \<Rightarrow> poll_turn list \<Rightarrow> ssh_session \<Rightarrow>
    (ssh_session \<times> int \<times> poll_turn list) option" where
  "request_string env channel request argument turns session =
    (if channel = 0 then Some (session, SSH_ERROR, turns)
     else if argument = None then Some (ssh_set_error SSH_FATAL session, SSH_ERROR, turns)
     else repeatable_request env channel request ''s'' [VA_pointer argument] turns session)"

definition ssh_channel_request_subsystem :: "channel_env \<Rightarrow> nat \<Rightarrow> bytes option \<Rightarrow> poll_turn list \<Rightarrow>
    ssh_session \<Rightarrow> (ssh_session \<times> int \<times> poll_turn list) option" where
  "ssh_channel_request_subsystem env channel subsys = request_string env channel ''subsystem'' subsys"

definition ssh_channel_request_exec :: "channel_env \<Rightarrow> nat \<Rightarrow> bytes option \<Rightarrow> poll_turn list \<Rightarrow>
    ssh_session \<Rightarrow> (ssh_session \<times> int \<times> poll_turn list) option" where
  "ssh_channel_request_exec env channel cmd = request_string env channel ''exec'' cmd"

section \<open>Closing\<close>

text \<open>A message of a channel that has only the channel number.\<close>

definition send_channel_message :: "channel_env \<Rightarrow> nat \<Rightarrow> u8 \<Rightarrow> ssh_session \<Rightarrow> (ssh_session \<times> int \<times> bool) option" where
  "send_channel_message env channel type session = do {
     c \<leftarrow> channel_at channel session;
     (session, rc) \<leftarrow> pack_out env ''bd'' [VA_int (ucast type), VA_int (chan_remote_channel c)] session;
     (if rc \<noteq> SSH_OK then Some (ssh_set_error SSH_FATAL session, rc, False)
      else do {
        (session, rc) \<leftarrow> ssh_packet_send (chn_send env) session;
        Some (session, rc, True) }) }"

definition ssh_channel_send_eof :: "channel_env \<Rightarrow> nat \<Rightarrow> poll_turn list \<Rightarrow> ssh_session \<Rightarrow>
    (ssh_session \<times> int \<times> poll_turn list) option" where
  "ssh_channel_send_eof env channel turns session =
    (if channel = 0 then Some (session, SSH_ERROR, turns)
     else do {
       c \<leftarrow> channel_at channel session;
       (if chan_local_eof c then Some (session, SSH_OK, turns)
        else do {
          (session, rc, packed) \<leftarrow> send_channel_message env channel SSH2_MSG_CHANNEL_EOF session;
          (if \<not> packed then Some (reinit_out env session, SSH_ERROR, turns)
           else if rc \<noteq> SSH_OK then Some (reinit_out env session, rc, turns)
           else do {
             (session, rc, turns) \<leftarrow> ssh_channel_flush env turns session;
             (if rc = SSH_ERROR then Some (reinit_out env session, rc, turns)
              else do {
                session \<leftarrow> channel_put channel (\<lambda>c. c\<lparr>chan_local_eof := True\<rparr>) session;
                Some (session, rc, turns) }) }) }) })"

definition ssh_channel_close :: "channel_env \<Rightarrow> nat \<Rightarrow> poll_turn list \<Rightarrow> ssh_session \<Rightarrow>
    (ssh_session \<times> int \<times> poll_turn list) option" where
  "ssh_channel_close env channel turns session =
    (if channel = 0 then Some (session, SSH_ERROR, turns)
     else do {
       c \<leftarrow> channel_at channel session;
       (if has_flag (chan_flags c) SSH_CHANNEL_FLAG_CLOSED_LOCAL then Some (session, SSH_OK, turns)
        else do {
          (session, rc, turns) \<leftarrow> ssh_channel_send_eof env channel turns session;
          (if rc \<noteq> SSH_OK then Some (session, rc, turns)
           else do {
             (session, rc, packed) \<leftarrow> send_channel_message env channel SSH2_MSG_CHANNEL_CLOSE session;
             (if \<not> packed then Some (reinit_out env session, rc, turns)
              else do {
                session \<leftarrow> (if rc = SSH_OK
                  then channel_put channel (\<lambda>c. c\<lparr>chan_state := SSH_CHANNEL_STATE_CLOSED,
                         chan_flags := chan_flags c OR SSH_CHANNEL_FLAG_CLOSED_LOCAL\<rparr>) session
                  else Some session);
                (session, rc, turns) \<leftarrow> ssh_channel_flush env turns session;
                Some (if rc = SSH_ERROR then reinit_out env session else session, rc, turns) }) }) }) })"

definition ssh_channel_free :: "channel_env \<Rightarrow> nat \<Rightarrow> poll_turn list \<Rightarrow> ssh_session \<Rightarrow>
    (ssh_session \<times> poll_turn list) option" where
  "ssh_channel_free env channel turns session =
    (if channel = 0 then Some (session, turns)
     else do {
       c \<leftarrow> channel_at channel session;
       let send_close = ses_alive session \<and> (case chan_state c of
             SSH_CHANNEL_STATE_OPEN \<Rightarrow> True
           | SSH_CHANNEL_STATE_CLOSED \<Rightarrow> has_flag (chan_flags c) SSH_CHANNEL_FLAG_CLOSED_REMOTE \<and>
               \<not> has_flag (chan_flags c) SSH_CHANNEL_FLAG_CLOSED_LOCAL
           | _ \<Rightarrow> False);
       (session, _, turns) \<leftarrow> (if send_close then ssh_channel_close env channel turns session
                               else Some (session, 0, turns));
       c \<leftarrow> channel_at channel session;
       let flags = chan_flags c OR SSH_CHANNEL_FLAG_FREED_LOCAL;
           session = channel_set channel (\<lambda>c. c\<lparr>chan_flags := flags\<rparr>) session
       in Some (if has_flag flags SSH_CHANNEL_FLAG_CLOSED_REMOTE \<or> has_flag flags SSH_CHANNEL_FLAG_NOT_BOUND
                then ssh_channel_do_free channel session else session, turns) })"

section \<open>Writing\<close>

definition ssh_channel_waitwindow_termination :: "nat \<Rightarrow> ssh_session \<Rightarrow> bool option" where
  "ssh_channel_waitwindow_termination channel session = map_option (\<lambda>c.
     chan_remote_window c > 0 \<or> ses_session_state session = SSH_SESSION_STATE_ERROR \<or>
     chan_state c = SSH_CHANNEL_STATE_CLOSED) (channel_at channel session)"

definition ssh_waitsession_unblocked :: "ssh_session \<Rightarrow> bool" where
  "ssh_waitsession_unblocked session \<longleftrightarrow> \<not> (ses_session_state session \<in>
     {SSH_SESSION_STATE_DH, SSH_SESSION_STATE_INITIAL_KEX, SSH_SESSION_STATE_KEXINIT_RECEIVED})"

text \<open>The packet that carries the next \<open>effectivelen\<close> bytes; the flag says that it was packed.\<close>

definition pack_channel_data :: "channel_env \<Rightarrow> u32 \<Rightarrow> bool \<Rightarrow> bytes \<Rightarrow> u32 \<Rightarrow> ssh_session \<Rightarrow>
    (ssh_session \<times> bool) option" where
  "pack_channel_data env remote_channel is_stderr data effectivelen session = do {
     (session, rc) \<leftarrow> pack_out env ''bd'' [VA_int (ucast (if is_stderr then SSH2_MSG_CHANNEL_EXTENDED_DATA
        else SSH2_MSG_CHANNEL_DATA)), VA_int remote_channel] session;
     (if rc \<noteq> SSH_OK then Some (ssh_set_error SSH_FATAL session, False)
      else do {
        (session, rc) \<leftarrow> (if is_stderr then pack_out env ''d'' [VA_int SSH2_EXTENDED_DATA_STDERR] session
                         else Some (session, SSH_OK));
        (if rc \<noteq> SSH_OK then Some (ssh_set_error SSH_FATAL session, False)
         else do {
           (session, rc) \<leftarrow> pack_out env ''dP'' [VA_int effectivelen, VA_long (ucast effectivelen),
              VA_pointer (Some data)] session;
           Some (if rc \<noteq> SSH_OK then (ssh_set_error SSH_FATAL session, False) else (session, True)) }) }) }"

text \<open>
  The loop. It ends with all bytes written, with the jump to \<open>out\<close>, with the jump to \<open>error\<close>, or
  with the return of an error. Nothing makes it end if the packets carry no bytes, so it is a
  partial function.
\<close>

datatype write_end = Write_all | Write_out | Write_error | Write_failed

definition write_chunk :: "ssh_channel \<Rightarrow> u32 \<Rightarrow> u32" where
  "write_chunk c len = min (if chan_remote_window c < len then min len (chan_remote_window c) else len)
     (chan_remote_maxpacket c)"

definition write_packet :: "channel_env \<Rightarrow> nat \<Rightarrow> bool \<Rightarrow> bytes \<Rightarrow> u32 \<Rightarrow> ssh_session \<Rightarrow>
    (ssh_session \<times> write_end option) option" where
  "write_packet env channel is_stderr data effectivelen session = do {
     c \<leftarrow> channel_at channel session;
     (session, packed) \<leftarrow> pack_channel_data env (chan_remote_channel c) is_stderr data effectivelen session;
     (if \<not> packed then Some (session, Some Write_error)
      else do {
        (session, rc) \<leftarrow> ssh_packet_send (chn_send env) session;
        (if rc = SSH_ERROR then Some (session, Some Write_failed)
         else do {
           session \<leftarrow> channel_put channel
             (\<lambda>c. c\<lparr>chan_remote_window := chan_remote_window c - effectivelen\<rparr>) session;
           Some (session, None) }) }) }"

partial_function (option) write_loop :: "channel_env \<Rightarrow> nat \<Rightarrow> bool \<Rightarrow> bytes \<Rightarrow> u32 \<Rightarrow> poll_turn list \<Rightarrow>
    ssh_session \<Rightarrow> (ssh_session \<times> write_end \<times> u32 \<times> poll_turn list) option" where
  "write_loop env channel is_stderr data len turns session =
    (if len = 0 then Some (session, Write_all, len, turns)
     else case channel_at channel session of None \<Rightarrow> None
     | Some c \<Rightarrow>
       if chan_remote_window c < len \<and> chan_remote_window c = 0
       then (case ssh_handle_packets_termination env SSH_TIMEOUT_DEFAULT
                    (ssh_channel_waitwindow_termination channel) turns session of None \<Rightarrow> None
             | Some (session, rc, turns) \<Rightarrow>
               (case channel_at channel session of None \<Rightarrow> None
                | Some c \<Rightarrow>
                  if rc = SSH_ERROR \<or> ssh_channel_waitwindow_termination channel session \<noteq> Some True \<or>
                     ses_session_state session = SSH_SESSION_STATE_ERROR \<or>
                     chan_state c = SSH_CHANNEL_STATE_CLOSED
                  then Some (session, Write_out, len, turns)
                  else write_loop env channel is_stderr data len turns session))
       else let effectivelen = write_chunk c len
       in (case write_packet env channel is_stderr data effectivelen session of None \<Rightarrow> None
           | Some (session, stop) \<Rightarrow>
             (case stop of Some e \<Rightarrow> Some (session, e, len, turns)
              | None \<Rightarrow> write_loop env channel is_stderr (drop (unat effectivelen) data)
                          (len - effectivelen) turns session)))"

definition channel_write_common :: "channel_env \<Rightarrow> nat \<Rightarrow> bytes option \<Rightarrow> u32 \<Rightarrow> bool \<Rightarrow> poll_turn list \<Rightarrow>
    ssh_session \<Rightarrow> (ssh_session \<times> int \<times> poll_turn list) option" where
  "channel_write_common env channel data len is_stderr turns session =
    (if channel = 0 then Some (session, - 1, turns)
     else case data of None \<Rightarrow> Some (ssh_set_error SSH_FATAL session, - 1, turns)
     | Some data \<Rightarrow> do {
       c \<leftarrow> channel_at channel session;
       (if len > 0x7fffffff then Some (session, SSH_ERROR, turns)
        else if chan_local_eof c then Some (ssh_set_error SSH_REQUEST_DENIED session, - 1, turns)
        else if chan_state c \<noteq> SSH_CHANNEL_STATE_OPEN \<or> chan_delayed_close c
        then Some (ssh_set_error SSH_REQUEST_DENIED session, - 1, turns)
        else if ses_session_state session = SSH_SESSION_STATE_ERROR then Some (session, SSH_ERROR, turns)
        else do {
          (session, rc, turns) \<leftarrow> (if \<not> ssh_waitsession_unblocked session
             then ssh_handle_packets_termination env SSH_TIMEOUT_DEFAULT
                    (Some \<circ> ssh_waitsession_unblocked) turns session
             else Some (session, SSH_OK, turns));
          (if rc = SSH_ERROR \<or> \<not> ssh_waitsession_unblocked session then Some (session, 0, turns)
           else do {
             (session, result, left, turns) \<leftarrow> write_loop env channel is_stderr data len turns session;
             (case result of
                Write_out \<Rightarrow> Some (session, int (unat (len - left)), turns)
              | Write_error \<Rightarrow> Some (reinit_out env session, SSH_ERROR, turns)
              | Write_failed \<Rightarrow> Some (session, SSH_ERROR, turns)
              | Write_all \<Rightarrow> do {
                  (session, rc, turns) \<leftarrow> ssh_channel_flush env turns session;
                  Some (if rc = SSH_ERROR then (reinit_out env session, SSH_ERROR, turns)
                        else (session, int (unat (len - left)), turns)) }) }) }) })"

definition ssh_channel_write :: "channel_env \<Rightarrow> nat \<Rightarrow> bytes option \<Rightarrow> u32 \<Rightarrow> poll_turn list \<Rightarrow>
    ssh_session \<Rightarrow> (ssh_session \<times> int \<times> poll_turn list) option" where
  "ssh_channel_write env channel data len = channel_write_common env channel data len False"

definition ssh_channel_write_stderr :: "channel_env \<Rightarrow> nat \<Rightarrow> bytes option \<Rightarrow> u32 \<Rightarrow> poll_turn list \<Rightarrow>
    ssh_session \<Rightarrow> (ssh_session \<times> int \<times> poll_turn list) option" where
  "ssh_channel_write_stderr env channel data len = channel_write_common env channel data len True"

section \<open>Reading\<close>

text \<open>The buffer that is read is the one the channel has when it is looked at; \<open>NULL\<close> is a crash.\<close>

definition ssh_channel_read_termination :: "nat \<Rightarrow> bool \<Rightarrow> ssh_session \<Rightarrow> bool option" where
  "ssh_channel_read_termination channel is_stderr session = do {
     c \<leftarrow> channel_at channel session;
     b \<leftarrow> channel_buffer is_stderr c;
     Some (ssh_buffer_get_len b \<ge> 1 \<or> chan_remote_eof c \<or>
           ses_session_state session = SSH_SESSION_STATE_ERROR) }"

text \<open>The bytes stored at the destination come with the count.\<close>

definition ssh_channel_read_timeout :: "channel_env \<Rightarrow> nat \<Rightarrow> u32 \<Rightarrow> bool \<Rightarrow> int \<Rightarrow> poll_turn list \<Rightarrow>
    ssh_session \<Rightarrow> (ssh_session \<times> int \<times> bytes \<times> poll_turn list) option" where
  "ssh_channel_read_timeout env channel count is_stderr timeout_ms turns session =
    (if channel = 0 then Some (session, SSH_ERROR, [], turns)
     else if count = 0 then Some (session, 0, [], turns)
     else do {
       (session, rc, turns) \<leftarrow> ssh_handle_packets_termination env
          (if timeout_ms < SSH_TIMEOUT_DEFAULT then SSH_TIMEOUT_INFINITE else timeout_ms)
          (ssh_channel_read_termination channel is_stderr) turns session;
       (if rc = SSH_ERROR \<or> rc = SSH_AGAIN then Some (session, rc, [], turns)
        else if ses_session_state session = SSH_SESSION_STATE_ERROR then Some (session, SSH_ERROR, [], turns)
        else do {
          c \<leftarrow> channel_at channel session;
          stdbuf \<leftarrow> channel_buffer is_stderr c;
          (if chan_remote_eof c \<and> ssh_buffer_get_len stdbuf = 0 then Some (session, 0, [], turns)
           else if chan_state c = SSH_CHANNEL_STATE_CLOSED
           then Some (ssh_set_error SSH_FATAL session, SSH_ERROR, [], turns)
           else do {
             let len = (if ssh_buffer_get_len stdbuf > count then count else ssh_buffer_get_len stdbuf);
             dest \<leftarrow> map_option (take (unat len)) (ssh_buffer_get stdbuf);
             let session = channel_set channel (\<lambda>c.
                   let c = set_channel_buffer is_stderr (Some (fst (ssh_buffer_pass_bytes stdbuf len))) c
                   in if chan_delayed_close c \<and> \<not> ssh_channel_has_unread_data c
                      then c\<lparr>chan_state := SSH_CHANNEL_STATE_CLOSED\<rparr> else c) session;
             (session, rc) \<leftarrow> grow_window env channel session;
             Some (session, if rc = SSH_ERROR then - 1 else int (unat len), dest, turns) }) }) })"

definition ssh_channel_read :: "channel_env \<Rightarrow> nat \<Rightarrow> u32 \<Rightarrow> bool \<Rightarrow> poll_turn list \<Rightarrow> ssh_session \<Rightarrow>
    (ssh_session \<times> int \<times> bytes \<times> poll_turn list) option" where
  "ssh_channel_read env channel count is_stderr turns session =
     ssh_channel_read_timeout env channel count is_stderr SSH_TIMEOUT_DEFAULT turns session"

definition ssh_channel_poll :: "channel_env \<Rightarrow> nat \<Rightarrow> bool \<Rightarrow> poll_turn list \<Rightarrow> ssh_session \<Rightarrow>
    (ssh_session \<times> int \<times> poll_turn list) option" where
  "ssh_channel_poll env channel is_stderr turns session =
    (if channel = 0 then Some (session, SSH_ERROR, turns)
     else do {
       c \<leftarrow> channel_at channel session;
       (if has_flag (chan_flags c) SSH_CHANNEL_FLAG_FREED_LOCAL then Some (session, SSH_ERROR, turns)
        else do {
          (session, rc, turns) \<leftarrow> (if chan_remote_eof c then Some (session, SSH_OK, turns)
             else if ses_session_state session = SSH_SESSION_STATE_ERROR
             then Some (session, SSH_ERROR, turns)
             else case turns of [] \<Rightarrow> None
             | turn # turns \<Rightarrow> (case ssh_handle_packets turn session of
                 (session, rc) \<Rightarrow> Some (session, rc, turns)));
          (if rc = SSH_ERROR then Some (session, SSH_ERROR, turns)
           else do {
             c \<leftarrow> channel_at channel session;
             stdbuf \<leftarrow> channel_buffer is_stderr c;
             Some (session, if ssh_buffer_get_len stdbuf > 0 then int (unat (ssh_buffer_get_len stdbuf))
                            else if chan_remote_eof c then SSH_EOF
                            else int (unat (ssh_buffer_get_len stdbuf)), turns) }) }) })"

definition ssh_channel_poll_timeout :: "channel_env \<Rightarrow> nat \<Rightarrow> int \<Rightarrow> bool \<Rightarrow> poll_turn list \<Rightarrow> ssh_session \<Rightarrow>
    (ssh_session \<times> int \<times> poll_turn list) option" where
  "ssh_channel_poll_timeout env channel timeout is_stderr turns session =
    (if channel = 0 then Some (session, SSH_ERROR, turns)
     else do {
       c \<leftarrow> channel_at channel session;
       (if has_flag (chan_flags c) SSH_CHANNEL_FLAG_FREED_LOCAL then Some (session, SSH_ERROR, turns)
        else do {
          (session, rc, turns) \<leftarrow> ssh_handle_packets_termination env timeout
             (ssh_channel_read_termination channel is_stderr) turns session;
          (if rc = SSH_ERROR \<or> ses_session_state session = SSH_SESSION_STATE_ERROR
           then Some (session, SSH_ERROR, turns)
           else if rc = SSH_AGAIN then Some (session, SSH_OK, turns)
           else do {
             c \<leftarrow> channel_at channel session;
             stdbuf \<leftarrow> channel_buffer is_stderr c;
             let len = ssh_buffer_get_len stdbuf
             in Some (session, if len > 0 then (if len > 0x7fffffff then SSH_ERROR else int (unat len))
                               else if chan_remote_eof c then SSH_EOF else rc, turns) }) }) })"

definition ssh_set_blocking :: "ssh_session \<Rightarrow> bool \<Rightarrow> ssh_session" where
  "ssh_set_blocking session blocking = session\<lparr>ses_flags :=
     (ses_flags session AND NOT SSH_SESSION_FLAG_BLOCKING) OR
     (if blocking then SSH_SESSION_FLAG_BLOCKING else 0)\<rparr>"

definition ssh_channel_read_nonblocking :: "channel_env \<Rightarrow> nat \<Rightarrow> u32 \<Rightarrow> bool \<Rightarrow> poll_turn list \<Rightarrow>
    ssh_session \<Rightarrow> (ssh_session \<times> int \<times> bytes \<times> poll_turn list) option" where
  "ssh_channel_read_nonblocking env channel count is_stderr turns session =
    (if channel = 0 then Some (session, SSH_ERROR, [], turns)
     else do {
       (session, rc, turns) \<leftarrow> ssh_channel_poll env channel is_stderr turns session;
       (if rc \<le> 0
        then Some (session, if ses_session_state session = SSH_SESSION_STATE_ERROR then SSH_ERROR else rc, [],
                   turns)
        else let to_read = (if of_int rc > count then count else of_int rc);
                 blocking = ssh_is_blocking session
             in do {
               (session, rc, dest, turns) \<leftarrow> ssh_channel_read env channel to_read is_stderr turns
                  (ssh_set_blocking session False);
               Some (ssh_set_blocking session blocking, rc, dest, turns) }) })"

section \<open>Looking at a channel\<close>

definition ssh_channel_window_size :: "nat \<Rightarrow> ssh_session \<Rightarrow> u32 option" where
  "ssh_channel_window_size channel session = map_option chan_remote_window (channel_at channel session)"

definition ssh_channel_is_open :: "nat \<Rightarrow> ssh_session \<Rightarrow> bool option" where
  "ssh_channel_is_open channel session = (if channel = 0 then Some False else map_option (\<lambda>c.
     chan_state c = SSH_CHANNEL_STATE_OPEN \<and> ses_alive session) (channel_at channel session))"

definition ssh_channel_is_closed :: "nat \<Rightarrow> ssh_session \<Rightarrow> bool option" where
  "ssh_channel_is_closed channel session = (if channel = 0 then Some True else map_option (\<lambda>c.
     chan_state c \<noteq> SSH_CHANNEL_STATE_OPEN \<or> \<not> ses_alive session) (channel_at channel session))"

definition ssh_channel_is_eof :: "nat \<Rightarrow> ssh_session \<Rightarrow> bool option" where
  "ssh_channel_is_eof channel session = (if channel = 0 then Some True else map_option (\<lambda>c.
     \<not> ssh_channel_has_unread_data c \<and> chan_remote_eof c) (channel_at channel session))"

end
