(* ===== verification/ChannelInv.thy ===== *)
theory ChannelInv
  imports Channels SendSpec UnpackSpec
begin

text \<open>
  What the operations on channels leave alone and what they keep. Sending a packet does not touch
  the channels; every operation and every handler keeps the invariant \<open>chans_ok\<close>: the buffers of
  a channel are well formed, and what is buffered together with what the peer may still send is
  never more than the default window.
\<close>

section \<open>Sending leaves the channels alone\<close>

definition same_channels :: "ssh_session \<Rightarrow> ssh_session \<Rightarrow> bool" where
  "same_channels s s' \<longleftrightarrow> ses_channels s' = ses_channels s \<and> ses_in_buffer s' = ses_in_buffer s"

lemma same_channels_refl [simp]: "same_channels s s" by (simp add: same_channels_def)

lemma same_channels_trans: "same_channels a b \<Longrightarrow> same_channels b c \<Longrightarrow> same_channels a c"
  by (simp add: same_channels_def)

lemma same_channels_updates [simp]:
  "same_channels s (s'\<lparr>ses_out_buffer := b\<rparr>) = same_channels s s'"
  "same_channels s (s'\<lparr>ses_out_queue := q\<rparr>) = same_channels s s'"
  "same_channels s (s'\<lparr>ses_socket := w\<rparr>) = same_channels s s'"
  "same_channels s (s'\<lparr>ses_send_seq := n\<rparr>) = same_channels s s'"
  "same_channels s (s'\<lparr>ses_flags := fl\<rparr>) = same_channels s s'"
  "same_channels s (s'\<lparr>ses_next_crypto := c\<rparr>) = same_channels s s'"
  "same_channels s (s'\<lparr>ses_current_crypto := c\<rparr>) = same_channels s s'"
  "same_channels s (s'\<lparr>ses_dh_handshake_state := st\<rparr>) = same_channels s s'"
  "same_channels s (s'\<lparr>ses_session_state := sst\<rparr>) = same_channels s s'"
  "same_channels s (s'\<lparr>ses_global_req_state := g\<rparr>) = same_channels s s'"
  "same_channels s (ssh_set_error e s') = same_channels s s'"
  "same_channels s (crypto_update slot f s') = same_channels s s'"
  by (simp_all add: same_channels_def ssh_set_error_def crypto_update_def split: crypto_slot.split)

lemma channels_selectors [simp]:
  "ses_channels (crypto_update slot f s) = ses_channels s" "ses_in_buffer (crypto_update slot f s) = ses_in_buffer s"
  "ses_channels (ssh_set_error e s) = ses_channels s" "ses_in_buffer (ssh_set_error e s) = ses_in_buffer s"
  by (simp_all add: ssh_set_error_def crypto_update_def split: crypto_slot.split)

locale quiet_packets =
  fixes env :: packet_env
  assumes new_keys_same: "env_new_keys env s = (s', rc) \<Longrightarrow> same_channels s s'"
    and set_kex_same: "env_set_kex env s = (s', rc) \<Longrightarrow> same_channels s s'"
    and kexinit_same: "env_kexinit env s = (s', rc) \<Longrightarrow> same_channels s s'"
begin

lemma install_keys_same: "install_keys env s = (s', rc) \<Longrightarrow> same_channels s s'"
  by (auto simp: install_keys_def Let_def split: option.splits)

lemma switch_crypto_same: "switch_crypto env s = (s', rc) \<Longrightarrow> same_channels s s'"
  by (auto simp: switch_crypto_def Let_def split: if_splits)

lemma set_newkeys_same: "ssh_packet_set_newkeys env s d = (s', rc) \<Longrightarrow> same_channels s s'"
  unfolding ssh_packet_set_newkeys_def Let_def
  by (auto split: option.splits if_splits prod.splits
      dest!: new_keys_same install_keys_same switch_crypto_same intro: same_channels_trans
      simp: same_channels_def)

lemma encrypt_same: "ssh_packet_encrypt env s data = (s', d, h) \<Longrightarrow> same_channels s s'"
  unfolding ssh_packet_encrypt_def Let_def
  by (auto split: option.splits if_splits prod.splits)

lemma packet_write_same: "ssh_packet_write env s = Some (s', rc) \<Longrightarrow> same_channels s s'"
  by (auto simp: ssh_packet_write_def ssh_socket_write_def split: option.splits if_splits)

lemma send_framed_same: "send_framed env s slot ht type n fl padding out = Some (s', rc) \<Longrightarrow> same_channels s s'"
  unfolding send_framed_def Let_def
  by (auto split: option.splits if_splits prod.splits
      dest!: encrypt_same packet_write_same set_newkeys_same simp: same_channels_def)

lemma send2_same: "packet_send2 env s = Some (s', rc) \<Longrightarrow> same_channels s s'"
  unfolding packet_send2_def Let_def
  by (auto split: option.splits if_splits prod.splits list.splits dest!: send_framed_same
      simp: same_channels_def)

lemma send_queue_same:
  assumes "\<And>x y r. rekex x = Some (y, r) \<Longrightarrow> same_channels x y"
    and "send_queue env rekex q s rc = Some (s', rc')"
  shows "same_channels s s'"
  using assms(2)
proof (induction q arbitrary: s rc)
  case (Cons b q)
  show ?case
  proof (cases "ssh_packet_need_rekey env s (ssh_buffer_get_len b)")
    case False
    with Cons.prems obtain s1 r1 where
      1: "packet_send2 env (s\<lparr>ses_out_buffer := Some b, ses_out_queue := q\<rparr>) = Some (s1, r1)"
        "r1 \<noteq> 0 \<and> s' = s1 \<or> send_queue env rekex q s1 r1 = Some (s', rc')"
      by (auto split: option.splits if_splits)
    from send2_same [OF 1(1)] have "same_channels s s1" by (simp add: same_channels_def)
    with 1(2) Cons.IH show ?thesis by (auto intro: same_channels_trans)
  qed (use Cons.prems assms(1) in auto)
qed simp

lemma send_with_same:
  assumes "\<And>x y r. rekex x = Some (y, r) \<Longrightarrow> same_channels x y"
    and "packet_send_with env rekex s = Some (s', rc)"
  shows "same_channels s s'"
proof -
  have queue: "same_channels x y" if "send_queue env rekex q x r = Some (y, r')" for q x y r r'
    using assms(1) that by (rule send_queue_same)
  from assms(2) show ?thesis unfolding packet_send_with_def Let_def
    by (auto split: option.splits if_splits prod.splits list.splits
        dest!: send2_same assms(1) queue simp: same_channels_def)
qed

lemma send_kex_same: "ssh_send_kex env s = Some (s', rc) \<Longrightarrow> same_channels s s'"
proof -
  have none: "same_channels x y" if "packet_send_with env (\<lambda>_. None) x = Some (y, r)" for x y r
    by (rule send_with_same [OF _ that]) simp
  show "ssh_send_kex env s = Some (s', rc) \<Longrightarrow> same_channels s s'"
    unfolding ssh_send_kex_def Let_def
    by (auto split: option.splits if_splits prod.splits dest!: kexinit_same none simp: same_channels_def)
qed

lemma send_rekex_same: "ssh_send_rekex env s = Some (s', rc) \<Longrightarrow> same_channels s s'"
  unfolding ssh_send_rekex_def Let_def
  by (auto split: option.splits if_splits prod.splits
      dest!: set_kex_same send_kex_same simp: same_channels_def)

lemma packet_send_same: "ssh_packet_send env s = Some (s', rc) \<Longrightarrow> same_channels s s'"
  unfolding ssh_packet_send_def by (rule send_with_same [OF send_rekex_same])

end

section \<open>The invariant\<close>

definition buf_ok :: "ssh_buffer option \<Rightarrow> bool" where
  "buf_ok b \<longleftrightarrow> (case b of None \<Rightarrow> True | Some b \<Rightarrow> buffer_inv b)"

definition buf_len :: "ssh_buffer option \<Rightarrow> nat" where
  "buf_len b = (case b of None \<Rightarrow> 0 | Some b \<Rightarrow> length (contents b))"

text \<open>The default window is 2 MiB.\<close>

definition chan_ok :: "ssh_channel \<Rightarrow> bool" where
  "chan_ok c \<longleftrightarrow> buf_ok (chan_stdout_buffer c) \<and> buf_ok (chan_stderr_buffer c) \<and>
     unat (chan_local_window c) + buf_len (chan_stdout_buffer c) + buf_len (chan_stderr_buffer c) \<le> 2097152"

definition chans_ok :: "ssh_session \<Rightarrow> bool" where
  "chans_ok s \<longleftrightarrow> (\<forall>c \<in> set (ses_channels s). chan_ok c) \<and>
     distinct (map chan_addr (ses_channels s)) \<and> 0 \<notin> chan_addr ` set (ses_channels s) \<and>
     buf_ok (ses_in_buffer s)"

lemma unat_WINDOW_DEFAULT: "unat WINDOW_DEFAULT = 2097152"
  by (simp add: WINDOW_DEFAULT_def CHANNEL_MAX_PACKET_def)

lemma buf_simps [simp]:
  "buf_ok None" "buf_ok (Some b) = buffer_inv b" "buf_len None = 0" "buf_len (Some b) = length (contents b)"
  by (simp_all add: buf_ok_def buf_len_def)

lemma buffered: "buf_ok b \<Longrightarrow> unat (buffered b) = buf_len b"
  by (cases b) (simp_all add: buffered_def unat_get_len)

lemma chan_ok_updates [simp]:
  "chan_ok (c\<lparr>chan_state := st\<rparr>) = chan_ok c" "chan_ok (c\<lparr>chan_flags := fl\<rparr>) = chan_ok c"
  "chan_ok (c\<lparr>chan_remote_channel := n\<rparr>) = chan_ok c" "chan_ok (c\<lparr>chan_remote_window := n\<rparr>) = chan_ok c"
  "chan_ok (c\<lparr>chan_remote_maxpacket := n\<rparr>) = chan_ok c" "chan_ok (c\<lparr>chan_remote_eof := e\<rparr>) = chan_ok c"
  "chan_ok (c\<lparr>chan_local_eof := e\<rparr>) = chan_ok c" "chan_ok (c\<lparr>chan_delayed_close := e\<rparr>) = chan_ok c"
  "chan_ok (c\<lparr>chan_exit_code := n\<rparr>) = chan_ok c" "chan_ok (c\<lparr>chan_exit_status := e\<rparr>) = chan_ok c"
  "chan_ok (c\<lparr>chan_exit_signal := g\<rparr>) = chan_ok c" "chan_ok (c\<lparr>chan_exit_core_dumped := e\<rparr>) = chan_ok c"
  "chan_ok (c\<lparr>chan_request_state := q\<rparr>) = chan_ok c" "chan_ok (c\<lparr>chan_local_channel := n\<rparr>) = chan_ok c"
  "chan_ok (c\<lparr>chan_local_maxpacket := n\<rparr>) = chan_ok c"
  by (simp_all add: chan_ok_def)

lemma chans_ok_same: "same_channels s s' \<Longrightarrow> chans_ok s' = chans_ok s"
  by (simp add: chans_ok_def same_channels_def)

lemma chans_ok_updates [simp]:
  "chans_ok (s\<lparr>ses_out_buffer := b\<rparr>) = chans_ok s" "chans_ok (s\<lparr>ses_session_state := st\<rparr>) = chans_ok s"
  "chans_ok (s\<lparr>ses_maxchannel := n\<rparr>) = chans_ok s" "chans_ok (s\<lparr>ses_flags := fl\<rparr>) = chans_ok s"
  "chans_ok (ssh_set_error e s) = chans_ok s" "chans_ok (reinit_out env s) = chans_ok s"
  "chans_ok (s\<lparr>ses_global_req_state := g\<rparr>) = chans_ok s"
  by (simp_all add: chans_ok_def ssh_set_error_def reinit_out_def)

lemma channel_at_Some: "channel_at a s = Some c \<Longrightarrow> c \<in> set (ses_channels s) \<and> chan_addr c = a"
  by (auto simp: channel_at_def find_Some_iff)

lemma channel_at_ok: "chans_ok s \<Longrightarrow> channel_at a s = Some c \<Longrightarrow> chan_ok c"
  by (auto simp: chans_ok_def dest: channel_at_Some)

lemma channel_at_unique:
  assumes "chans_ok s" and "c \<in> set (ses_channels s)" and "chan_addr c = a"
  shows "channel_at a s = Some c"
proof -
  from assms(2,3) have "channel_at a s \<noteq> None" by (auto simp: channel_at_def find_None_iff)
  then obtain d where d: "channel_at a s = Some d" by auto
  with channel_at_Some [OF d] assms have "d = c"
    by (auto simp: chans_ok_def distinct_map inj_on_def)
  with d show ?thesis by simp
qed

lemma channel_at_same: "same_channels s s' \<Longrightarrow> channel_at a s' = channel_at a s"
  by (simp add: channel_at_def same_channels_def)

text \<open>An update of one channel keeps the invariant if it keeps that of the channel.\<close>

lemma chans_ok_set:
  assumes "chans_ok s" and "\<And>c. channel_at a s = Some c \<Longrightarrow> chan_ok c \<Longrightarrow> chan_ok (f c) \<and> chan_addr (f c) = a"
  shows "chans_ok (channel_set a f s)"
proof -
  have f: "chan_ok (f c) \<and> chan_addr (f c) = a" if "c \<in> set (ses_channels s)" "chan_addr c = a" for c
    using that assms(1) channel_at_unique [OF assms(1) that] by (intro assms(2)) (auto simp: chans_ok_def)
  have "map chan_addr (map (\<lambda>c. if chan_addr c = a then f c else c) (ses_channels s)) =
      map chan_addr (ses_channels s)" using f by auto
  moreover from this have "chan_addr ` set (map (\<lambda>c. if chan_addr c = a then f c else c) (ses_channels s)) =
      chan_addr ` set (ses_channels s)" by (metis list.set_map)
  moreover have "\<forall>c \<in> set (map (\<lambda>c. if chan_addr c = a then f c else c) (ses_channels s)). chan_ok c"
    using assms(1) f by (auto simp: chans_ok_def)
  ultimately show ?thesis
    using assms(1) by (simp add: chans_ok_def channel_set_def del: map_map set_map)
qed

lemma chans_ok_plain:
  assumes "chans_ok s" and "\<And>c. chan_ok (f c) = chan_ok c" and "\<And>c. chan_addr (f c) = chan_addr c"
  shows "chans_ok (channel_set a f s)"
  using assms channel_at_Some by (intro chans_ok_set) auto

lemma channel_put_Some: "channel_put a f s = Some s' \<longleftrightarrow> channel_at a s \<noteq> None \<and> s' = channel_set a f s"
  by (auto simp: channel_put_def split: option.splits)

lemma channel_at_set:
  "channel_at a (channel_set a f s) = map_option f (channel_at a s)" if "\<And>c. chan_addr (f c) = chan_addr c"
proof -
  have "List.find (\<lambda>c. chan_addr c = a) (map (\<lambda>c. if chan_addr c = a then f c else c) xs) =
      map_option f (List.find (\<lambda>c. chan_addr c = a) xs)" for xs
    using that by (induction xs) auto
  then show ?thesis by (simp add: channel_at_def channel_set_def)
qed

lemma free_ok: "chans_ok s \<Longrightarrow> chans_ok (ssh_channel_do_free a s)"
  by (auto simp: chans_ok_def ssh_channel_do_free_def distinct_map_filter)

lemma channel_set_set:
  assumes "\<And>c. chan_addr (g c) = chan_addr c"
  shows "channel_set a f (channel_set a g s) = channel_set a (\<lambda>c. f (g c)) s"
  using assms by (auto simp: channel_set_def)

lemma set_buffer_simps [simp]:
  "chan_addr (set_channel_buffer e b c) = chan_addr c"
  "chan_local_window (set_channel_buffer e b c) = chan_local_window c"
  "channel_buffer e (set_channel_buffer e b c) = b"
  by (simp_all add: set_channel_buffer_def channel_buffer_def)

text \<open>The invariant with the two streams interchangeable.\<close>

lemma chan_ok_stream: "chan_ok c \<longleftrightarrow> buf_ok (channel_buffer e c) \<and> buf_ok (channel_buffer (\<not> e) c) \<and>
    unat (chan_local_window c) + buf_len (channel_buffer e c) + buf_len (channel_buffer (\<not> e) c) \<le> 2097152"
  by (cases e) (auto simp: chan_ok_def channel_buffer_def)

lemma chan_ok_set_buffer: "chan_ok (set_channel_buffer e b c) \<longleftrightarrow>
    buf_ok b \<and> buf_ok (channel_buffer (\<not> e) c) \<and>
    unat (chan_local_window c) + buf_len b + buf_len (channel_buffer (\<not> e) c) \<le> 2097152"
  by (cases e) (auto simp: chan_ok_def channel_buffer_def set_channel_buffer_def)

lemma chan_ok_shrink:
  assumes "chan_ok c" and "buf_ok b" and "buf_len b \<le> buf_len (channel_buffer e c)"
  shows "chan_ok (set_channel_buffer e b c)"
  using assms unfolding chan_ok_set_buffer by (subst (asm) chan_ok_stream [of c e]) linarith

lemma pass_bytes_shrinks:
  assumes "buffer_inv b"
  shows "buffer_inv (fst (ssh_buffer_pass_bytes b n)) \<and> length (contents (fst (ssh_buffer_pass_bytes b n))) \<le> length (contents b)"
  using pass_bytes_cases [OF assms, of n] by cases (use assms in simp_all)

text \<open>\<open>len\<close> bytes arrive: they go from the window to a buffer.\<close>

lemma chan_ok_receive:
  assumes "chan_ok c" and "buffer_inv b" and "length (contents b) \<le> buf_len (channel_buffer e c) + unat len"
    and "len \<le> chan_local_window c"
  shows "chan_ok ((set_channel_buffer e (Some b) c)\<lparr>chan_local_window := chan_local_window c - len\<rparr>)"
proof -
  have "unat (chan_local_window c - len) = unat (chan_local_window c) - unat len"
    and le: "unat len \<le> unat (chan_local_window c)"
    using assms(4) by (simp_all add: unat_sub word_le_nat_alt)
  moreover have "chan_ok (x\<lparr>chan_local_window := w\<rparr>) \<longleftrightarrow> buf_ok (channel_buffer e x) \<and>
      buf_ok (channel_buffer (\<not> e) x) \<and>
      unat w + buf_len (channel_buffer e x) + buf_len (channel_buffer (\<not> e) x) \<le> 2097152" for x w
    by (subst chan_ok_stream [of _ e]) (simp add: channel_buffer_def)
  moreover have "channel_buffer (\<not> e) (set_channel_buffer e b' c) = channel_buffer (\<not> e) c" for b'
    by (simp add: channel_buffer_def set_channel_buffer_def)
  ultimately show ?thesis using assms(1-3) by (subst (asm) chan_ok_stream [of c e]) (simp, linarith)
qed

section \<open>Writing as a sequence of packets\<close>

text \<open>
  The runs of the loop of \<open>channel_write_common\<close> that end, with the chunks of data they send, each with
  the window and the packet size of the peer when it is sent: a run
  ends with all data written, with a wait that gives up, or with a packet that cannot be sent; before
  that it waits for a window or sends a chunk.
\<close>

definition window_open :: "ssh_channel \<Rightarrow> u32 \<Rightarrow> bool" where
  "window_open c n \<longleftrightarrow> \<not> (chan_remote_window c < n \<and> chan_remote_window c = 0)"

definition wait_gave_up :: "nat \<Rightarrow> ssh_session \<Rightarrow> ssh_channel \<Rightarrow> int \<Rightarrow> bool" where
  "wait_gave_up a s c rc \<longleftrightarrow> rc = SSH_ERROR \<or> ssh_channel_waitwindow_termination a s \<noteq> Some True \<or>
     ses_session_state s = SSH_SESSION_STATE_ERROR \<or> chan_state c = SSH_CHANNEL_STATE_CLOSED"

inductive write_trace :: "channel_env \<Rightarrow> nat \<Rightarrow> bool \<Rightarrow> bytes \<Rightarrow> u32 \<Rightarrow> poll_turn list \<Rightarrow> ssh_session \<Rightarrow>
    (u32 \<times> u32 \<times> bytes) list \<Rightarrow> ssh_session \<times> write_end \<times> u32 \<times> poll_turn list \<Rightarrow> bool" for env a e where
  trace_done: "write_trace env a e d 0 turns s [] (s, Write_all, 0, turns)"
| trace_out: "n \<noteq> 0 \<Longrightarrow> channel_at a s = Some c \<Longrightarrow> \<not> window_open c n \<Longrightarrow>
    ssh_handle_packets_termination env SSH_TIMEOUT_DEFAULT (ssh_channel_waitwindow_termination a) turns s =
      Some (s1, rc, turns1) \<Longrightarrow> channel_at a s1 = Some c1 \<Longrightarrow> wait_gave_up a s1 c1 rc \<Longrightarrow>
    write_trace env a e d n turns s [] (s1, Write_out, n, turns1)"
| trace_wait: "n \<noteq> 0 \<Longrightarrow> channel_at a s = Some c \<Longrightarrow> \<not> window_open c n \<Longrightarrow>
    ssh_handle_packets_termination env SSH_TIMEOUT_DEFAULT (ssh_channel_waitwindow_termination a) turns s =
      Some (s1, rc, turns1) \<Longrightarrow> channel_at a s1 = Some c1 \<Longrightarrow> \<not> wait_gave_up a s1 c1 rc \<Longrightarrow>
    write_trace env a e d n turns1 s1 chunks r \<Longrightarrow> write_trace env a e d n turns s chunks r"
| trace_stop: "n \<noteq> 0 \<Longrightarrow> channel_at a s = Some c \<Longrightarrow> window_open c n \<Longrightarrow>
    write_packet env a e d (write_chunk c n) s = Some (s1, Some w) \<Longrightarrow>
    write_trace env a e d n turns s [] (s1, w, n, turns)"
| trace_packet: "n \<noteq> 0 \<Longrightarrow> channel_at a s = Some c \<Longrightarrow> window_open c n \<Longrightarrow>
    write_packet env a e d (write_chunk c n) s = Some (s1, None) \<Longrightarrow>
    write_trace env a e (drop (unat (write_chunk c n)) d) (n - write_chunk c n) turns s1 chunks r \<Longrightarrow>
    write_trace env a e d n turns s ((chan_remote_window c, chan_remote_maxpacket c, take (unat (write_chunk c n)) d) # chunks) r"

lemma write_loop_trace:
  assumes "write_loop env a e d n turns s = Some r"
  shows "\<exists>chunks. write_trace env a e d n turns s chunks r"
proof (rule write_loop.raw_induct [OF _ assms,
    where P = "\<lambda>env a e d n turns s r. \<exists>chunks. write_trace env a e d n turns s chunks r"], goal_cases)
  case (1 loop env a e d n turns s r)
  note A = 1(2)
  show ?case
  proof (cases "n = 0")
    case True
    with A have "r = (s, Write_all, 0, turns)" by simp
    with True trace_done show ?thesis by blast
  next
    case n: False
    with A obtain c where c: "channel_at a s = Some c" by (auto split: option.splits)
    show ?thesis
    proof (cases "window_open c n")
      case True
      with A n c obtain s1 w where p: "write_packet env a e d (write_chunk c n) s = Some (s1, w)"
        by (auto simp: window_open_def Let_def split: option.splits)
      show ?thesis
      proof (cases w)
        case None
        with A n c True p have "loop env a e (drop (unat (write_chunk c n)) d) (n - write_chunk c n) turns s1 = Some r"
          by (simp add: window_open_def Let_def split: if_splits)
        from 1(1) [OF this] show ?thesis using trace_packet [OF n c True p [unfolded None]] by blast
      next
        case (Some w')
        with A n c True p have "r = (s1, w', n, turns)" by (simp add: window_open_def Let_def split: if_splits)
        then show ?thesis using trace_stop [OF n c True p [unfolded Some]] by blast
      qed
    next
      case False
      with A n c obtain s1 rc turns1 c1 where w: "ssh_handle_packets_termination env (- 3)
          (ssh_channel_waitwindow_termination a) turns s = Some (s1, rc, turns1)" "channel_at a s1 = Some c1"
        by (auto simp: window_open_def split: option.splits)
      show ?thesis
      proof (cases "wait_gave_up a s1 c1 rc")
        case True
        with A n c False w have "r = (s1, Write_out, n, turns1)"
          unfolding window_open_def wait_gave_up_def by (auto split: if_splits)
        then show ?thesis using trace_out [OF n c False w True] by blast
      next
        case go: False
        with A n c False w have "loop env a e d n turns1 s1 = Some r"
          unfolding window_open_def wait_gave_up_def by (auto split: if_splits)
        from 1(1) [OF this] show ?thesis using trace_wait [OF n c False w go] by blast
      qed
    qed
  qed
qed

section \<open>The calls of the user keep the invariant\<close>

text \<open>What happens while a call waits keeps the invariant.\<close>

definition turns_ok :: "poll_turn list \<Rightarrow> bool" where
  "turns_ok turns \<longleftrightarrow> (\<forall>t \<in> set turns. \<forall>s s' rc. turn_dopoll t s = (s', rc) \<longrightarrow> chans_ok s \<longrightarrow> chans_ok s')"

text \<open>What a read leaves of the channel.\<close>

definition after_read :: "bool \<Rightarrow> ssh_buffer \<Rightarrow> ssh_channel \<Rightarrow> ssh_channel" where
  "after_read e b c = (let c = set_channel_buffer e (Some b) c
     in if chan_delayed_close c \<and> \<not> ssh_channel_has_unread_data c
        then c\<lparr>chan_state := SSH_CHANNEL_STATE_CLOSED\<rparr> else c)"

definition window_increment :: "ssh_channel \<Rightarrow> u32" where
  "window_increment c =
    (let used = chan_local_window c + buffered (chan_stdout_buffer c) + buffered (chan_stderr_buffer c)
     in if WINDOW_DEFAULT > used then WINDOW_DEFAULT - used else 0)"

locale channel_api = allocator "env_mem (chn_send env)" + quiet_packets "chn_send env"
  for env :: channel_env +
  assumes calloc_fresh: "chn_calloc env s = Some a \<Longrightarrow> a \<noteq> 0 \<and> a \<notin> chan_addr ` set (ses_channels s)"
begin

lemma pack_out_same: "pack_out env f args s = Some (s', rc) \<Longrightarrow> same_channels s s'"
  by (auto simp: pack_out_def bind_eq_Some_conv split: prod.splits)

lemma unpack_in_ok:
  assumes "unpack_in env p (concat css) s = Some (s', args, rc)" and "outs_typed p css" and "p \<noteq> []"
    and "chans_ok s"
  shows "chans_ok s' \<and> ses_channels s' = ses_channels s"
proof -
  from assms(1) obtain b b' where b: "ses_in_buffer s = Some b"
    "ssh_buffer_unpack (chn_mem env) (chn_bignum env) b p (concat css) = Some (b', args, rc)"
    "s' = s\<lparr>ses_in_buffer := Some b'\<rparr>"
    by (auto simp: unpack_in_def bind_eq_Some_conv split: prod.splits)
  have "buffer_inv b" using assms(4) b(1) by (simp add: chans_ok_def)
  from unpack_typed [OF this assms(2,3), of "chn_bignum env"] b(2) have "buffer_inv b'"
    by (auto simp: consumed_def)
  with b(3) assms(4) show ?thesis by (simp add: chans_ok_def)
qed

lemma unpack_in_any:
  assumes "unpack_in env p args s = Some (s', args', rc)" and "chans_ok s"
    and "\<exists>css. args = concat css \<and> outs_typed p css" and "p \<noteq> []"
  shows "chans_ok s'" and "channel_at a s' = channel_at a s"
  using unpack_in_ok assms by (auto simp: channel_at_def)

lemma unpack_formats:
  "\<exists>css. [Out_u32 x] = concat css \<and> outs_typed ''d'' css"
  "\<exists>css. [Out_u32 x, Out_u32 y, Out_u32 z] = concat css \<and> outs_typed ''ddd'' css"
  "\<exists>css. [Out_u32 x, Out_cstring c1] = concat css \<and> outs_typed ''ds'' css"
  "\<exists>css. [Out_cstring c1, Out_u8 b] = concat css \<and> outs_typed ''sb'' css"
  "\<exists>css. [Out_cstring c1] = concat css \<and> outs_typed ''s'' css"
  "\<exists>css. [Out_cstring c1, Out_u8 b, Out_cstring c2, Out_cstring c3] = concat css \<and> outs_typed ''sbss'' css"
proof -
  have "[Out_u32 x] = concat [[Out_u32 x]] \<and> outs_typed ''d'' [[Out_u32 x]]"
    "[Out_u32 x, Out_u32 y, Out_u32 z] = concat [[Out_u32 x], [Out_u32 y], [Out_u32 z]] \<and>
       outs_typed ''ddd'' [[Out_u32 x], [Out_u32 y], [Out_u32 z]]"
    "[Out_u32 x, Out_cstring c1] = concat [[Out_u32 x], [Out_cstring c1]] \<and>
       outs_typed ''ds'' [[Out_u32 x], [Out_cstring c1]]"
    "[Out_cstring c1, Out_u8 b] = concat [[Out_cstring c1], [Out_u8 b]] \<and>
       outs_typed ''sb'' [[Out_cstring c1], [Out_u8 b]]"
    "[Out_cstring c1] = concat [[Out_cstring c1]] \<and> outs_typed ''s'' [[Out_cstring c1]]"
    "[Out_cstring c1, Out_u8 b, Out_cstring c2, Out_cstring c3] =
       concat [[Out_cstring c1], [Out_u8 b], [Out_cstring c2], [Out_cstring c3]] \<and>
       outs_typed ''sbss'' [[Out_cstring c1], [Out_u8 b], [Out_cstring c2], [Out_cstring c3]]"
    by (simp_all add: outs_typed_def)
  then show "\<exists>css. [Out_u32 x] = concat css \<and> outs_typed ''d'' css"
    "\<exists>css. [Out_u32 x, Out_u32 y, Out_u32 z] = concat css \<and> outs_typed ''ddd'' css"
    "\<exists>css. [Out_u32 x, Out_cstring c1] = concat css \<and> outs_typed ''ds'' css"
    "\<exists>css. [Out_cstring c1, Out_u8 b] = concat css \<and> outs_typed ''sb'' css"
    "\<exists>css. [Out_cstring c1] = concat css \<and> outs_typed ''s'' css"
    "\<exists>css. [Out_cstring c1, Out_u8 b, Out_cstring c2, Out_cstring c3] = concat css \<and> outs_typed ''sbss'' css"
    by blast+
qed

lemmas unpack_in_rules [consumes 2] =
  unpack_in_any [OF _ _ unpack_formats(1), simplified] unpack_in_any [OF _ _ unpack_formats(2), simplified]
  unpack_in_any [OF _ _ unpack_formats(3), simplified] unpack_in_any [OF _ _ unpack_formats(4), simplified]
  unpack_in_any [OF _ _ unpack_formats(5), simplified] unpack_in_any [OF _ _ unpack_formats(6), simplified]

lemma from_msg_ok:
  assumes "channel_from_msg env s = Some (s', a)" and "chans_ok s"
  shows "chans_ok s'" and "a \<noteq> 0 \<Longrightarrow> channel_at a s' \<noteq> None"
proof -
  from assms(1) obtain s1 args rc where u: "unpack_in env ''d'' [Out_u32 0] s = Some (s1, args, rc)"
    and s': "a = 0 \<and> s' = ssh_set_error SSH_FATAL s1 \<or>
      a \<noteq> 0 \<and> s' = s1 \<and> a = ssh_channel_from_local s1 (out_u32 (args ! 0))"
    by (auto simp: channel_from_msg_def bind_eq_Some_conv Let_def split: prod.splits if_splits)
  from unpack_in_rules(1) [OF u assms(2)] have ok: "chans_ok s1" .
  then show "chans_ok s'" using s' by auto
  assume "a \<noteq> 0"
  with s' have "s' = s1" "a = ssh_channel_from_local s1 (out_u32 (args ! 0))" by simp_all
  then obtain c where
    "List.find (\<lambda>c. chan_local_channel c = out_u32 (args ! 0)) (ses_channels s1) = Some c" and a: "a = chan_addr c"
    using \<open>a \<noteq> 0\<close> by (auto simp: ssh_channel_from_local_def split: option.splits)
  then have "c \<in> set (ses_channels s1)" by (auto simp: find_Some_iff)
  from channel_at_unique [OF ok this refl] show "channel_at a s' \<noteq> None"
    by (simp add: \<open>s' = s1\<close> a)
qed

lemma used_window:
  assumes "chan_ok c"
  shows "unat (chan_local_window c + buffered (chan_stdout_buffer c) + buffered (chan_stderr_buffer c)) =
    unat (chan_local_window c) + buf_len (chan_stdout_buffer c) + buf_len (chan_stderr_buffer c)"
  using assms buffered [of "chan_stdout_buffer c"] buffered [of "chan_stderr_buffer c"]
  by (simp add: chan_ok_def unat_add32)

lemma grow_window_cases:
  assumes "grow_window env a s = Some (s', rc)"
  obtains (same) "same_channels s s'"
  | (grown) c s2 where "channel_at a s = Some c" and "same_channels s s2"
      and "s' = channel_set a (\<lambda>c'. c'\<lparr>chan_local_window := chan_local_window c' + window_increment c\<rparr>) s2"
proof -
  from assms obtain c where c: "channel_at a s = Some c" by (auto simp: grow_window_def bind_eq_Some_conv)
  let ?args = "[VA_int (ucast (93 :: u8)), VA_int (chan_remote_channel c), VA_int (window_increment c)]"
  consider "s' = s" | s1 r1 where "pack_out env ''bdd'' ?args s = Some (s1, r1)"
      "s' = reinit_out env (ssh_set_error SSH_FATAL s1)"
    | s1 s2 r1 r2 where "pack_out env ''bdd'' ?args s = Some (s1, r1)"
      "ssh_packet_send (chn_send env) s1 = Some (s2, r2)"
      "s' = reinit_out env s2 \<or> s' = channel_set a (\<lambda>c'. c'\<lparr>chan_local_window := chan_local_window c' + window_increment c\<rparr>) s2"
    using assms
    by (auto simp: grow_window_def c bind_eq_Some_conv Let_def channel_put_Some window_increment_def
        split: if_splits prod.splits)
  then show thesis
  proof cases
    case 2
    then show thesis using pack_out_same [OF 2(1)] by (intro same) (simp add: reinit_out_def)
  next
    case 3
    from pack_out_same [OF 3(1)] packet_send_same [OF 3(2)] have "same_channels s s2"
      by (rule same_channels_trans)
    with 3(3) c same grown show thesis by (auto simp: reinit_out_def)
  qed (use same in simp)
qed

lemma grow_window_ok:
  assumes "grow_window env a s = Some (s', rc)" and "chans_ok s"
  shows "chans_ok s'"
  using assms(1)
proof (cases rule: grow_window_cases)
  case (grown c s2)
  let ?used = "chan_local_window c + buffered (chan_stdout_buffer c) + buffered (chan_stderr_buffer c)"
  let ?inc = "window_increment c"
  have ok: "chans_ok s2" and at: "channel_at a s2 = Some c"
    using assms(2) grown(1,2) by (simp_all add: chans_ok_same channel_at_same)
  have c: "chan_ok c" using channel_at_ok [OF assms(2) grown(1)] .
  have "unat (chan_local_window c + ?inc) +
      buf_len (chan_stdout_buffer c) + buf_len (chan_stderr_buffer c) \<le> 2097152"
  proof (cases "WINDOW_DEFAULT > ?used")
    case True
    then have inc: "unat ?inc = 2097152 - unat ?used" "unat ?used < 2097152"
      by (simp_all add: window_increment_def word_less_nat_alt unat_WINDOW_DEFAULT unat_sub32)
    with used_window [OF c] have "unat (chan_local_window c + ?inc) = unat (chan_local_window c) + unat ?inc"
      by (intro unat_add32) linarith
    then show ?thesis using inc used_window [OF c] by linarith
  qed (use c in \<open>simp add: chan_ok_def window_increment_def\<close>)
  then have "chan_ok (c\<lparr>chan_local_window := chan_local_window c + ?inc\<rparr>)" using c by (simp add: chan_ok_def)
  then have "chans_ok (channel_set a (\<lambda>c'. c'\<lparr>chan_local_window := chan_local_window c' + ?inc\<rparr>) s2)"
    using ok at by (intro chans_ok_set) (auto dest: channel_at_Some)
  with grown(3) show ?thesis by simp
qed (use assms(2) in \<open>simp add: chans_ok_same\<close>)

lemma reply_ok: "channel_reply env a st s = Some (s', r) \<Longrightarrow> chans_ok s \<Longrightarrow> chans_ok s'"
  by (auto simp: channel_reply_def bind_eq_Some_conv split: if_splits
      dest!: pack_out_same packet_send_same chans_ok_same)

text \<open>Receiving data: the buffer may only have shrunk (freed, if memory is short) or grown by the data,
  which the window had room for.\<close>

lemma bufferize_cases:
  assumes "channel_default_bufferize env a (Some d) len e s = Some (s', rc)" and "chans_ok s"
    and "channel_at a s = Some c" and "unat len \<le> length d" and "len \<le> chan_local_window c"
  shows "rc < 0 \<and> chans_ok s' \<or> rc = 0 \<and> (\<exists>b old. s' = channel_set a (set_channel_buffer e (Some b)) s \<and>
    buffer_inv b \<and> contents b = old @ take (unat len) d \<and>
    old = (case channel_buffer e c of None \<Rightarrow> [] | Some b \<Rightarrow> contents b) \<and>
    chan_ok ((set_channel_buffer e (Some b) c)\<lparr>chan_local_window := chan_local_window c - len\<rparr>))"
proof (cases "a = 0")
  case False
  have ok: "chan_ok c" using channel_at_ok [OF assms(2,3)] .
  show ?thesis
  proof (cases "case channel_buffer e c of Some b \<Rightarrow> Some b | None \<Rightarrow> ssh_buffer_new (chn_mem env)")
    case None
    then show ?thesis using assms(1-3) False by (auto simp: channel_default_bufferize_def)
  next
    case (Some b)
    let ?old = "case channel_buffer e c of None \<Rightarrow> [] | Some b \<Rightarrow> contents b"
    from Some ok have b: "buffer_inv b" "contents b = ?old"
      using new_fresh chan_ok_stream [of c e] by (auto split: option.splits)
    from add_data_cases [OF b(1) assms(4)] show ?thesis
    proof cases
      case (1 b')
      have "chan_ok (set_channel_buffer e None c)" using ok by (intro chan_ok_shrink) auto
      then have "chans_ok (channel_set a (set_channel_buffer e None) (ssh_set_error SSH_FATAL s))"
        using assms(2,3) by (intro chans_ok_set) (auto simp: channel_at_def dest: channel_at_Some [unfolded channel_at_def])
      with assms(1,3) False Some 1 show ?thesis by (auto simp: channel_default_bufferize_def)
    next
      case (2 b')
      have "length (contents b') \<le> buf_len (channel_buffer e c) + unat len"
        using 2(3) b(2) assms(4) by (cases "channel_buffer e c") auto
      from chan_ok_receive [OF ok 2(2) this assms(5)] assms(1,3) False Some 2 b(2)
      show ?thesis by (auto simp: channel_default_bufferize_def)
    qed
  qed
qed (use assms in \<open>auto simp: channel_default_bufferize_def\<close>)

lemma data_string_ok:
  assumes "channel_data_string env s type = Some (s', r)" and "chans_ok s"
  shows "chans_ok s'" and "ses_channels s' = ses_channels s" and "r = Some (str, e) \<Longrightarrow> string_wf str"
proof -
  from assms obtain p where p: "ses_in_buffer s = Some p" "buffer_inv p"
    by (auto simp: channel_data_string_def bind_eq_Some_conv chans_ok_def)
  let ?q = "if type = 94 then (p, 0, 4) else ssh_buffer_get_u32 p 0 :: ssh_buffer \<times> u32 \<times> u32"
  have q: "consumed p (fst ?q)"
  proof -
    obtain p' d n where g: "ssh_buffer_get_data p 4 = (p', d, n)" by (cases "ssh_buffer_get_data p 4")
    from get_data_consumed [OF p(2) g] g p(2) show ?thesis
      by (auto simp: ssh_buffer_get_u32_def intro: consumed_refl)
  qed
  obtain p1 w n where q1: "?q = (p1, w, n)" by (cases ?q)
  with q have inv: "buffer_inv p1" by (simp add: consumed_def)
  obtain p2 t where g: "ssh_buffer_get_ssh_string (chn_mem env) p1 = (p2, t)" by fastforce
  have inv2: "buffer_inv p2" using get_ssh_string_consumed [OF inv g] by (simp add: consumed_def)
  have s': "(s' = s\<lparr>ses_in_buffer := Some p1\<rparr> \<and> r = None) \<or>
      (s' = s\<lparr>ses_in_buffer := Some p2\<rparr> \<and> r = map_option (\<lambda>s. (s, type \<noteq> 94)) t)"
    using assms(1) by (auto simp: channel_data_string_def bind_eq_Some_conv p(1) q1 g split: if_splits)
  with assms(2) inv inv2 show "chans_ok s'" "ses_channels s' = ses_channels s"
    by (auto simp: chans_ok_def)
  show "string_wf str" if "r = Some (str, e)"
    using get_ssh_string_cases [OF inv] by cases (use that s' g in auto)
qed


lemma handle_packets_ok:
  assumes "ssh_handle_packets t s = (s', rc)" and "turns_ok (t # ts)" and "chans_ok s"
  shows "chans_ok s'"
proof -
  obtain x r where "turn_dopoll t s = (x, r)" by fastforce
  moreover from this assms(2,3) have "chans_ok x" by (auto simp: turns_ok_def)
  ultimately show ?thesis using assms(1,3)
    by (auto simp: ssh_handle_packets_def split: poll_setup.splits if_splits)
qed

lemma turns_ok_Cons: "turns_ok (t # ts) \<Longrightarrow> turns_ok ts" by (simp add: turns_ok_def)

lemma wait_loop_ok:
  assumes "wait_loop ms fct ret turns s = Some (s', rc, turns')" and "turns_ok turns" and "chans_ok s"
  shows "chans_ok s' \<and> turns_ok turns'"
  using assms
proof (induction turns arbitrary: s ret)
  case (Cons turn turns)
  obtain s1 r1 where h: "ssh_handle_packets turn s = (s1, r1)" by fastforce
  have ok1: "chans_ok s1" "turns_ok turns"
    using handle_packets_ok [OF h Cons.prems(2,3)] turns_ok_Cons [OF Cons.prems(2)] by simp_all
  have "s' = s \<and> turns' = turn # turns \<or> s' = s1 \<and> turns' = turns \<or>
      wait_loop ms fct r1 turns s1 = Some (s', rc, turns')"
    using Cons.prems(1) h by (auto split: option.splits bool.splits if_splits)
  then show ?case using Cons ok1 by blast
qed (auto split: option.splits bool.splits)

lemma wait_ok: "ssh_handle_packets_termination env t fct turns s = Some (s', rc, turns') \<Longrightarrow>
    turns_ok turns \<Longrightarrow> chans_ok s \<Longrightarrow> chans_ok s' \<and> turns_ok turns'"
  unfolding ssh_handle_packets_termination_def by (rule wait_loop_ok)

lemma flush_ok: "ssh_channel_flush env turns s = Some (s', rc, turns') \<Longrightarrow>
    turns_ok turns \<Longrightarrow> chans_ok s \<Longrightarrow> chans_ok s' \<and> turns_ok turns'"
  by (auto simp: ssh_channel_flush_def ssh_blocking_flush_def split: option.splits dest: wait_ok)

lemma send_message_ok:
  assumes "send_channel_message env a type s = Some (s', rc, p)" and "chans_ok s"
  shows "chans_ok s'"
proof -
  have "same_channels s s'" using assms(1)
    by (auto simp: send_channel_message_def bind_eq_Some_conv split: if_splits
        dest!: pack_out_same packet_send_same intro: same_channels_trans)
  with assms(2) show ?thesis by (simp add: chans_ok_same)
qed

lemma send_eof_ok:
  assumes "ssh_channel_send_eof env a turns s = Some (s', rc, turns')" and "turns_ok turns" and "chans_ok s"
  shows "chans_ok s' \<and> turns_ok turns'"
  using assms
  by (auto simp: ssh_channel_send_eof_def bind_eq_Some_conv channel_put_Some split: if_splits
      dest: send_message_ok dest!: flush_ok intro!: chans_ok_plain)

lemma close_ok:
  assumes "ssh_channel_close env a turns s = Some (s', rc, turns')" and "turns_ok turns" and "chans_ok s"
  shows "chans_ok s' \<and> turns_ok turns'"
proof (cases "a = 0")
  case a: False
  note A = assms(1) [unfolded ssh_channel_close_def if_not_P [OF a]]
  from A obtain c where c: "channel_at a s = Some c" by (auto simp: bind_eq_Some_conv)
  note A = A [unfolded c bind.bind_lunit]
  show ?thesis
  proof (cases "has_flag (chan_flags c) 2")
    case False
    note A = A [unfolded if_not_P [OF False]]
    from A obtain s1 r1 t1 where e: "ssh_channel_send_eof env a turns s = Some (s1, r1, t1)"
      by (auto simp: bind_eq_Some_conv)
    have ok1: "chans_ok s1" "turns_ok t1" using send_eof_ok [OF e assms(2,3)] by simp_all
    note A = A [unfolded e bind.bind_lunit prod.case]
    show ?thesis
    proof (cases "r1 = 0")
      case True
      then have "\<not> r1 \<noteq> 0" by simp
      note A = A [unfolded if_not_P [OF this]]
      from A obtain s2 r2 p where m: "send_channel_message env a 97 s1 = Some (s2, r2, p)"
        by (auto simp: bind_eq_Some_conv)
      have ok2: "chans_ok s2" using send_message_ok [OF m ok1(1)] .
      note A = A [unfolded m bind.bind_lunit prod.case]
      show ?thesis
      proof (cases p)
        case True
        let ?s3 = "if r2 = 0 then channel_put a (\<lambda>c. c\<lparr>chan_state := SSH_CHANNEL_STATE_CLOSED,
            chan_flags := chan_flags c OR 2\<rparr>) s2 else Some s2"
        from A True obtain s3 where s3: "?s3 = Some s3" by (cases ?s3) auto
        then have ok3: "chans_ok s3" using ok2 by (auto simp: channel_put_Some chans_ok_plain split: if_splits)
        from A True s3 obtain s4 r4 where "ssh_channel_flush env t1 s3 = Some (s4, r4, turns')"
          "s' = s4 \<or> s' = reinit_out env s4" by (auto simp: bind_eq_Some_conv split: if_split_asm)
        with flush_ok [OF this(1) ok1(2) ok3] show ?thesis by auto
      qed (use A ok1 ok2 in auto)
    qed (use A ok1 in simp)
  qed (use A assms in simp)
qed (use assms in \<open>simp add: ssh_channel_close_def\<close>)

lemma channel_free_ok:
  assumes "ssh_channel_free env a turns s = Some (s', turns')" and "turns_ok turns" and "chans_ok s"
  shows "chans_ok s' \<and> turns_ok turns'"
  using assms
  by (auto simp: ssh_channel_free_def bind_eq_Some_conv Let_def chans_ok_plain split: if_splits
      dest!: close_ok intro!: free_ok chans_ok_plain)

lemma open_end_ok: "channel_open_end a turns s e = Some (s', rc, turns') \<Longrightarrow> s' = s \<and> turns' = turns"
  by (auto simp: channel_open_end_def bind_eq_Some_conv)

lemma open_pending_ok:
  assumes "channel_open_pending env a turns s = Some (s', rc, turns')" and "turns_ok turns" and "chans_ok s"
  shows "chans_ok s' \<and> turns_ok turns'"
  using assms
  by (auto simp: channel_open_pending_def bind_eq_Some_conv dest!: wait_ok open_end_ok)

lemma request_pending_ok:
  assumes "channel_request_pending env a turns s = Some (s', rc, turns')" and "turns_ok turns" and "chans_ok s"
  shows "chans_ok s' \<and> turns_ok turns'"
proof -
  from assms(1) obtain s1 r1 where w: "ssh_handle_packets_termination env (- 3)
      (ssh_channel_request_termination a) turns s = Some (s1, r1, turns')"
    and s': "s' = s1 \<or> (\<exists>e. s' = channel_set a (\<lambda>c. c\<lparr>chan_request_state := SSH_CHANNEL_REQ_STATE_NONE\<rparr>) s1 \<or>
      s' = channel_set a (\<lambda>c. c\<lparr>chan_request_state := SSH_CHANNEL_REQ_STATE_NONE\<rparr>) (ssh_set_error e s1))"
    by (auto simp: channel_request_pending_def bind_eq_Some_conv Let_def
        split: ssh_channel_request_state.split_asm if_split_asm)
      (metis ssh_channel_request_state.exhaust)
  have "chans_ok s1" "turns_ok turns'" using wait_ok [OF w assms(2,3)] by simp_all
  with s' show ?thesis by (auto intro!: chans_ok_plain)
qed

lemma pack_data_same:
  assumes "pack_channel_data env rch e d n s = Some (s', r)"
  shows "same_channels s s'"
  using assms
  by (auto simp: pack_channel_data_def bind_eq_Some_conv split: if_splits
      dest!: pack_out_same intro: same_channels_trans)

lemma write_packet_ok:
  assumes "write_packet env a e d n s = Some (s', r)" and "chans_ok s"
  shows "chans_ok s'"
proof -
  from assms(1) obtain s1 where s1: "same_channels s s1"
    "s' = s1 \<or> s' = channel_set a (\<lambda>c. c\<lparr>chan_remote_window := chan_remote_window c - n\<rparr>) s1"
    by (auto simp: write_packet_def bind_eq_Some_conv channel_put_Some split: if_splits
        dest!: pack_data_same packet_send_same intro: same_channels_trans)
  with assms(2) chans_ok_same [OF s1(1)] show ?thesis by (auto intro!: chans_ok_plain)
qed

lemma write_trace_ok: "write_trace env a e d n turns s chunks r \<Longrightarrow> turns_ok turns \<Longrightarrow> chans_ok s \<Longrightarrow>
    chans_ok (fst r) \<and> turns_ok (snd (snd (snd r)))"
  by (induction rule: write_trace.induct) (auto dest: wait_ok write_packet_ok)

lemma write_ok:
  assumes "channel_write_common env a d n e turns s = Some (s', rc, turns')" and "turns_ok turns" and "chans_ok s"
  shows "chans_ok s' \<and> turns_ok turns'"
proof (cases "a = 0 \<or> d = None")
  case False
  then obtain data where d: "a \<noteq> 0" "d = Some data" by auto
  note A = assms(1) [unfolded channel_write_common_def if_not_P [OF d(1)] d(2) option.case]
  from A obtain c where c: "channel_at a s = Some c" by (auto simp: bind_eq_Some_conv)
  note A = A [unfolded c bind.bind_lunit]
  show ?thesis
  proof (cases "0x7fffffff < n \<or> chan_local_eof c \<or>
      (chan_state c \<noteq> SSH_CHANNEL_STATE_OPEN \<or> chan_delayed_close c) \<or> ses_session_state s = SSH_SESSION_STATE_ERROR")
    case True
    then show ?thesis using A assms by (auto split: if_split_asm)
  next
    case False
    then have no: "\<not> 0x7fffffff < n" "\<not> chan_local_eof c"
      "\<not> (chan_state c \<noteq> SSH_CHANNEL_STATE_OPEN \<or> chan_delayed_close c)" "\<not> ses_session_state s = SSH_SESSION_STATE_ERROR"
      by blast+
    let ?wait = "if \<not> ssh_waitsession_unblocked s then ssh_handle_packets_termination env (- 3)
        (Some \<circ> ssh_waitsession_unblocked) turns s else Some (s, 0, turns)"
    note A = A [unfolded if_not_P [OF no(1)] if_not_P [OF no(2)] if_not_P [OF no(3)] if_not_P [OF no(4)]]
    from A obtain s1 r1 t1 where w: "?wait = Some (s1, r1, t1)" by (cases ?wait) auto
    have ok1: "chans_ok s1" "turns_ok t1" using w assms(2,3) wait_ok [of _ _ turns s] by (auto split: if_splits)
    note A = A [unfolded w bind.bind_lunit prod.case]
    show ?thesis
    proof (cases "r1 = - 1 \<or> \<not> ssh_waitsession_unblocked s1")
      case False
      note A = A [unfolded if_not_P [OF False]]
      from A obtain s2 r2 left t2 where l: "write_loop env a e data n t1 s1 = Some (s2, r2, left, t2)"
        by (auto simp: bind_eq_Some_conv)
      from write_loop_trace [OF l] write_trace_ok [OF _ ok1(2,1)] have ok2: "chans_ok s2" "turns_ok t2" by auto
      note A = A [unfolded l bind.bind_lunit prod.case]
      show ?thesis
      proof (cases "r2 = Write_all")
        case True
        from A True obtain s3 r3 where "ssh_channel_flush env t2 s2 = Some (s3, r3, turns')"
          "s' = s3 \<or> s' = reinit_out env s3" by (auto simp: bind_eq_Some_conv split: if_split_asm)
        with flush_ok [OF this(1) ok2(2,1)] show ?thesis by auto
      qed (use A ok2 in \<open>cases r2; auto\<close>)
    qed (use A ok1 in simp)
  qed
qed (use assms in \<open>cases "a = 0"; auto simp: channel_write_common_def\<close>)

lemma read_ok:
  assumes "ssh_channel_read_timeout env a n e ms turns s = Some (s', rc, d, turns')" and "turns_ok turns"
    and "chans_ok s"
  shows "chans_ok s' \<and> turns_ok turns'"
proof (cases "a = 0 \<or> n = 0")
  case False
  let ?wait = "ssh_handle_packets_termination env (if ms < - 3 then - 1 else ms) (ssh_channel_read_termination a e) turns s"
  from False have a: "a \<noteq> 0" "n \<noteq> 0" by simp_all
  note A = assms(1) [unfolded ssh_channel_read_timeout_def if_not_P [OF a(1)] if_not_P [OF a(2)]]
  from A obtain s1 r1 t1 where w: "?wait = Some (s1, r1, t1)" by (cases ?wait) auto
  have ok: "chans_ok s1" "turns_ok t1" using wait_ok [OF w assms(2,3)] by simp_all
  note A = A [unfolded w bind.bind_lunit prod.case]
  show ?thesis
  proof (cases "(r1 = - 1 \<or> r1 = - 2) \<or> ses_session_state s1 = SSH_SESSION_STATE_ERROR")
    case True
    then show ?thesis using A ok by (auto split: if_split_asm)
  next
    case go: False
    then have go: "\<not> (r1 = - 1 \<or> r1 = - 2)" "\<not> ses_session_state s1 = SSH_SESSION_STATE_ERROR" by blast+
    note A = A [unfolded if_not_P [OF go(1)] if_not_P [OF go(2)]]
    from A obtain c b where c: "channel_at a s1 = Some c" "channel_buffer e c = Some b"
      by (auto simp: bind_eq_Some_conv)
    note A = A [unfolded c bind.bind_lunit]
    show ?thesis
    proof (cases "(chan_remote_eof c \<and> ssh_buffer_get_len b = 0) \<or> chan_state c = SSH_CHANNEL_STATE_CLOSED")
      case True
      then show ?thesis using A ok by (auto split: if_split_asm)
    next
      case False
      then have no: "\<not> (chan_remote_eof c \<and> ssh_buffer_get_len b = 0)" "\<not> chan_state c = SSH_CHANNEL_STATE_CLOSED"
        by blast+
      note A = A [unfolded if_not_P [OF no(1)] if_not_P [OF no(2)]]
      from A obtain m r2 where g: "turns' = t1"
        "grow_window env a (channel_set a (after_read e (fst (ssh_buffer_pass_bytes b m))) s1) = Some (s', r2)"
        unfolding after_read_def Let_def by (auto simp: bind_eq_Some_conv)
      have "chan_ok c" using channel_at_ok [OF ok(1) c(1)] .
      with c(2) have "buffer_inv b" by (subst (asm) chan_ok_stream [of c e]) simp
      with pass_bytes_shrinks [OF this, of m] c ok(1)
      have "chans_ok (channel_set a (after_read e (fst (ssh_buffer_pass_bytes b m))) s1)"
        by (intro chans_ok_set) (auto simp: Let_def after_read_def intro!: chan_ok_shrink dest: channel_at_Some)
      from grow_window_ok [OF g(2) this] ok(2) g(1) show ?thesis by simp
    qed
  qed
qed (use assms in \<open>cases "a = 0"; auto simp: ssh_channel_read_timeout_def\<close>)

lemma open_ok:
  assumes "channel_open env a type w m p turns s = Some (s', rc, turns')" and "w \<le> WINDOW_DEFAULT"
    and "turns_ok turns" and "chans_ok s"
    and fresh: "\<And>c. channel_at a s = Some c \<Longrightarrow> chan_state c = SSH_CHANNEL_STATE_NOT_OPEN \<Longrightarrow>
      buf_len (chan_stdout_buffer c) = 0 \<and> buf_len (chan_stderr_buffer c) = 0"
  shows "chans_ok s' \<and> turns_ok turns'"
proof -
  from assms(1) obtain c where c: "channel_at a s = Some c" by (auto simp: channel_open_def bind_eq_Some_conv)
  note A = assms(1) [unfolded channel_open_def c bind.bind_lunit]
  show ?thesis
  proof (cases "chan_state c")
    case SSH_CHANNEL_STATE_NOT_OPEN
    let ?s0 = "s\<lparr>ses_maxchannel := ses_maxchannel s + 1\<rparr>"
    let ?s1 = "channel_set a (\<lambda>c. c\<lparr>chan_local_channel := ses_maxchannel s + 1, chan_local_maxpacket := m,
        chan_local_window := w\<rparr>) ?s0"
    have "unat w \<le> 2097152" using assms(2) by (simp add: word_le_nat_alt unat_WINDOW_DEFAULT)
    with fresh [OF c SSH_CHANNEL_STATE_NOT_OPEN] have "chan_ok (c\<lparr>chan_local_window := w\<rparr>)"
      using channel_at_ok [OF assms(4) c] by (simp add: chan_ok_def)
    then have ok1: "chans_ok ?s1" using assms(4) c
      by (intro chans_ok_set) (auto simp: channel_at_def chan_ok_def dest: channel_at_Some [unfolded channel_at_def])
    note A = A [unfolded SSH_CHANNEL_STATE_NOT_OPEN ssh_channel_state.case ssh_channel_new_id_def prod.case Let_def]
    from A obtain s2 r2 where p: "pack_out env ''bsddd'' [VA_int (ucast (90 :: u8)), VA_pointer (Some (c_string type)),
        VA_int (ses_maxchannel s + 1), VA_int w, VA_int m] ?s1 = Some (s2, r2)"
      by (auto simp: bind_eq_Some_conv)
    have ok2: "chans_ok s2" using ok1 chans_ok_same [OF pack_out_same [OF p]] by simp
    note A = A [unfolded p bind.bind_lunit prod.case]
    show ?thesis
    proof (cases "r2 \<noteq> 0")
      case False
      note A = A [unfolded if_not_P [OF False]]
      from A obtain out where out: "ses_out_buffer s2 = Some out" by (auto simp: bind_eq_Some_conv)
      obtain b r3 where b: "(case p of None \<Rightarrow> (out, 0) | Some p \<Rightarrow> ssh_buffer_add_buffer (chn_mem env) out p) = (b, r3)"
        by fastforce
      note A = A [unfolded out bind.bind_lunit b prod.case]
      let ?s3 = "channel_set a (\<lambda>c. c\<lparr>chan_state := SSH_CHANNEL_STATE_OPENING\<rparr>) (s2\<lparr>ses_out_buffer := Some b\<rparr>)"
      have ok3: "chans_ok ?s3" using ok2 by (intro chans_ok_plain) simp_all
      show ?thesis
      proof (cases "r3 < 0")
        case False
        note A = A [unfolded if_not_P [OF False]]
        from A obtain s4 r4 where s4: "ssh_packet_send (chn_send env) ?s3 = Some (s4, r4)"
          "s' = s4 \<and> turns' = turns \<or> channel_open_pending env a turns s4 = Some (s', rc, turns')"
          by (auto simp: bind_eq_Some_conv split: if_splits)
        have "chans_ok s4" using ok3 chans_ok_same [OF packet_send_same [OF s4(1)]] by simp
        with s4(2) open_pending_ok assms(3) show ?thesis by auto
      qed (use A ok2 assms(3) in auto)
    qed (use A ok2 assms(3) in auto)
  qed (use A assms(3,4) in \<open>auto dest: open_end_ok open_pending_ok\<close>)
qed

lemma request_message_same:
  assumes "channel_request_message env c q b reply s = Some (s', r)"
  shows "same_channels s s'"
  using assms
  by (auto simp: channel_request_message_def add_out_def bind_eq_Some_conv case_prod_beta
      split: if_split_asm option.split_asm dest!: pack_out_same)

lemma request_ok:
  assumes "channel_request env a q b reply turns s = Some (s', rc, turns')" and "turns_ok turns" and "chans_ok s"
  shows "chans_ok s' \<and> turns_ok turns'"
proof -
  from assms(1) obtain c where c: "channel_at a s = Some c" by (auto simp: channel_request_def bind_eq_Some_conv)
  note A = assms(1) [unfolded channel_request_def c bind.bind_lunit]
  show ?thesis
  proof (cases "chan_request_state c \<noteq> SSH_CHANNEL_REQ_STATE_NONE")
    case False
    note A = A [unfolded if_not_P [OF False]]
    from A obtain s1 r1 where p: "channel_request_message env c q b reply s = Some (s1, r1)"
      by (auto elim: bind_SomeE)
    have ok1: "chans_ok s1" using assms(3) chans_ok_same [OF request_message_same [OF p]] by simp
    note A = A [unfolded p bind.bind_lunit prod.case Let_def]
    let ?s2 = "channel_set a (\<lambda>c. c\<lparr>chan_request_state := SSH_CHANNEL_REQ_STATE_PENDING\<rparr>) s1"
    have ok2: "chans_ok ?s2" using ok1 by (intro chans_ok_plain) simp_all
    show ?thesis
    proof (cases "r1 < 0")
      case False
      note A = A [unfolded if_not_P [OF False]]
      from A obtain s3 r3 where s3: "ssh_packet_send (chn_send env) ?s2 = Some (s3, r3)"
        "s' = s3 \<and> turns' = turns \<or> channel_request_pending env a turns s3 = Some (s', rc, turns') \<or>
         s' = channel_set a (\<lambda>c. c\<lparr>chan_request_state := SSH_CHANNEL_REQ_STATE_NONE\<rparr>) s3 \<and> turns' = turns"
        by (auto simp: bind_eq_Some_conv channel_put_Some split: if_splits)
      have "chans_ok s3" using ok2 chans_ok_same [OF packet_send_same [OF s3(1)]] by simp
      with s3(2) request_pending_ok assms(2) show ?thesis by (auto intro!: chans_ok_plain)
    qed (use A ok1 assms(2) in auto)
  qed (use A assms(2,3) in \<open>auto dest: request_pending_ok\<close>)
qed

lemma packed_request_ok:
  assumes "packed_request env a q p args reply turns s = Some (s', rc, turns')" and "turns_ok turns" and "chans_ok s"
  shows "chans_ok s' \<and> turns_ok turns'"
  using assms
  by (auto simp: packed_request_def bind_eq_Some_conv split: if_splits option.splits dest: request_ok)

lemma repeatable_request_ok:
  assumes "repeatable_request env a q p args turns s = Some (s', rc, turns')" and "turns_ok turns" and "chans_ok s"
  shows "chans_ok s' \<and> turns_ok turns'"
  using assms
  by (auto simp: repeatable_request_def bind_eq_Some_conv split: if_splits dest: request_ok packed_request_ok)

lemma new_ok:
  assumes "ssh_channel_new env s = (s', a)" and "chans_ok s"
  shows "chans_ok s'"
  using assms new_fresh
  by (auto simp: ssh_channel_new_def chans_ok_def chan_ok_def ssh_set_error_def split: if_splits option.splits
      dest!: calloc_fresh)

lemma poll_ok:
  assumes "ssh_channel_poll env a e turns s = Some (s', rc, turns')" and "turns_ok turns" and "chans_ok s"
  shows "chans_ok s' \<and> turns_ok turns'"
proof (cases "s' = s \<and> turns' = turns")
  case False
  with assms(1) obtain t ts s1 r1 where "turns = t # ts" "ssh_handle_packets t s = (s1, r1)" "s' = s1" "turns' = ts"
    by (auto simp: ssh_channel_poll_def bind_eq_Some_conv split: if_splits list.splits prod.splits)
  then show ?thesis using handle_packets_ok [of t s s1 r1 ts] assms(2,3) turns_ok_Cons by auto
qed (use assms in simp)

lemma poll_timeout_ok:
  assumes "ssh_channel_poll_timeout env a ms e turns s = Some (s', rc, turns')" and "turns_ok turns" and "chans_ok s"
  shows "chans_ok s' \<and> turns_ok turns'"
proof (cases "a = 0")
  case a: False
  note A = assms(1) [unfolded ssh_channel_poll_timeout_def if_not_P [OF a]]
  from A obtain c where c: "channel_at a s = Some c" by (cases "channel_at a s") simp_all
  note A = A [unfolded c bind.bind_lunit]
  show ?thesis
  proof (cases "has_flag (chan_flags c) SSH_CHANNEL_FLAG_FREED_LOCAL")
    case f: False
    note A = A [unfolded if_not_P [OF f]]
    from A obtain s1 r1 t1 where w: "ssh_handle_packets_termination env ms (ssh_channel_read_termination a e) turns s =
        Some (s1, r1, t1)"
      by (cases "ssh_handle_packets_termination env ms (ssh_channel_read_termination a e) turns s") auto
    note A = A [unfolded w bind.bind_lunit prod.case]
    from A have "s' = s1 \<and> turns' = t1"
      by (cases "rc = SSH_ERROR \<or> ses_session_state s1 = SSH_SESSION_STATE_ERROR"; cases "r1 = SSH_AGAIN")
        (simp_all add: bind_eq_Some_conv Let_def split: if_split_asm, blast+)
    with wait_ok [OF w assms(2,3)] show ?thesis by simp
  qed (use A assms in simp)
qed (use assms in \<open>simp add: ssh_channel_poll_timeout_def\<close>)

lemma read_nonblocking_ok:
  assumes "ssh_channel_read_nonblocking env a n e turns s = Some (s', rc, d, turns')" and "turns_ok turns"
    and "chans_ok s"
  shows "chans_ok s' \<and> turns_ok turns'"
proof (cases "a = 0")
  case a: False
  note A = assms(1) [unfolded ssh_channel_read_nonblocking_def if_not_P [OF a]]
  from A obtain s1 r1 t1 where p: "ssh_channel_poll env a e turns s = Some (s1, r1, t1)"
    by (auto simp: bind_eq_Some_conv)
  from poll_ok [OF p assms(2,3)] have ok: "chans_ok (ssh_set_blocking s1 False)" "turns_ok t1" "chans_ok s1"
    by (simp_all add: ssh_set_blocking_def)
  note A = A [unfolded p bind.bind_lunit prod.case]
  show ?thesis
  proof (cases "r1 \<le> 0")
    case False
    note A = A [unfolded if_not_P [OF False] Let_def]
    from A obtain s2 r2 d2 t2 k where r: "ssh_channel_read_timeout env a k e (- 3) t1 (ssh_set_blocking s1 False) =
        Some (s2, r2, d2, t2)" "s' = ssh_set_blocking s2 (ssh_is_blocking s1)" "turns' = t2"
      unfolding ssh_channel_read_def bind_eq_Some_conv by auto
    from read_ok [OF r(1) ok(2,1)] r(2,3) show ?thesis by (simp add: ssh_set_blocking_def)
  qed (use A ok in simp)
qed (use assms in \<open>simp add: ssh_channel_read_nonblocking_def\<close>)

lemma request_string_ok:
  assumes "request_string env a q d turns s = Some (s', rc, turns')" and "turns_ok turns" and "chans_ok s"
  shows "chans_ok s' \<and> turns_ok turns'"
  using assms
  by (auto simp: request_string_def split: if_splits dest: repeatable_request_ok)

end

end
