(* ===== verification/ChannelHandlers.thy ===== *)
theory ChannelHandlers
  imports ChannelInv
begin

text \<open>
  The handlers of the channel messages keep the invariant of the channels, if what they call back
  does: the locale \<open>channel_user\<close> extends the one of the calls.
\<close>

locale channel_user = channel_api +
  assumes notify_ok: "chans_ok s \<Longrightarrow> chans_ok (chn_notify env event a s)"
    and data_ok: "cb \<in> set (chn_data env a) \<Longrightarrow> chans_ok s \<Longrightarrow> cb s a' d e = (s', r) \<Longrightarrow> chans_ok s'"
    and message_ok: "chans_ok s \<Longrightarrow> chans_ok (chn_message env a request w s)"
begin

lemma run_data_callbacks_ok:
  assumes "run_data_callbacks env callbacks a e s = Some (s', r)" and "set callbacks \<subseteq> set (chn_data env a)"
    and "chans_ok s"
  shows "chans_ok s'"
  using assms
proof (induction callbacks arbitrary: s)
  case (Cons cb callbacks)
  from Cons.prems(1) obtain c b where c: "channel_at a s = Some c" "channel_buffer e c = Some b"
    by (auto simp: bind_eq_Some_conv)
  obtain s1 n where cb: "cb s a (buffer_bytes b) e = (s1, n)" by fastforce
  have ok: "chans_ok s1" by (rule data_ok [where cb = cb, OF _ Cons.prems(3) cb]) (use Cons.prems(2) in auto)
  note A = Cons.prems(1) [unfolded run_data_callbacks.simps c bind.bind_lunit cb prod.case]
  consider "s' = s" | "run_data_callbacks env callbacks a e s1 = Some (s', r)"
    | d b' s2 rc where "channel_at a s1 = Some d" "channel_buffer e d = Some b'"
      "grow_window env a (channel_set a (set_channel_buffer e (Some (fst (ssh_buffer_pass_bytes b' (of_int n))))) s1)
        = Some (s2, rc)" "s' = s2 \<or> run_data_callbacks env callbacks a e s2 = Some (s', r)"
    using A by (auto simp: bind_eq_Some_conv c cb split: if_splits prod.splits)
  then show ?case
  proof cases
    case 3
    have "chan_ok d" using channel_at_ok [OF ok 3(1)] .
    with 3(2) have "buffer_inv b'" by (subst (asm) chan_ok_stream [of d e]) simp
    with pass_bytes_shrinks [OF this, of "of_int n"] 3(1,2) ok
    have "chans_ok (channel_set a (set_channel_buffer e (Some (fst (ssh_buffer_pass_bytes b' (of_int n))))) s1)"
      by (intro chans_ok_set) (auto intro!: chan_ok_shrink dest: channel_at_Some)
    from grow_window_ok [OF 3(3) this] 3(4) Cons show ?thesis by auto
  qed (use Cons ok in auto)
qed simp

lemma rcv_eof_ok: "channel_rcv_eof env s type = Some (s', r) \<Longrightarrow> chans_ok s \<Longrightarrow> chans_ok s'"
  by (auto simp: channel_rcv_eof_def bind_eq_Some_conv split: if_splits
      dest!: from_msg_ok(1) intro!: notify_ok chans_ok_plain)

lemma rcv_change_window_ok: "channel_rcv_change_window env s type = Some (s', r) \<Longrightarrow> chans_ok s \<Longrightarrow> chans_ok s'"
  by (auto simp: channel_rcv_change_window_def bind_eq_Some_conv Let_def split: if_splits
      dest!: from_msg_ok(1) dest: unpack_in_rules(1) intro!: notify_ok chans_ok_plain)

lemma request_answered_ok: "request_answered env q s type = Some (s', r) \<Longrightarrow> chans_ok s \<Longrightarrow> chans_ok s'"
  by (auto simp: request_answered_def bind_eq_Some_conv split: if_splits
      dest!: from_msg_ok(1) intro!: notify_ok chans_ok_plain)

lemma open_fail_ok: "ssh_packet_channel_open_fail env s type = Some (s', r) \<Longrightarrow> chans_ok s \<Longrightarrow> chans_ok s'"
  by (auto simp: ssh_packet_channel_open_fail_def bind_eq_Some_conv Let_def split: if_splits
      dest!: from_msg_ok(1) dest: unpack_in_rules(5) intro!: notify_ok chans_ok_plain)

lemma open_conf_ok: "ssh_packet_channel_open_conf env s type = Some (s', r) \<Longrightarrow> chans_ok s \<Longrightarrow> chans_ok s'"
  by (auto simp: ssh_packet_channel_open_conf_def bind_eq_Some_conv Let_def split: if_splits
      dest!: unpack_in_rules(1,3) intro!: notify_ok chans_ok_plain)

lemma rcv_close_ok: "channel_rcv_close env s type = Some (s', r) \<Longrightarrow> chans_ok s \<Longrightarrow> chans_ok s'"
  by (auto simp: channel_rcv_close_def bind_eq_Some_conv Let_def split: if_splits
      dest!: from_msg_ok(1) intro!: notify_ok chans_ok_plain free_ok)

lemma rcv_data_ok:
  assumes "channel_rcv_data env s type = Some (s', r)" and "chans_ok s"
  shows "chans_ok s'"
proof -
  from assms(1) obtain s1 a where m: "channel_from_msg env s = Some (s1, a)"
    by (auto simp: channel_rcv_data_def bind_eq_Some_conv)
  have ok1: "chans_ok s1" using from_msg_ok(1) [OF m assms(2)] .
  show ?thesis
  proof (cases "a = 0")
    case False
    with assms(1) m obtain s2 str where d: "channel_data_string env s1 type = Some (s2, str)"
      by (auto simp: channel_rcv_data_def bind_eq_Some_conv)
    have ok2: "chans_ok s2" using data_string_ok(1) [OF d ok1] .
    show ?thesis
    proof (cases str)
      case None
      with assms(1) m d False ok2 show ?thesis by (auto simp: channel_rcv_data_def)
    next
      case (Some se)
      obtain t e where te: "str = Some (t, e)" using Some by (cases se) auto
      let ?len = "ucast (ssh_string_len (Some t)) :: u32"
      from assms(1) m d False te obtain c where c: "channel_at a s2 = Some c"
        by (auto simp: channel_rcv_data_def bind_eq_Some_conv Let_def)
      show ?thesis
      proof (cases "?len > chan_local_window c")
        case True
        with assms(1) m d False te c ok2 show ?thesis by (auto simp: channel_rcv_data_def Let_def)
      next
        case le: False
        have wf: "string_wf t" using data_string_ok(3) [OF d ok1 te] .
        have len: "unat ?len \<le> length (str_data t)"
          using wf unat_ssh_string_len [OF wf] ssh_string_len_le [of "Some t"]
          by (simp add: unat_ucast_down string_content_def string_wf_def)
        obtain s3 rc where b: "channel_default_bufferize env a (Some (str_data t)) ?len e s2 = Some (s3, rc)"
          using assms(1) m d False te c le
          by (auto simp: channel_rcv_data_def bind_eq_Some_conv Let_def ssh_string_data_def)
        from bufferize_cases [OF b ok2 c len] le consider "rc < 0" "chans_ok s3"
          | b' where "rc = 0" "s3 = channel_set a (set_channel_buffer e (Some b')) s2"
            "chan_ok ((set_channel_buffer e (Some b') c)\<lparr>chan_local_window := chan_local_window c - ?len\<rparr>)"
          by force
        then show ?thesis
        proof cases
          case 1
          with assms(1) m d False te c le b show ?thesis
            by (auto simp: channel_rcv_data_def Let_def ssh_string_data_def)
        next
          case 2
          let ?s4 = "channel_set a (\<lambda>c. c\<lparr>chan_local_window := chan_local_window c - ?len\<rparr>) s3"
          have "chans_ok ?s4" unfolding 2(2) using ok2 c 2(3)
            by (subst channel_set_set) (auto intro!: chans_ok_set dest: channel_at_Some)
          moreover have "run_data_callbacks env (chn_data env a) a e ?s4 = Some (s', r)"
            using assms(1) m d False te c le b 2(1)
            by (auto simp: channel_rcv_data_def Let_def ssh_string_data_def bind_eq_Some_conv channel_put_Some)
          ultimately show ?thesis using run_data_callbacks_ok by blast
        qed
      qed
    qed
  qed (use assms(1) m ok1 in \<open>auto simp: channel_rcv_data_def\<close>)
qed

lemma rcv_exit_status_ok: "rcv_exit_status env a s = Some (s', r) \<Longrightarrow> chans_ok s \<Longrightarrow> chans_ok s'"
  by (auto simp: rcv_exit_status_def bind_eq_Some_conv Let_def split: if_splits
      dest!: unpack_in_rules(1) intro!: notify_ok chans_ok_plain)

lemma rcv_signal_ok: "rcv_signal env a s = Some (s', r) \<Longrightarrow> chans_ok s \<Longrightarrow> chans_ok s'"
  by (auto simp: rcv_signal_def bind_eq_Some_conv Let_def split: if_splits option.splits
      dest!: unpack_in_rules(9) intro!: notify_ok)

lemma rcv_exit_signal_ok: "rcv_exit_signal env a s = Some (s', r) \<Longrightarrow> chans_ok s \<Longrightarrow> chans_ok s'"
  by (auto simp: rcv_exit_signal_def bind_eq_Some_conv Let_def channel_put_Some split: if_splits
      dest!: unpack_in_rules(11) intro!: notify_ok chans_ok_plain)

lemma rcv_request_ok:
  assumes "channel_rcv_request env s type = Some (s', r)" and "chans_ok s"
  shows "chans_ok s'"
proof -
  from assms(1) obtain s1 a where m: "channel_from_msg env s = Some (s1, a)"
    by (auto simp: channel_rcv_request_def bind_eq_Some_conv)
  have ok1: "chans_ok s1" using from_msg_ok(1) [OF m assms(2)] .
  show ?thesis
  proof (cases "a = 0")
    case False
    note A = assms(1) [unfolded channel_rcv_request_def m bind.bind_lunit prod.case if_not_P [OF False]]
    from A obtain s2 args rc where u: "unpack_in env ''sb'' [Out_cstring None, Out_u8 0] s1 = Some (s2, args, rc)"
      by (auto simp: bind_eq_Some_conv)
    have ok2: "chans_ok s2" using unpack_in_rules(7) [OF u ok1] .
    note A = A [unfolded u bind.bind_lunit prod.case]
    show ?thesis
    proof (cases "rc = 0")
      case True
      with A obtain q where q: "out_cstring (args ! 0) = Some q" by (auto simp: bind_eq_Some_conv)
      have notified: "chans_ok (chn_notify env Auth_agent_req a s2)" using notify_ok [OF ok2] .
      from A True show ?thesis
        unfolding q bind.bind_lunit Let_def
        using rcv_exit_status_ok [OF _ ok2] rcv_signal_ok [OF _ ok2] rcv_exit_signal_ok [OF _ ok2]
          reply_ok [OF _ ok2] reply_ok [OF _ notified] message_ok [OF ok2] notified ok2
        by (simp split: if_splits) blast+
    qed (use A ok2 in simp)
  qed (use assms(1) m ok1 in \<open>simp add: channel_rcv_request_def\<close>)
qed

end

end
