(* ===== verification/ChannelRequests.thy ===== *)
theory ChannelRequests
  imports Channels
begin

text \<open>
  The other channel openings and requests of \<open>channels.c\<close>, the global requests with the handlers of
  their replies, the exit state, and \<open>channel_read_buffer\<close>. A C \<open>int\<close> that is packed is its 32 bits.
\<close>

section \<open>Opening forwarding channels\<close>

text \<open>A payload is packed into a buffer of its own and sent with the opening.\<close>

definition packed_open :: "channel_env \<Rightarrow> nat \<Rightarrow> string \<Rightarrow> string \<Rightarrow> u64 va_list \<Rightarrow> poll_turn list \<Rightarrow>
    ssh_session \<Rightarrow> (ssh_session \<times> int \<times> poll_turn list) option" where
  "packed_open env channel type format args turns session =
    (case ssh_buffer_new (chn_mem env) of
       None \<Rightarrow> Some (ssh_set_error SSH_FATAL session, SSH_ERROR, turns)
     | Some payload \<Rightarrow> do {
         (payload, rc) \<leftarrow> ssh_buffer_pack (chn_mem env) (chn_bignum env) payload format args;
         (if rc \<noteq> SSH_OK then Some (ssh_set_error SSH_FATAL session, rc, turns)
          else channel_open env channel type WINDOW_DEFAULT CHANNEL_MAX_PACKET (Some payload) turns session) })"

definition ssh_channel_open_forward :: "channel_env \<Rightarrow> nat \<Rightarrow> bytes option \<Rightarrow> u32 \<Rightarrow> bytes option \<Rightarrow> u32 \<Rightarrow>
    poll_turn list \<Rightarrow> ssh_session \<Rightarrow> (ssh_session \<times> int \<times> poll_turn list) option" where
  "ssh_channel_open_forward env channel remotehost remoteport sourcehost localport turns session =
    (if channel = 0 then Some (session, SSH_ERROR, turns)
     else if remotehost = None \<or> sourcehost = None then Some (ssh_set_error SSH_FATAL session, SSH_ERROR, turns)
     else packed_open env channel ''direct-tcpip'' ''sdsd''
            [VA_pointer remotehost, VA_int remoteport, VA_pointer sourcehost, VA_int localport] turns session)"

text \<open>\<open>version\<close> is what the banner of the server said: 0 if it is not OpenSSH.\<close>

definition ssh_channel_open_forward_unix :: "channel_env \<Rightarrow> int \<Rightarrow> nat \<Rightarrow> bytes option \<Rightarrow> bytes option \<Rightarrow> u32 \<Rightarrow>
    poll_turn list \<Rightarrow> ssh_session \<Rightarrow> (ssh_session \<times> int \<times> poll_turn list) option" where
  "ssh_channel_open_forward_unix env version channel remotepath sourcehost localport turns session =
    (if channel = 0 then Some (session, SSH_ERROR, turns)
     else if version = 0 then Some (ssh_set_error SSH_REQUEST_DENIED session, SSH_ERROR, turns)
     else if remotepath = None \<or> sourcehost = None then Some (ssh_set_error SSH_FATAL session, SSH_ERROR, turns)
     else packed_open env channel ''direct-streamlocal@openssh.com'' ''ssd''
            [VA_pointer remotepath, VA_pointer sourcehost, VA_int localport] turns session)"

text \<open>The openings that can be repeated until they are answered pass no payload if they are sent.\<close>

definition repeatable_open :: "channel_env \<Rightarrow> nat \<Rightarrow> string \<Rightarrow> string \<Rightarrow> u64 va_list \<Rightarrow> poll_turn list \<Rightarrow>
    ssh_session \<Rightarrow> (ssh_session \<times> int \<times> poll_turn list) option" where
  "repeatable_open env channel type format args turns session = do {
     c \<leftarrow> channel_at channel session;
     (if chan_state c \<noteq> SSH_CHANNEL_STATE_NOT_OPEN
      then channel_open env channel type WINDOW_DEFAULT CHANNEL_MAX_PACKET None turns session
      else packed_open env channel type format args turns session) }"

definition ssh_channel_open_reverse_forward :: "channel_env \<Rightarrow> nat \<Rightarrow> bytes option \<Rightarrow> u32 \<Rightarrow> bytes option \<Rightarrow>
    u32 \<Rightarrow> poll_turn list \<Rightarrow> ssh_session \<Rightarrow> (ssh_session \<times> int \<times> poll_turn list) option" where
  "ssh_channel_open_reverse_forward env channel remotehost remoteport sourcehost localport turns session =
    (if channel = 0 then Some (session, SSH_ERROR, turns)
     else if remotehost = None \<or> sourcehost = None then Some (ssh_set_error SSH_FATAL session, SSH_ERROR, turns)
     else repeatable_open env channel ''forwarded-tcpip'' ''sdsd''
            [VA_pointer remotehost, VA_int remoteport, VA_pointer sourcehost, VA_int localport] turns session)"

definition ssh_channel_open_x11 :: "channel_env \<Rightarrow> nat \<Rightarrow> bytes option \<Rightarrow> u32 \<Rightarrow> poll_turn list \<Rightarrow> ssh_session \<Rightarrow>
    (ssh_session \<times> int \<times> poll_turn list) option" where
  "ssh_channel_open_x11 env channel orig_addr orig_port turns session =
    (if channel = 0 then Some (session, SSH_ERROR, turns)
     else if orig_addr = None then Some (ssh_set_error SSH_FATAL session, SSH_ERROR, turns)
     else repeatable_open env channel ''x11'' ''sd'' [VA_pointer orig_addr, VA_int orig_port] turns session)"

section \<open>Requests\<close>

definition ssh_channel_request_pty_size_modes :: "channel_env \<Rightarrow> nat \<Rightarrow> bytes option \<Rightarrow> u32 \<Rightarrow> u32 \<Rightarrow> bytes option \<Rightarrow>
    u64 \<Rightarrow> poll_turn list \<Rightarrow> ssh_session \<Rightarrow> (ssh_session \<times> int \<times> poll_turn list) option" where
  "ssh_channel_request_pty_size_modes env channel terminal col row modes modes_len turns session =
    (if channel = 0 then Some (session, SSH_ERROR, turns)
     else if terminal = None then Some (ssh_set_error SSH_FATAL session, SSH_ERROR, turns)
     else repeatable_request env channel ''pty-req'' ''sdddddP''
            [VA_pointer terminal, VA_int col, VA_int row, VA_int 0, VA_int 0, VA_int (ucast modes_len),
             VA_long modes_len, VA_pointer modes] turns session)"

text \<open>\<open>tty\<close> is what \<open>encode_current_tty_opts\<close> of \<open>ttyopts.c\<close> returns and writes to its buffer.\<close>

definition ssh_channel_request_pty_size :: "channel_env \<Rightarrow> int \<times> bytes \<Rightarrow> nat \<Rightarrow> bytes option \<Rightarrow> u32 \<Rightarrow> u32 \<Rightarrow>
    poll_turn list \<Rightarrow> ssh_session \<Rightarrow> (ssh_session \<times> int \<times> poll_turn list) option" where
  "ssh_channel_request_pty_size env tty channel terminal col row turns session =
    (if fst tty < 0 then Some (session, fst tty, turns)
     else ssh_channel_request_pty_size_modes env channel terminal col row (Some (snd tty)) (of_int (fst tty))
            turns session)"

definition ssh_channel_request_pty :: "channel_env \<Rightarrow> int \<times> bytes \<Rightarrow> nat \<Rightarrow> poll_turn list \<Rightarrow> ssh_session \<Rightarrow>
    (ssh_session \<times> int \<times> poll_turn list) option" where
  "ssh_channel_request_pty env tty channel turns session =
     ssh_channel_request_pty_size env tty channel (Some (c_string ''xterm'')) 80 24 turns session"

definition ssh_channel_change_pty_size :: "channel_env \<Rightarrow> nat \<Rightarrow> u32 \<Rightarrow> u32 \<Rightarrow> poll_turn list \<Rightarrow> ssh_session \<Rightarrow>
    (ssh_session \<times> int \<times> poll_turn list) option" where
  "ssh_channel_change_pty_size env channel cols rows turns session = do {
     c \<leftarrow> channel_at channel session;
     packed_request env channel ''window-change'' ''dddd'' [VA_int cols, VA_int rows, VA_int 0, VA_int 0] False
       turns session }"

definition ssh_channel_request_sftp :: "channel_env \<Rightarrow> nat \<Rightarrow> poll_turn list \<Rightarrow> ssh_session \<Rightarrow>
    (ssh_session \<times> int \<times> poll_turn list) option" where
  "ssh_channel_request_sftp env channel turns session =
    (if channel = 0 then Some (session, SSH_ERROR, turns)
     else ssh_channel_request_subsystem env channel (Some (c_string ''sftp'')) turns session)"

definition hex_digit :: "u8 \<Rightarrow> u8" where
  "hex_digit w = (if w < 10 then 48 + w else 87 + w)"

definition generate_cookie :: "channel_env \<Rightarrow> ssh_session \<Rightarrow> bytes option" where
  "generate_cookie env session = (case env_random (chn_send env) session 16 of
     None \<Rightarrow> None
   | Some rnd \<Rightarrow> (case chn_mem env 33 of
       None \<Rightarrow> None
     | Some _ \<Rightarrow> Some (concat (map (\<lambda>w. [hex_digit (w AND 0x0f), hex_digit (drop_bit 4 w)]) rnd) @ [0])))"

definition ssh_channel_request_x11 :: "channel_env \<Rightarrow> nat \<Rightarrow> bool \<Rightarrow> bytes option \<Rightarrow> bytes option \<Rightarrow> u32 \<Rightarrow>
    poll_turn list \<Rightarrow> ssh_session \<Rightarrow> (ssh_session \<times> int \<times> poll_turn list) option" where
  "ssh_channel_request_x11 env channel single_connection protocol cookie screen_number turns session =
    (if channel = 0 then Some (session, SSH_ERROR, turns)
     else do {
       c \<leftarrow> channel_at channel session;
       (if chan_request_state c \<noteq> SSH_CHANNEL_REQ_STATE_NONE
        then channel_request env channel ''x11-req'' None True turns session
        else if ssh_buffer_new (chn_mem env) = None then Some (ssh_set_error SSH_FATAL session, SSH_ERROR, turns)
        else case (case cookie of Some k \<Rightarrow> Some k | None \<Rightarrow> generate_cookie env session) of
          None \<Rightarrow> Some (ssh_set_error SSH_FATAL session, SSH_ERROR, turns)
        | Some k \<Rightarrow> packed_request env channel ''x11-req'' ''bssd''
            [VA_int (if single_connection then 1 else 0),
             VA_pointer (Some (case protocol of Some p \<Rightarrow> p | None \<Rightarrow> c_string ''MIT-MAGIC-COOKIE-1'')),
             VA_pointer (Some k), VA_int screen_number] True turns session) })"

definition ssh_channel_request_auth_agent :: "channel_env \<Rightarrow> nat \<Rightarrow> poll_turn list \<Rightarrow> ssh_session \<Rightarrow>
    (ssh_session \<times> int \<times> poll_turn list) option" where
  "ssh_channel_request_auth_agent env channel turns session =
    (if channel = 0 then Some (session, SSH_ERROR, turns)
     else channel_request env channel ''auth-agent-req@openssh.com'' None False turns session)"

definition ssh_channel_request_env :: "channel_env \<Rightarrow> nat \<Rightarrow> bytes option \<Rightarrow> bytes option \<Rightarrow> poll_turn list \<Rightarrow>
    ssh_session \<Rightarrow> (ssh_session \<times> int \<times> poll_turn list) option" where
  "ssh_channel_request_env env channel name value turns session =
    (if channel = 0 then Some (session, SSH_ERROR, turns)
     else if name = None \<or> value = None then Some (ssh_set_error SSH_FATAL session, SSH_ERROR, turns)
     else repeatable_request env channel ''env'' ''ss'' [VA_pointer name, VA_pointer value] turns session)"

text \<open>The requests without a reply do not look whether another request is waiting for its own.\<close>

definition ssh_channel_request_send_signal :: "channel_env \<Rightarrow> nat \<Rightarrow> bytes option \<Rightarrow> poll_turn list \<Rightarrow>
    ssh_session \<Rightarrow> (ssh_session \<times> int \<times> poll_turn list) option" where
  "ssh_channel_request_send_signal env channel sig turns session =
    (if channel = 0 then Some (session, SSH_ERROR, turns)
     else if sig = None then Some (ssh_set_error SSH_FATAL session, SSH_ERROR, turns)
     else packed_request env channel ''signal'' ''s'' [VA_pointer sig] False turns session)"

definition ssh_channel_request_send_break :: "channel_env \<Rightarrow> nat \<Rightarrow> u32 \<Rightarrow> poll_turn list \<Rightarrow> ssh_session \<Rightarrow>
    (ssh_session \<times> int \<times> poll_turn list) option" where
  "ssh_channel_request_send_break env channel len turns session =
    (if channel = 0 then Some (session, SSH_ERROR, turns)
     else packed_request env channel ''break'' ''d'' [VA_int len] False turns session)"

definition ssh_channel_request_send_exit_status :: "channel_env \<Rightarrow> nat \<Rightarrow> u32 \<Rightarrow> poll_turn list \<Rightarrow> ssh_session \<Rightarrow>
    (ssh_session \<times> int \<times> poll_turn list) option" where
  "ssh_channel_request_send_exit_status env channel exit_status turns session =
    (if channel = 0 then Some (session, SSH_ERROR, turns)
     else packed_request env channel ''exit-status'' ''d'' [VA_int exit_status] False turns session)"

definition ssh_channel_request_send_exit_signal :: "channel_env \<Rightarrow> nat \<Rightarrow> bytes option \<Rightarrow> bool \<Rightarrow> bytes option \<Rightarrow>
    bytes option \<Rightarrow> poll_turn list \<Rightarrow> ssh_session \<Rightarrow> (ssh_session \<times> int \<times> poll_turn list) option" where
  "ssh_channel_request_send_exit_signal env channel sig core errmsg lang turns session =
    (if channel = 0 then Some (session, SSH_ERROR, turns)
     else if sig = None \<or> errmsg = None \<or> lang = None then Some (ssh_set_error SSH_FATAL session, SSH_ERROR, turns)
     else packed_request env channel ''exit-signal'' ''sbss''
            [VA_pointer sig, VA_int (if core then 1 else 0), VA_pointer errmsg, VA_pointer lang] False turns session)"

section \<open>Global requests\<close>

text \<open>The handlers of \<open>REQUEST_SUCCESS\<close> and \<open>REQUEST_FAILURE\<close> differ in the state they set.\<close>

definition global_request_answered :: "ssh_channel_request_state \<Rightarrow> packet_handler" where
  "global_request_answered answer session type = Some
     (if ses_global_req_state session \<noteq> SSH_CHANNEL_REQ_STATE_PENDING then session
      else session\<lparr>ses_global_req_state := answer\<rparr>, SSH_PACKET_USED)"

definition ssh_request_success :: packet_handler where
  "ssh_request_success = global_request_answered SSH_CHANNEL_REQ_STATE_ACCEPTED"

definition ssh_request_denied :: packet_handler where
  "ssh_request_denied = global_request_answered SSH_CHANNEL_REQ_STATE_DENIED"

definition ssh_global_request_termination :: "ssh_session \<Rightarrow> bool" where
  "ssh_global_request_termination session \<longleftrightarrow>
     ses_global_req_state session \<noteq> SSH_CHANNEL_REQ_STATE_PENDING \<or>
     ses_session_state session = SSH_SESSION_STATE_ERROR"

definition global_request_pending :: "channel_env \<Rightarrow> poll_turn list \<Rightarrow> ssh_session \<Rightarrow>
    (ssh_session \<times> int \<times> poll_turn list) option" where
  "global_request_pending env turns session = do {
     (session, rc, turns) \<leftarrow> ssh_handle_packets_termination env SSH_TIMEOUT_DEFAULT
        (Some \<circ> ssh_global_request_termination) turns session;
     let state = (if rc = SSH_ERROR \<or> ses_session_state session = SSH_SESSION_STATE_ERROR
                  then SSH_CHANNEL_REQ_STATE_ERROR else ses_global_req_state session);
         reset = (\<lambda>session. session\<lparr>ses_global_req_state := SSH_CHANNEL_REQ_STATE_NONE\<rparr>)
     in Some (case state of
          SSH_CHANNEL_REQ_STATE_ACCEPTED \<Rightarrow> (reset session, SSH_OK, turns)
        | SSH_CHANNEL_REQ_STATE_DENIED \<Rightarrow> (reset (ssh_set_error SSH_REQUEST_DENIED session), SSH_ERROR, turns)
        | SSH_CHANNEL_REQ_STATE_ERROR \<Rightarrow> (reset session, SSH_ERROR, turns)
        | SSH_CHANNEL_REQ_STATE_NONE \<Rightarrow> (reset session, SSH_ERROR, turns)
        | SSH_CHANNEL_REQ_STATE_PENDING \<Rightarrow> (session, SSH_AGAIN, turns)) }"

definition ssh_global_request :: "channel_env \<Rightarrow> string \<Rightarrow> ssh_buffer option \<Rightarrow> bool \<Rightarrow> poll_turn list \<Rightarrow>
    ssh_session \<Rightarrow> (ssh_session \<times> int \<times> poll_turn list) option" where
  "ssh_global_request env request buffer reply turns session =
    (if ses_global_req_state session \<noteq> SSH_CHANNEL_REQ_STATE_NONE
     then global_request_pending env turns session
     else do {
       (session, rc) \<leftarrow> pack_out env ''bsb'' [VA_int (ucast SSH2_MSG_GLOBAL_REQUEST),
          VA_pointer (Some (c_string request)), VA_int (if reply then 1 else 0)] session;
       (session, rc) \<leftarrow> (if rc \<noteq> SSH_OK then Some (session, - 1)
          else case buffer of None \<Rightarrow> Some (session, 0)
          | Some b \<Rightarrow> add_out env (ssh_buffer_get b) (ssh_buffer_get_len b) session);
       (if rc < 0 then Some (reinit_out env (ssh_set_error SSH_FATAL session), SSH_ERROR, turns)
        else do {
          (session, rc) \<leftarrow> ssh_packet_send (chn_send env)
             (session\<lparr>ses_global_req_state := SSH_CHANNEL_REQ_STATE_PENDING\<rparr>);
          (if rc = SSH_ERROR then Some (session, rc, turns)
           else if \<not> reply
           then Some (session\<lparr>ses_global_req_state := SSH_CHANNEL_REQ_STATE_NONE\<rparr>, SSH_OK, turns)
           else global_request_pending env turns session) }) })"

text \<open>A request with an address and a port, which is packed only if no request is waiting.\<close>

definition forward_request :: "channel_env \<Rightarrow> string \<Rightarrow> bytes option \<Rightarrow> u32 \<Rightarrow> poll_turn list \<Rightarrow> ssh_session \<Rightarrow>
    (ssh_session \<times> int \<times> poll_turn list) option" where
  "forward_request env request address port turns session =
    (if ses_global_req_state session \<noteq> SSH_CHANNEL_REQ_STATE_NONE
     then ssh_global_request env request None True turns session
     else case ssh_buffer_new (chn_mem env) of
       None \<Rightarrow> Some (ssh_set_error SSH_FATAL session, SSH_ERROR, turns)
     | Some buffer \<Rightarrow> do {
         (buffer, rc) \<leftarrow> ssh_buffer_pack (chn_mem env) (chn_bignum env) buffer ''sd''
            [VA_pointer (Some (case address of Some a \<Rightarrow> a | None \<Rightarrow> c_string '''')), VA_int port];
         (if rc \<noteq> SSH_OK then Some (ssh_set_error SSH_FATAL session, rc, turns)
          else ssh_global_request env request (Some buffer) True turns session) })"

text \<open>The port the server chose is read from whatever packet is in \<open>in_buffer\<close> then.\<close>

definition ssh_channel_listen_forward :: "channel_env \<Rightarrow> bytes option \<Rightarrow> u32 \<Rightarrow> u32 option \<Rightarrow> poll_turn list \<Rightarrow>
    ssh_session \<Rightarrow> (ssh_session \<times> int \<times> u32 option \<times> poll_turn list) option" where
  "ssh_channel_listen_forward env address port bound_port turns session = do {
     (session, rc, turns) \<leftarrow> forward_request env ''tcpip-forward'' address port turns session;
     (case bound_port of
        Some old \<Rightarrow>
          if rc = SSH_OK \<and> port = 0
          then do {
            (session, args, rc) \<leftarrow> unpack_in env ''d'' [Out_u32 old] session;
            Some (session, rc, Some (if rc \<noteq> SSH_OK then 0 else out_u32 (args ! 0)), turns) }
          else Some (session, rc, bound_port, turns)
      | None \<Rightarrow> Some (session, rc, bound_port, turns)) }"

definition ssh_channel_cancel_forward :: "channel_env \<Rightarrow> bytes option \<Rightarrow> u32 \<Rightarrow> poll_turn list \<Rightarrow> ssh_session \<Rightarrow>
    (ssh_session \<times> int \<times> poll_turn list) option" where
  "ssh_channel_cancel_forward env address port turns session =
     forward_request env ''cancel-tcpip-forward'' address port turns session"

section \<open>The exit state\<close>

definition ssh_channel_exit_status_termination :: "nat \<Rightarrow> ssh_session \<Rightarrow> bool option" where
  "ssh_channel_exit_status_termination channel session = map_option (\<lambda>c.
     chan_exit_status c \<or> has_flag (chan_flags c) SSH_CHANNEL_FLAG_CLOSED_REMOTE \<or>
     ses_session_state session = SSH_SESSION_STATE_ERROR) (channel_at channel session)"

text \<open>With \<open>SSH_OK\<close> come the exit code, the signal and whether there was a core dump. The check that follows
  the copying of the signal tests the caller's pointer, which is not \<open>NULL\<close>: without memory the
  signal is lost.\<close>

definition ssh_channel_get_exit_state :: "channel_env \<Rightarrow> nat \<Rightarrow> poll_turn list \<Rightarrow> ssh_session \<Rightarrow>
    (ssh_session \<times> int \<times> (u32 \<times> bytes option \<times> bool) option \<times> poll_turn list) option" where
  "ssh_channel_get_exit_state env channel turns session =
    (if channel = 0 then Some (session, SSH_ERROR, None, turns)
     else do {
       c \<leftarrow> channel_at channel session;
       (if has_flag (chan_flags c) SSH_CHANNEL_FLAG_FREED_LOCAL then Some (session, SSH_ERROR, None, turns)
        else do {
          (session, rc, turns) \<leftarrow> ssh_handle_packets_termination env SSH_TIMEOUT_DEFAULT
             (ssh_channel_exit_status_termination channel) turns session;
          (if rc = SSH_ERROR \<or> ses_session_state session = SSH_SESSION_STATE_ERROR
           then Some (session, SSH_ERROR, None, turns)
           else do {
             c \<leftarrow> channel_at channel session;
             Some (if \<not> chan_exit_status c then (session, SSH_AGAIN, None, turns)
                   else (session, SSH_OK, Some (chan_exit_code c,
                     (case chan_exit_signal c of None \<Rightarrow> None
                      | Some sig \<Rightarrow> if chn_mem env (length sig) = None then None else Some sig),
                     chan_exit_core_dumped c), turns)) }) }) })"

definition ssh_channel_get_exit_status :: "channel_env \<Rightarrow> nat \<Rightarrow> poll_turn list \<Rightarrow> ssh_session \<Rightarrow>
    (ssh_session \<times> int \<times> poll_turn list) option" where
  "ssh_channel_get_exit_status env channel turns session = do {
     (session, rc, state, turns) \<leftarrow> ssh_channel_get_exit_state env channel turns session;
     Some (session, if rc \<noteq> SSH_OK then SSH_ERROR
                    else case state of None \<Rightarrow> - 1 | Some (code, _) \<Rightarrow> sint code, turns) }"

section \<open>Reading into a buffer\<close>

text \<open>The memory of the buffer at \<open>off\<close> takes the bytes of a read.\<close>

definition store_at :: "nat \<Rightarrow> bytes \<Rightarrow> ssh_buffer \<Rightarrow> ssh_buffer" where
  "store_at off d buffer = buffer\<lparr>buf_data := blit off d (buf_data buffer)\<rparr>"

text \<open>The wait for the first bytes: a poll, then a turn of the event loop.\<close>

partial_function (option) read_available :: "channel_env \<Rightarrow> nat \<Rightarrow> bool \<Rightarrow> ssh_buffer \<Rightarrow> poll_turn list \<Rightarrow>
    ssh_session \<Rightarrow> (ssh_session \<times> int \<times> ssh_buffer \<times> poll_turn list) option" where
  "read_available env channel is_stderr buffer turns session =
    (case ssh_channel_poll env channel is_stderr turns session of None \<Rightarrow> None
     | Some (session, r, turns) \<Rightarrow>
       if r < 0 then Some (session, r, buffer, turns)
       else if r > 0
       then (case ssh_buffer_allocate (chn_mem env) buffer (of_int r) of
          (buffer, None) \<Rightarrow> Some (ssh_set_error SSH_FATAL session, SSH_ERROR, buffer, turns)
        | (buffer, Some off) \<Rightarrow>
          (case ssh_channel_read env channel (of_int r) is_stderr turns session of None \<Rightarrow> None
           | Some (session, r', dest, turns) \<Rightarrow>
             let buffer = store_at off dest buffer
             in if r' < 0 then Some (session, r', fst (ssh_buffer_pass_bytes_end buffer (of_int r)), turns)
                else Some (session, r', fst (ssh_buffer_pass_bytes_end buffer (of_int r - of_int r')), turns)))
       else (case ssh_channel_is_eof channel session of None \<Rightarrow> None
         | Some eof \<Rightarrow>
           if eof then Some (session, 0, buffer, turns)
           else (case turns of [] \<Rightarrow> None
             | turn # turns \<Rightarrow>
               read_available env channel is_stderr buffer turns (fst (ssh_handle_packets turn session)))))"

text \<open>The reads of the exact count: each of them stores at the same place.\<close>

partial_function (option) read_exact :: "channel_env \<Rightarrow> nat \<Rightarrow> bool \<Rightarrow> nat \<Rightarrow> u32 \<Rightarrow> u32 \<Rightarrow> ssh_buffer \<Rightarrow>
    poll_turn list \<Rightarrow> ssh_session \<Rightarrow> (ssh_session \<times> int \<times> ssh_buffer \<times> poll_turn list) option" where
  "read_exact env channel is_stderr off count got buffer turns session =
    (if \<not> got < count then Some (session, sint got, buffer, turns)
     else (case ssh_channel_read env channel (count - got) is_stderr turns session of None \<Rightarrow> None
       | Some (session, r, dest, turns) \<Rightarrow>
         let buffer = store_at off dest buffer
         in if r < 0 then Some (session, r, fst (ssh_buffer_pass_bytes_end buffer count), turns)
            else if r = 0
            then Some (session, sint got, fst (ssh_buffer_pass_bytes_end buffer (count - got)), turns)
            else read_exact env channel is_stderr off count (got + of_int r) buffer turns session))"

definition channel_read_buffer :: "channel_env \<Rightarrow> nat \<Rightarrow> ssh_buffer option \<Rightarrow> u32 \<Rightarrow> bool \<Rightarrow> poll_turn list \<Rightarrow>
    ssh_session \<Rightarrow> (ssh_session \<times> int \<times> ssh_buffer option \<times> poll_turn list) option" where
  "channel_read_buffer env channel buffer count is_stderr turns session =
    (if channel = 0 then Some (session, SSH_ERROR, buffer, turns)
     else case buffer of None \<Rightarrow> Some (ssh_set_error SSH_FATAL session, SSH_ERROR, None, turns)
     | Some buffer \<Rightarrow> do {
         let buffer = fst (ssh_buffer_reinit (chn_mem env) buffer);
         (session, r, buffer, turns) \<leftarrow>
           (if count = 0 then read_available env channel is_stderr buffer turns session
            else case ssh_buffer_allocate (chn_mem env) buffer count of
              (buffer, None) \<Rightarrow> Some (ssh_set_error SSH_FATAL session, SSH_ERROR, buffer, turns)
            | (buffer, Some off) \<Rightarrow> read_exact env channel is_stderr off count 0 buffer turns session);
         Some (session, r, Some buffer, turns) })"

end
