(* ===== verification/RequestInv.thy ===== *)
theory RequestInv
  imports ChannelRequests ChannelInv
begin

text \<open>The calls of \<open>ChannelRequests\<close> keep the invariant of the channels.\<close>

text \<open>A channel that is opened for the first time holds no data.\<close>

definition opens_empty :: "nat \<Rightarrow> ssh_session \<Rightarrow> bool" where
  "opens_empty a s \<longleftrightarrow> (\<forall>c. channel_at a s = Some c \<longrightarrow> chan_state c = SSH_CHANNEL_STATE_NOT_OPEN \<longrightarrow>
     \<not> ssh_channel_has_unread_data c)"

context channel_api
begin

lemma open_empty_ok:
  assumes "channel_open env a type WINDOW_DEFAULT m p turns s = Some (s', rc, turns')" and "opens_empty a s"
    and "turns_ok turns" and "chans_ok s"
  shows "chans_ok s' \<and> turns_ok turns'"
proof -
  have "buf_len (chan_stdout_buffer c) = 0 \<and> buf_len (chan_stderr_buffer c) = 0"
    if c: "channel_at a s = Some c" "chan_state c = SSH_CHANNEL_STATE_NOT_OPEN" for c
  proof -
    have "buffered (chan_stdout_buffer c) = 0" "buffered (chan_stderr_buffer c) = 0"
      using assms(2) c by (auto simp: opens_empty_def ssh_channel_has_unread_data_def word_gt_0)
    moreover have "chan_ok c" using assms(4) c(1) by (rule channel_at_ok)
    ultimately show ?thesis using buffered [of "chan_stdout_buffer c"] buffered [of "chan_stderr_buffer c"]
      by (simp add: chan_ok_def)
  qed
  from open_ok [OF assms(1) order_refl assms(3,4) this] show ?thesis by simp
qed

lemma packed_open_ok:
  assumes "packed_open env a type p args turns s = Some (s', rc, turns')" and "opens_empty a s"
    and "turns_ok turns" and "chans_ok s"
  shows "chans_ok s' \<and> turns_ok turns'"
  using assms
  by (auto simp: packed_open_def bind_eq_Some_conv split: if_split_asm option.split_asm dest: open_empty_ok)

lemma repeatable_open_ok:
  assumes "repeatable_open env a type p args turns s = Some (s', rc, turns')" and "opens_empty a s"
    and "turns_ok turns" and "chans_ok s"
  shows "chans_ok s' \<and> turns_ok turns'"
  using assms
  by (auto simp: repeatable_open_def bind_eq_Some_conv split: if_split_asm dest: open_empty_ok packed_open_ok)

lemma request_x11_ok:
  assumes "ssh_channel_request_x11 env a single p k n turns s = Some (s', rc, turns')"
    and "turns_ok turns" and "chans_ok s"
  shows "chans_ok s' \<and> turns_ok turns'"
  using assms
  by (auto simp: ssh_channel_request_x11_def bind_eq_Some_conv split: if_split_asm option.split_asm
      dest: request_ok packed_request_ok)

lemma global_pending_ok:
  assumes "global_request_pending env turns s = Some (s', rc, turns')" and "turns_ok turns" and "chans_ok s"
  shows "chans_ok s' \<and> turns_ok turns'"
proof -
  from assms(1) obtain s1 r1 where w: "ssh_handle_packets_termination env (- 3)
      (Some \<circ> ssh_global_request_termination) turns s = Some (s1, r1, turns')"
    and s': "chans_ok s' = chans_ok s1"
    by (auto simp: global_request_pending_def bind_eq_Some_conv Let_def
        split: ssh_channel_request_state.split_asm if_split_asm)
      (metis ssh_channel_request_state.exhaust)
  from wait_ok [OF w assms(2,3)] s' show ?thesis by simp
qed

lemma global_request_ok:
  assumes "ssh_global_request env q b reply turns s = Some (s', rc, turns')" and "turns_ok turns" and "chans_ok s"
  shows "chans_ok s' \<and> turns_ok turns'"
proof (cases "ses_global_req_state s \<noteq> SSH_CHANNEL_REQ_STATE_NONE")
  case False
  note A = assms(1) [unfolded ssh_global_request_def if_not_P [OF False]]
  from A obtain x where x: "pack_out env ''bsb'' [VA_int (ucast (80 :: u8)), VA_pointer (Some (c_string q)),
      VA_int (if reply then 1 else 0)] s = Some x" by (auto elim: bind_SomeE)
  obtain s1 r1 where xs: "x = (s1, r1)" by (cases x)
  have ok1: "chans_ok s1" using assms(3) chans_ok_same [OF pack_out_same [OF x [unfolded xs]]] by simp
  note A = A [unfolded x xs bind.bind_lunit prod.case]
  from A obtain s2 r2 where y: "(if r1 \<noteq> SSH_OK then Some (s1, - 1) else case b of None \<Rightarrow> Some (s1, 0)
      | Some b \<Rightarrow> add_out env (ssh_buffer_get b) (ssh_buffer_get_len b) s1) = Some (s2, r2)"
    by (auto elim: bind_SomeE)
  have ok2: "chans_ok s2" using y ok1
    by (auto simp: add_out_def bind_eq_Some_conv case_prod_beta split: if_split_asm option.split_asm)
  note A = A [unfolded y bind.bind_lunit prod.case]
  show ?thesis
  proof (cases "r2 < 0")
    case False
    note A = A [unfolded if_not_P [OF False]]
    from A obtain s3 r3 where s3: "ssh_packet_send (chn_send env) (s2\<lparr>ses_global_req_state := SSH_CHANNEL_REQ_STATE_PENDING\<rparr>) =
        Some (s3, r3)" "s' = s3 \<and> turns' = turns \<or> global_request_pending env turns s3 = Some (s', rc, turns') \<or>
         s' = s3\<lparr>ses_global_req_state := SSH_CHANNEL_REQ_STATE_NONE\<rparr> \<and> turns' = turns"
      by (auto simp: bind_eq_Some_conv split: if_splits)
    have "chans_ok s3" using ok2 chans_ok_same [OF packet_send_same [OF s3(1)]] by simp
    with s3(2) global_pending_ok assms(2) show ?thesis by auto
  qed (use A ok2 assms(2) in auto)
qed (use assms in \<open>auto simp: ssh_global_request_def dest: global_pending_ok\<close>)

lemma forward_request_ok:
  assumes "forward_request env q d n turns s = Some (s', rc, turns')" and "turns_ok turns" and "chans_ok s"
  shows "chans_ok s' \<and> turns_ok turns'"
  using assms
  by (auto simp: forward_request_def bind_eq_Some_conv split: if_split_asm option.split_asm dest: global_request_ok)

lemma listen_forward_ok:
  assumes "ssh_channel_listen_forward env d n b turns s = Some (s', rc, b', turns')" and "turns_ok turns"
    and "chans_ok s"
  shows "chans_ok s' \<and> turns_ok turns'"
  using assms
  by (auto simp: ssh_channel_listen_forward_def bind_eq_Some_conv split: if_split_asm option.split_asm
      dest: forward_request_ok dest!: unpack_in_rules(1))

lemma exit_state_ok:
  assumes "ssh_channel_get_exit_state env a turns s = Some (s', rc, x, turns')" and "turns_ok turns" and "chans_ok s"
  shows "chans_ok s' \<and> turns_ok turns'"
proof (cases "s' = s \<and> turns' = turns")
  case False
  with assms(1) obtain r1 where "ssh_handle_packets_termination env (- 3) (ssh_channel_exit_status_termination a) turns s =
      Some (s', r1, turns')"
    by (auto simp: ssh_channel_get_exit_state_def bind_eq_Some_conv split: if_split_asm)
  from wait_ok [OF this assms(2,3)] show ?thesis .
qed (use assms in simp)

lemma read_available_ok:
  assumes "read_available env a e b turns s = Some r" and "turns_ok turns" and "chans_ok s"
  shows "chans_ok (fst r)"
proof -
  have "env = env \<longrightarrow> turns_ok turns \<longrightarrow> chans_ok s \<longrightarrow> chans_ok (fst r)"
  proof (rule read_available.raw_induct [OF _ assms(1), where P = "\<lambda>env' a e b turns s r. env' = env \<longrightarrow>
      turns_ok turns \<longrightarrow> chans_ok s \<longrightarrow> chans_ok (fst r)"], goal_cases)
    case (1 loop env' a e b turns s r)
    show ?case
    proof (intro impI)
      assume env: "env' = env" and t: "turns_ok turns" and s: "chans_ok s"
      note A = 1(2) [unfolded env]
      from A obtain s1 r1 t1 where p: "ssh_channel_poll env a e turns s = Some (s1, r1, t1)"
        by (cases "ssh_channel_poll env a e turns s") auto
      from poll_ok [OF p t s] have ok: "chans_ok s1" "turns_ok t1" by simp_all
      note A = A [unfolded p option.case prod.case]
      show "chans_ok (fst r)"
      proof (cases "r1 = 0")
        case False
        with A ok show ?thesis
          by (auto simp: ssh_channel_read_def Let_def split: if_split_asm option.split_asm prod.split_asm dest: read_ok)
      next
        case True
        with A ok obtain eof where "r = (s1, 0, b, t1) \<or> (\<exists>turn ts. t1 = turn # ts \<and>
            loop env a e b ts (fst (ssh_handle_packets turn s1)) = Some r)"
          by (auto split: if_split_asm option.split_asm list.split_asm)
        then show ?thesis
        proof
          assume "\<exists>turn ts. t1 = turn # ts \<and> loop env a e b ts (fst (ssh_handle_packets turn s1)) = Some r"
          then obtain turn ts where l: "t1 = turn # ts" "loop env a e b ts (fst (ssh_handle_packets turn s1)) = Some r" by blast
          obtain s2 r2 where h: "ssh_handle_packets turn s1 = (s2, r2)" by (cases "ssh_handle_packets turn s1")
          from handle_packets_ok [OF h, of ts] ok l(1) have "chans_ok s2" "turns_ok ts" by (auto dest: turns_ok_Cons)
          with 1(1) [OF l(2)] h show ?thesis by simp
        qed (use ok in simp)
      qed
    qed
  qed
  with assms(2,3) show ?thesis by simp
qed

lemma read_exact_ok:
  assumes "read_exact env a e off n k b turns s = Some r" and "turns_ok turns" and "chans_ok s"
  shows "chans_ok (fst r)"
proof -
  have "env = env \<longrightarrow> turns_ok turns \<longrightarrow> chans_ok s \<longrightarrow> chans_ok (fst r)"
  proof (rule read_exact.raw_induct [OF _ assms(1), where P = "\<lambda>env' a e off n k b turns s r. env' = env \<longrightarrow>
      turns_ok turns \<longrightarrow> chans_ok s \<longrightarrow> chans_ok (fst r)"], goal_cases)
    case (1 loop env' a e off n k b turns s r)
    show ?case
    proof (intro impI)
      assume env: "env' = env" and t: "turns_ok turns" and s: "chans_ok s"
      note A = 1(2) [unfolded env]
      show "chans_ok (fst r)"
      proof (cases "k < n")
        case True
        with A obtain s1 r1 d t1 where rd: "ssh_channel_read env a (n - k) e turns s = Some (s1, r1, d, t1)"
          by (cases "ssh_channel_read env a (n - k) e turns s") auto
        from read_ok [OF rd [unfolded ssh_channel_read_def] t s] have ok: "chans_ok s1" "turns_ok t1" by simp_all
        with A True rd 1(1) show ?thesis by (auto simp: Let_def split: if_split_asm)
      qed (use A s in auto)
    qed
  qed
  with assms(2,3) show ?thesis by simp
qed

lemma read_buffer_ok:
  assumes "channel_read_buffer env a b n e turns s = Some (s', r)" and "turns_ok turns" and "chans_ok s"
  shows "chans_ok s'"
  using assms
  by (auto simp: channel_read_buffer_def bind_eq_Some_conv Let_def split: if_split_asm option.split_asm prod.split_asm
      dest: read_available_ok read_exact_ok)

end

end
