(* ===== verification/ChannelSteps.thy ===== *)
theory ChannelSteps
  imports ChannelHandlers RequestInv
begin

text \<open>
  The channels of a session as a state machine: the calls of the user, the messages of the peer, which
  the table of \<open>packet.c\<close> gives to the handlers, and whatever else the library does. A call that waits
  and a handler that calls back the user make steps of the same machine.
\<close>

section \<open>Calls and messages\<close>

text \<open>The entries of \<open>default_packet_handlers\<close> for the channel messages an open channel takes.\<close>

definition channel_packet_handlers :: "channel_env \<Rightarrow> (u8 \<times> packet_handler) list" where
  "channel_packet_handlers env =
     [(SSH2_MSG_CHANNEL_OPEN_CONFIRMATION, ssh_packet_channel_open_conf env),
      (SSH2_MSG_CHANNEL_OPEN_FAILURE, ssh_packet_channel_open_fail env),
      (SSH2_MSG_CHANNEL_WINDOW_ADJUST, channel_rcv_change_window env),
      (SSH2_MSG_CHANNEL_DATA, channel_rcv_data env),
      (SSH2_MSG_CHANNEL_EXTENDED_DATA, channel_rcv_data env),
      (SSH2_MSG_CHANNEL_EOF, channel_rcv_eof env),
      (SSH2_MSG_CHANNEL_CLOSE, channel_rcv_close env),
      (SSH2_MSG_CHANNEL_REQUEST, channel_rcv_request env),
      (SSH2_MSG_CHANNEL_SUCCESS, ssh_packet_channel_success env),
      (SSH2_MSG_CHANNEL_FAILURE, ssh_packet_channel_failure env)]"

datatype channel_call =
    Channel_new | Open_session nat | Open_auth_agent nat
  | Request_shell nat | Request_subsystem nat "bytes option" | Request_exec nat "bytes option"
  | Write_stdout nat "bytes option" u32 | Write_stderr nat "bytes option" u32 | Flush
  | Read_timeout nat u32 bool int | Read_nonblocking nat u32 bool | Poll nat bool | Poll_timeout nat int bool
  | Send_eof nat | Close nat | Free nat
  | Open_forward nat "bytes option" u32 "bytes option" u32
  | Open_forward_unix int nat "bytes option" "bytes option" u32
  | Open_reverse_forward nat "bytes option" u32 "bytes option" u32 | Open_x11 nat "bytes option" u32
  | Request_pty_size_modes nat "bytes option" u32 u32 "bytes option" u64 | Change_pty_size nat u32 u32
  | Request_x11 nat bool "bytes option" "bytes option" u32 | Request_auth_agent nat
  | Request_env nat "bytes option" "bytes option" | Send_signal nat "bytes option" | Send_break nat u32
  | Send_exit_status nat u32 | Send_exit_signal nat "bytes option" bool "bytes option" "bytes option"
  | Listen_forward "bytes option" u32 "u32 option" | Cancel_forward "bytes option" u32
  | Get_exit_state nat | Read_buffer nat "ssh_buffer option" u32 bool

fun run_call :: "channel_env \<Rightarrow> channel_call \<Rightarrow> poll_turn list \<Rightarrow> ssh_session \<Rightarrow> ssh_session option" where
  "run_call env Channel_new turns s = Some (fst (ssh_channel_new env s))"
| "run_call env (Open_session a) turns s = map_option fst (ssh_channel_open_session env a turns s)"
| "run_call env (Open_auth_agent a) turns s = map_option fst (ssh_channel_open_auth_agent env a turns s)"
| "run_call env (Request_shell a) turns s = map_option fst (ssh_channel_request_shell env a turns s)"
| "run_call env (Request_subsystem a d) turns s = map_option fst (ssh_channel_request_subsystem env a d turns s)"
| "run_call env (Request_exec a d) turns s = map_option fst (ssh_channel_request_exec env a d turns s)"
| "run_call env (Write_stdout a d n) turns s = map_option fst (ssh_channel_write env a d n turns s)"
| "run_call env (Write_stderr a d n) turns s = map_option fst (ssh_channel_write_stderr env a d n turns s)"
| "run_call env Flush turns s = map_option fst (ssh_channel_flush env turns s)"
| "run_call env (Read_timeout a n e ms) turns s = map_option fst (ssh_channel_read_timeout env a n e ms turns s)"
| "run_call env (Read_nonblocking a n e) turns s = map_option fst (ssh_channel_read_nonblocking env a n e turns s)"
| "run_call env (Poll a e) turns s = map_option fst (ssh_channel_poll env a e turns s)"
| "run_call env (Poll_timeout a ms e) turns s = map_option fst (ssh_channel_poll_timeout env a ms e turns s)"
| "run_call env (Send_eof a) turns s = map_option fst (ssh_channel_send_eof env a turns s)"
| "run_call env (Close a) turns s = map_option fst (ssh_channel_close env a turns s)"
| "run_call env (Free a) turns s = map_option fst (ssh_channel_free env a turns s)"
| "run_call env (Open_forward a h p h' p') turns s = map_option fst (ssh_channel_open_forward env a h p h' p' turns s)"
| "run_call env (Open_forward_unix v a h h' p) turns s =
     map_option fst (ssh_channel_open_forward_unix env v a h h' p turns s)"
| "run_call env (Open_reverse_forward a h p h' p') turns s =
     map_option fst (ssh_channel_open_reverse_forward env a h p h' p' turns s)"
| "run_call env (Open_x11 a h p) turns s = map_option fst (ssh_channel_open_x11 env a h p turns s)"
| "run_call env (Request_pty_size_modes a t x y m n) turns s =
     map_option fst (ssh_channel_request_pty_size_modes env a t x y m n turns s)"
| "run_call env (Change_pty_size a x y) turns s = map_option fst (ssh_channel_change_pty_size env a x y turns s)"
| "run_call env (Request_x11 a single p k n) turns s =
     map_option fst (ssh_channel_request_x11 env a single p k n turns s)"
| "run_call env (Request_auth_agent a) turns s = map_option fst (ssh_channel_request_auth_agent env a turns s)"
| "run_call env (Request_env a n v) turns s = map_option fst (ssh_channel_request_env env a n v turns s)"
| "run_call env (Send_signal a g) turns s = map_option fst (ssh_channel_request_send_signal env a g turns s)"
| "run_call env (Send_break a n) turns s = map_option fst (ssh_channel_request_send_break env a n turns s)"
| "run_call env (Send_exit_status a n) turns s =
     map_option fst (ssh_channel_request_send_exit_status env a n turns s)"
| "run_call env (Send_exit_signal a g core m l) turns s =
     map_option fst (ssh_channel_request_send_exit_signal env a g core m l turns s)"
| "run_call env (Listen_forward d p b) turns s = map_option fst (ssh_channel_listen_forward env d p b turns s)"
| "run_call env (Cancel_forward d p) turns s = map_option fst (ssh_channel_cancel_forward env d p turns s)"
| "run_call env (Get_exit_state a) turns s = map_option fst (ssh_channel_get_exit_state env a turns s)"
| "run_call env (Read_buffer a b n e) turns s = map_option fst (channel_read_buffer env a b n e turns s)"

text \<open>The channel that a call opens. It is not opened again after an opening that failed, when the peer may
  already have sent data to its number.\<close>

fun opened :: "channel_call \<Rightarrow> nat option" where
  "opened (Open_session a) = Some a" | "opened (Open_auth_agent a) = Some a"
| "opened (Open_forward a _ _ _ _) = Some a" | "opened (Open_forward_unix _ a _ _ _) = Some a"
| "opened (Open_reverse_forward a _ _ _ _) = Some a" | "opened (Open_x11 a _ _) = Some a"
| "opened _ = None"

definition opens_fresh :: "channel_call \<Rightarrow> ssh_session \<Rightarrow> bool" where
  "opens_fresh call s \<longleftrightarrow> (case opened call of None \<Rightarrow> True | Some a \<Rightarrow> opens_empty a s)"

text \<open>
  A step is a call, with the turns in which it waits made of steps; a message of the peer, with the
  callbacks of its handler made of steps; the next packet in \<open>in_buffer\<close>; or a change of the rest of
  the session.
\<close>

inductive channel_step :: "channel_env \<Rightarrow> ssh_session \<Rightarrow> ssh_session \<Rightarrow> bool" for env where
  step_call: "run_call env call turns s = Some s' \<Longrightarrow> opens_fresh call s \<Longrightarrow>
    (\<forall>t \<in> set turns. \<forall>x. (channel_step env)\<^sup>*\<^sup>* x (fst (turn_dopoll t x))) \<Longrightarrow> channel_step env s s'"
| step_message: "map_of (channel_packet_handlers env) type = Some h \<Longrightarrow> h s type = Some (s', used) \<Longrightarrow>
    (\<forall>event a x. (channel_step env)\<^sup>*\<^sup>* x (chn_notify env event a x)) \<Longrightarrow>
    (\<forall>a. \<forall>cb \<in> set (chn_data env a). \<forall>x a' d e. (channel_step env)\<^sup>*\<^sup>* x (fst (cb x a' d e))) \<Longrightarrow>
    (\<forall>a q w x. (channel_step env)\<^sup>*\<^sup>* x (chn_message env a q w x)) \<Longrightarrow> channel_step env s s'"
| step_packet: "buffer_inv b \<Longrightarrow> channel_step env s (s\<lparr>ses_in_buffer := Some b\<rparr>)"
| step_other: "same_channels s s' \<Longrightarrow> channel_step env s s'"

section \<open>The invariant\<close>

context channel_api
begin

lemmas open_defs = ssh_channel_open_session_def ssh_channel_open_auth_agent_def ssh_channel_open_forward_def
  ssh_channel_open_forward_unix_def ssh_channel_open_reverse_forward_def ssh_channel_open_x11_def

lemmas request_defs = ssh_channel_request_shell_def ssh_channel_request_subsystem_def ssh_channel_request_exec_def
  ssh_channel_request_pty_size_modes_def ssh_channel_request_auth_agent_def ssh_channel_request_env_def

lemmas oneway_defs = ssh_channel_change_pty_size_def ssh_channel_request_send_signal_def
  ssh_channel_request_send_break_def ssh_channel_request_send_exit_status_def
  ssh_channel_request_send_exit_signal_def

lemma open_call_ok:
  assumes "run_call env call turns s = Some s'" and "opened call = Some a" and "opens_empty a s"
    and "turns_ok turns" and "chans_ok s"
  shows "chans_ok s'"
  using assms
  by (cases call) (auto simp: open_defs split: if_split_asm dest: open_empty_ok packed_open_ok repeatable_open_ok)

lemma request_call_ok:
  assumes "run_call env call turns s = Some s'" and "turns_ok turns" and "chans_ok s" and "opened call = None"
  shows "chans_ok s'"
proof (cases call)
  case Channel_new
  with assms(1,3) new_ok [of s s'] show ?thesis by (cases "ssh_channel_new env s") simp
qed (use assms in \<open>auto simp: request_defs oneway_defs ssh_channel_write_def ssh_channel_write_stderr_def
  ssh_channel_cancel_forward_def bind_eq_Some_conv split: if_split_asm
  dest: request_ok repeatable_request_ok packed_request_ok request_string_ok request_x11_ok write_ok read_ok
    read_nonblocking_ok poll_ok poll_timeout_ok send_eof_ok close_ok channel_free_ok flush_ok forward_request_ok
    listen_forward_ok exit_state_ok read_buffer_ok\<close>)

lemma call_ok:
  assumes "run_call env call turns s = Some s'" and "opens_fresh call s" and "turns_ok turns" and "chans_ok s"
  shows "chans_ok s'"
  using assms open_call_ok [OF assms(1)] request_call_ok [OF assms(1,3,4)]
  by (cases "opened call") (auto simp: opens_fresh_def)

end

context channel_user
begin

lemma handler_ok:
  assumes "map_of (channel_packet_handlers env) type = Some h" and "h s type = Some (s', used)" and "chans_ok s"
  shows "chans_ok s'"
  using assms
  by (auto simp: channel_packet_handlers_def ssh_packet_channel_success_def ssh_packet_channel_failure_def
      split: if_splits dest: open_conf_ok open_fail_ok rcv_change_window_ok rcv_data_ok rcv_eof_ok rcv_close_ok
      rcv_request_ok request_answered_ok)

end

lemma rtranclp_keeps:
  assumes "(\<lambda>x y. R x y \<and> (P x \<longrightarrow> P y))\<^sup>*\<^sup>* x y"
  shows "P x \<longrightarrow> P y"
  using assms by (induction rule: rtranclp_induct) auto

context channel_api
begin

lemma step_ok: "channel_step env s s' \<Longrightarrow> chans_ok s \<longrightarrow> chans_ok s'"
proof (induction rule: channel_step.induct)
  case (step_call call turns s s')
  have "turns_ok turns" unfolding turns_ok_def
  proof (intro ballI allI impI)
    fix t x x' rc
    assume t: "t \<in> set turns" and x: "turn_dopoll t x = (x', rc)" "chans_ok x"
    from bspec [OF step_call.IH t] have "(\<lambda>x y. channel_step env x y \<and> (chans_ok x \<longrightarrow> chans_ok y))\<^sup>*\<^sup>* x (fst (turn_dopoll t x))"
      by (rule spec)
    from rtranclp_keeps [OF this] x show "chans_ok x'" by simp
  qed
  with step_call.hyps show ?case using call_ok by blast
next
  case (step_message type h s s' used)
  have "channel_user env"
  proof (unfold_locales, goal_cases)
    case (1 s event a)
    from step_message.IH(1) [rule_format, of s event a] 1 show ?case using rtranclp_keeps by fast
  next
    case (2 cb a s a' d e s' r)
    from step_message.IH(2) [rule_format, OF 2(1), of s a' d e] have "chans_ok s \<longrightarrow> chans_ok (fst (cb s a' d e))"
      by (rule rtranclp_keeps)
    with 2 show ?case by simp
  next
    case (3 s a q w)
    from step_message.IH(3) [rule_format, of s a q w] 3 show ?case using rtranclp_keeps by fast
  qed
  with step_message.hyps show ?case using channel_user.handler_ok by blast
next
  case (step_packet b s)
  then show ?case by (auto simp: chans_ok_def)
next
  case (step_other s s')
  then show ?case by (simp add: chans_ok_same)
qed

lemma steps_ok: "(channel_step env)\<^sup>*\<^sup>* s s' \<Longrightarrow> chans_ok s \<Longrightarrow> chans_ok s'"
  by (induction rule: rtranclp_induct) (auto simp: step_ok)

end

end
