(* ===== verification/ChannelProps.thy ===== *)
theory ChannelProps
  imports ChannelSteps RecvProps PackProps
begin

text \<open>
  The properties of the channels: the bound on what a peer can make the library hold, the flow control
  and the termination of a write, the way of data from one side to the other, and the independence of
  the channels of a session.
\<close>

section \<open>An environment\<close>

definition sample_channels :: channel_env where
  "sample_channels = \<lparr>chn_send = sample_env\<lparr>env_mem := endless_mem\<rparr>, chn_bignum = word_bignum,
     chn_notify = (\<lambda>_ _ s. s), chn_data = (\<lambda>_. []), chn_auth_agent = (\<lambda>_. False),
     chn_message = (\<lambda>_ _ _ s. s), chn_calloc = (\<lambda>s. Some (Suc (sum_list (map chan_addr (ses_channels s))))),
     chn_timeout = None, chn_unsent = (\<lambda>_. 0)\<rparr>"

interpretation sample_channels: channel_user sample_channels
proof (unfold_locales, goal_cases)
  case (1 n block)
  then show ?case by (auto simp: sample_channels_def endless_mem_def)
next
  case (5 s a)
  then have "a = Suc (sum_list (map chan_addr (ses_channels s)))" by (simp add: sample_channels_def)
  then show ?case using member_le_sum_list [of _ "map chan_addr (ses_channels s)"] by fastforce
qed (auto simp: sample_channels_def sample_env_def)

interpretation sample_pack_channels: pack_setting endless_mem word_bignum unat ..

section \<open>Bounds\<close>


definition authenticated_session :: ssh_session where
  "authenticated_session = sample_session\<lparr>ses_flags := 3, ses_session_state := SSH_SESSION_STATE_AUTHENTICATED\<rparr>"


text \<open>A session with one open channel, and a turn in which the peer opens its window.\<close>

definition sample_channel :: ssh_channel where
  "sample_channel = \<lparr>chan_addr = 1, chan_local_channel = 43, chan_local_window = WINDOW_DEFAULT,
     chan_local_eof = False, chan_local_maxpacket = CHANNEL_MAX_PACKET, chan_remote_channel = 7,
     chan_remote_window = 2, chan_remote_eof = False, chan_remote_maxpacket = 4,
     chan_state = SSH_CHANNEL_STATE_OPEN, chan_delayed_close = False, chan_flags = 0,
     chan_stdout_buffer = None, chan_stderr_buffer = None, chan_exit_status = False, chan_exit_code = - 1,
     chan_exit_signal = None, chan_exit_core_dumped = False, chan_request_state = SSH_CHANNEL_REQ_STATE_NONE\<rparr>"

definition open_session :: ssh_session where
  "open_session = authenticated_session\<lparr>ses_channels := [sample_channel],
     ses_out_buffer := Some empty_buffer, ses_current_crypto := None\<rparr>"

definition widening_turn :: poll_turn where
  "widening_turn = \<lparr>turn_setup = Poll_ready, turn_dopoll = (\<lambda>s. (channel_set 1 (\<lambda>c. c\<lparr>chan_remote_window := 9\<rparr>) s, SSH_OK)),
     turn_late = False\<rparr>"

section \<open>Writing\<close>

declare write_loop.simps [code]

lemma write_chunk_le:
  assumes "n \<noteq> 0" and "window_open c n"
  shows "write_chunk c n \<le> n" and "write_chunk c n \<le> chan_remote_window c" and "write_chunk c n \<le> chan_remote_maxpacket c"
    and "chan_remote_maxpacket c > 0 \<Longrightarrow> write_chunk c n > 0"
  using assms by (auto simp: write_chunk_def window_open_def min_def word_gt_0)

lemma write_trace_chunks:
  assumes "write_trace env a e d n turns s chunks (s', w, left, turns')" and "unat n \<le> length d"
  shows "left \<le> n \<and> concat (map (snd \<circ> snd) chunks) = take (unat n - unat left) d \<and>
    (\<forall>(window, maxpacket, chunk) \<in> set chunks. length chunk \<le> unat window \<and> length chunk \<le> unat maxpacket)"
  using assms
proof (induction d n turns s chunks "(s', w, left, turns')" rule: write_trace.induct)
  case (trace_packet n s c d s1 turns chunks)
  let ?k = "write_chunk c n"
  have k: "unat ?k \<le> unat n" "unat ?k \<le> unat (chan_remote_window c)" "unat ?k \<le> unat (chan_remote_maxpacket c)"
    using write_chunk_le [OF trace_packet(1,3)] by (simp_all add: word_le_nat_alt)
  then have d: "unat (n - ?k) = unat n - unat ?k" by (simp add: unat_sub word_le_nat_alt)
  have IH: "left \<le> n - ?k" "concat (map (snd \<circ> snd) chunks) = take (unat n - unat ?k - unat left) (drop (unat ?k) d)"
    "\<forall>(window, maxpacket, chunk) \<in> set chunks. length chunk \<le> unat window \<and> length chunk \<le> unat maxpacket"
    using trace_packet.hyps(6) trace_packet.prems d by simp_all
  then have l: "unat left \<le> unat n - unat ?k" using d by (simp add: word_le_nat_alt)
  have "take (unat ?k) d @ take (unat n - unat ?k - unat left) (drop (unat ?k) d) = take (unat n - unat left) d"
    using k(1) l by (simp flip: take_add)
  with IH k l show ?case by (auto simp: word_le_nat_alt)
qed auto

lemma write_count_loop:
  assumes "channel_write_common env a (Some d) n e turns s = Some (s', rc, turns')" and "0 < rc"
  obtains s0 turns0 s1 w left turns1 where "write_loop env a e d n turns0 s0 = Some (s1, w, left, turns1)"
    and "rc = int (unat (n - left))" and "w = Write_all \<or> w = Write_out"
    and "ssh_waitsession_unblocked s \<Longrightarrow> s0 = s"
  using assms by (auto simp: channel_write_common_def bind_eq_Some_conv split: if_split_asm write_end.split_asm)
    (metis write_end.exhaust)+




text \<open>The iterations of the loop that go on.\<close>

inductive write_iteration :: "channel_env \<Rightarrow> nat \<Rightarrow> bool \<Rightarrow> bytes \<times> u32 \<times> poll_turn list \<times> ssh_session \<Rightarrow>
    bytes \<times> u32 \<times> poll_turn list \<times> ssh_session \<Rightarrow> bool" for env a e where
  iteration_wait: "n \<noteq> 0 \<Longrightarrow> channel_at a s = Some c \<Longrightarrow> \<not> window_open c n \<Longrightarrow>
    ssh_handle_packets_termination env SSH_TIMEOUT_DEFAULT (ssh_channel_waitwindow_termination a) turns s =
      Some (s1, rc, turns1) \<Longrightarrow> channel_at a s1 = Some c1 \<Longrightarrow> \<not> wait_gave_up a s1 c1 rc \<Longrightarrow>
    write_iteration env a e (d, n, turns, s) (d, n, turns1, s1)"
| iteration_packet: "n \<noteq> 0 \<Longrightarrow> channel_at a s = Some c \<Longrightarrow> window_open c n \<Longrightarrow>
    write_packet env a e d (write_chunk c n) s = Some (s1, None) \<Longrightarrow>
    write_iteration env a e (d, n, turns, s) (drop (unat (write_chunk c n)) d, n - write_chunk c n, turns, s1)"

text \<open>What an iteration needs to return: the channel, with a packet size, a packet that is sent or
  refused, and a wait that returns.\<close>

definition iteration_returns :: "channel_env \<Rightarrow> nat \<Rightarrow> bool \<Rightarrow> bytes \<Rightarrow> u32 \<Rightarrow> poll_turn list \<Rightarrow> ssh_session \<Rightarrow> bool" where
  "iteration_returns env a e d n turns s \<longleftrightarrow> (case channel_at a s of None \<Rightarrow> False | Some c \<Rightarrow>
     chan_remote_maxpacket c > 0 \<and>
     (if window_open c n then write_packet env a e d (write_chunk c n) s \<noteq> None
      else case ssh_handle_packets_termination env SSH_TIMEOUT_DEFAULT (ssh_channel_waitwindow_termination a)
             turns s of None \<Rightarrow> False | Some (s1, _) \<Rightarrow> channel_at a s1 \<noteq> None))"

definition write_measure :: "nat \<Rightarrow> u32 \<Rightarrow> ssh_session \<Rightarrow> nat" where
  "write_measure a n s = 2 * unat n + (case channel_at a s of None \<Rightarrow> 0 | Some c \<Rightarrow> if window_open c n then 0 else 1)"

lemma iteration_decreases:
  assumes "write_iteration env a e (d, n, turns, s) (d', n', turns', s')" and "iteration_returns env a e d n turns s"
  shows "write_measure a n' s' < write_measure a n s"
  using assms(1)
proof cases
  case (iteration_wait c rc c1)
  then have "chan_remote_window c1 > 0" by (auto simp: wait_gave_up_def ssh_channel_waitwindow_termination_def)
  then have "window_open c1 n" by (auto simp: window_open_def)
  with iteration_wait show ?thesis by (simp add: write_measure_def)
next
  case (iteration_packet c)
  let ?k = "write_chunk c n"
  have k: "?k \<le> n" "?k > 0"
    using write_chunk_le [OF iteration_packet(4,6)] assms(2) iteration_packet(5) by (simp_all add: iteration_returns_def)
  then have "unat (n - ?k) = unat n - unat ?k" by (simp add: unat_sub)
  moreover have "0 < unat ?k" "unat ?k \<le> unat n" using k by (simp_all add: word_less_nat_alt word_le_nat_alt)
  ultimately have "2 * unat (n - ?k) + 1 < 2 * unat n" by linarith
  moreover have "write_measure a (n - ?k) s' \<le> 2 * unat (n - ?k) + 1" by (simp add: write_measure_def split: option.split)
  ultimately have "write_measure a (n - ?k) s' < 2 * unat n" by (rule le_less_trans [rotated])
  also have "\<dots> \<le> write_measure a n s" by (simp add: write_measure_def)
  finally show ?thesis using iteration_packet(2) by simp
qed

text \<open>C17: the loop of a write ends. If in every iteration the run can come to the packet of the iteration
  is sent or refused, the wait for a window returns, and the peer has granted a packet size, the
  loop returns: each packet takes at least one byte, and a wait is followed by a packet or by the
  end.\<close>

theorem channel_write_returns:
  assumes "\<And>d' n' turns' s'. (write_iteration env a e)\<^sup>*\<^sup>* (d, n, turns, s) (d', n', turns', s') \<Longrightarrow> n' \<noteq> 0 \<Longrightarrow>
    iteration_returns env a e d' n' turns' s'"
  shows "\<exists>r. write_loop env a e d n turns s = Some r"
  using assms
proof (induction "write_measure a n s" arbitrary: d n turns s rule: less_induct)
  case less
  have go: "\<exists>r. write_loop env a e d' n' turns' s' = Some r"
    if it: "write_iteration env a e (d, n, turns, s) (d', n', turns', s')" and n: "n \<noteq> 0" for d' n' turns' s'
    using iteration_decreases [OF it less.prems [OF rtranclp.rtrancl_refl n]]
    by (rule less.hyps) (meson less.prems converse_rtranclp_into_rtranclp it)
  show ?case
  proof (cases "n = 0")
    case n: False
    from less.prems [OF rtranclp.rtrancl_refl n] obtain c where c: "channel_at a s = Some c"
      by (auto simp: iteration_returns_def split: option.splits)
    show ?thesis
    proof (cases "window_open c n")
      case True
      with less.prems [OF rtranclp.rtrancl_refl n] c obtain s1 w where p: "write_packet env a e d (write_chunk c n) s = Some (s1, w)"
        by (auto simp: iteration_returns_def)
      show ?thesis
      proof (cases w)
        case None
        from go [OF iteration_packet [OF n c True p [unfolded None]] n] n c True p None show ?thesis
          by (subst write_loop.simps) (auto simp: window_open_def Let_def)
      qed (use n c True p in \<open>subst write_loop.simps, auto simp: window_open_def Let_def\<close>)
    next
      case False
      with less.prems [OF rtranclp.rtrancl_refl n] c obtain s1 rc turns1 c1 where
        w: "ssh_handle_packets_termination env SSH_TIMEOUT_DEFAULT (ssh_channel_waitwindow_termination a) turns s =
          Some (s1, rc, turns1)" and c1: "channel_at a s1 = Some c1"
        by (auto simp: iteration_returns_def split: option.splits)
      show ?thesis
      proof (cases "wait_gave_up a s1 c1 rc")
        case False': False
        from go [OF iteration_wait [OF n c False w c1 False'] n] n c False w c1 False' show ?thesis
          by (subst write_loop.simps) (auto simp: window_open_def wait_gave_up_def)
      qed (use n c False w c1 in \<open>subst write_loop.simps, auto simp: window_open_def wait_gave_up_def\<close>)
    qed
  qed (subst write_loop.simps, simp)
qed

theorem channel_write_returns_witness:
  "\<exists>r. write_loop sample_channels 1 False [1, 2] 2 [] open_session = Some r"
proof (rule channel_write_returns)
  fix d' n' turns' s'
  let ?init = "([1, 2], 2, [], open_session) :: bytes \<times> u32 \<times> poll_turn list \<times> ssh_session"
  assume r: "(write_iteration sample_channels 1 False)\<^sup>*\<^sup>* ?init (d', n', turns', s')" and n: "n' \<noteq> 0"
  have first: "iteration_returns sample_channels 1 False [1, 2] 2 [] open_session" by code_simp
  have chunk: "case channel_at 1 open_session of None \<Rightarrow> False | Some c \<Rightarrow> window_open c 2 \<and> write_chunk c 2 = 2" by code_simp
  have last: "n2 = 0" if "write_iteration sample_channels 1 False ?init (d2, n2, t2, s2)" for d2 n2 t2 s2
    using that chunk by cases auto
  from r show "iteration_returns sample_channels 1 False d' n' turns' s'"
  proof (cases rule: converse_rtranclpE)
    case base
    with first show ?thesis by simp
  next
    case (step y)
    obtain d2 n2 t2 s2 where y: "y = (d2, n2, t2, s2)" by (cases y)
    with last step(1) have "n2 = 0" by simp
    with step(2) y have "n' = 0" by (auto elim: converse_rtranclpE write_iteration.cases)
    with n show ?thesis by simp
  qed
qed

context channel_api
begin

lemma write_packet_window:
  assumes "write_packet env a e d k s = Some (s1, None)" and "channel_at a s = Some c"
  shows "channel_at a s1 = Some (c\<lparr>chan_remote_window := chan_remote_window c - k\<rparr>)"
proof -
  from assms obtain s2 where "same_channels s s2"
    "s1 = channel_set a (\<lambda>c. c\<lparr>chan_remote_window := chan_remote_window c - k\<rparr>) s2"
    by (auto simp: write_packet_def bind_eq_Some_conv channel_put_Some split: if_split_asm
        dest!: pack_data_same packet_send_same intro: same_channels_trans)
  with assms(2) show ?thesis by (simp add: channel_at_set channel_at_same)
qed

lemma write_trace_no_size:
  assumes "write_trace env a e d n turns s chunks r" and "channel_at a s = Some c"
    and "chan_remote_maxpacket c = 0" and "chan_remote_window c > 0" and "n \<noteq> 0"
  shows "fst (snd r) = Write_error \<or> fst (snd r) = Write_failed"
  using assms
proof (induction arbitrary: c rule: write_trace.induct)
  case (trace_stop n s c' d s1 w turns)
  then show ?case
    by (auto simp: write_packet_def bind_eq_Some_conv split: if_split_asm)
next
  case (trace_packet n s c' d s1 turns chunks r)
  have k: "write_chunk c n = 0" using trace_packet.prems(2) by (simp add: write_chunk_def)
  have c: "c' = c" using trace_packet.hyps(2) trace_packet.prems(1) by simp
  have "channel_at a s1 = Some (c\<lparr>chan_remote_window := chan_remote_window c - 0\<rparr>)"
    using write_packet_window [OF trace_packet.hyps(4) trace_packet.hyps(2)] unfolding c k .
  with trace_packet.IH [of "c\<lparr>chan_remote_window := chan_remote_window c - 0\<rparr>"] trace_packet.prems
  show ?case unfolding c k by simp
qed (auto simp: window_open_def)

end



end
