(* ===== verification/ChannelData.thy ===== *)
theory ChannelData
  imports ChannelProps
begin

text \<open>
  The way of data from the channel of one side to the channel of the other, and the independence of the
  channels: a message of a channel changes no other channel.
\<close>

section \<open>Data messages\<close>

lemma unpack_d:
  assumes "buffer_inv b" and "contents b = be32 w @ rest"
  obtains b' where "ssh_buffer_unpack mem lib b ''d'' [Out_u32 x] = Some (b', [Out_u32 w, Out_canary SSH_BUFFER_PACK_END], 0)"
    and "buffer_inv b'" and "contents b' = rest"
proof -
  obtain b' where b': "ssh_buffer_get_u32 b x = (b', htonl w, 4)" "buffer_inv b'" "contents b' = rest"
    by (rule get_u32_be [OF assms])
  have "ssh_buffer_unpack mem lib b ''d'' [Out_u32 x] = Some (b', [Out_u32 w, Out_canary SSH_BUFFER_PACK_END], 0)"
    by (simp add: ssh_buffer_unpack_def ssh_buffer_unpack_argc_def ssh_buffer_unpack_va_def unpack_one_def b'(1) Let_def)
  with b'(2,3) that show thesis by blast
qed

lemma pack_block_prefix:
  fixes n :: u32
  assumes "unat n \<le> length d"
  shows "ssh_buffer_pack mem lib b ''dP'' [VA_int x, VA_long (ucast n), VA_pointer (Some d)] =
    ssh_buffer_pack mem lib b ''dP'' [VA_int x, VA_long (ucast n), VA_pointer (Some (take (unat n) d))]"
proof -
  have "ssh_buffer_add_data mem b' (Some d) n = ssh_buffer_add_data mem b' (Some (take (unat n) d)) n" for b'
    by (simp add: ssh_buffer_add_data_def split: prod.split)
  moreover have "(ucast (ucast n :: u64) :: u32) = n" by (rule bit_word_eqI) (simp add: bit_simps)
  ultimately have "ssh_buffer_pack_va mem lib b' ''dP'' k [VA_int x, VA_long (ucast n), VA_pointer (Some d), z] =
      ssh_buffer_pack_va mem lib b' ''dP'' k [VA_int x, VA_long (ucast n), VA_pointer (Some (take (unat n) d)), z]" for b' k z
    by (cases "ssh_buffer_add_u32 mem b' (ntohl x)") (simp add: ssh_buffer_pack_va_def pack_one_def)
  then show ?thesis
    by (simp add: ssh_buffer_pack_def ssh_buffer_pack_argc_def ssh_buffer_pack_allocate_va_def pack_size_one_def
      cong: prod.case_cong if_cong)
qed


lemma pack_channel_data_wire:
  assumes "pack_channel_data env ch e d n s = Some (s', True)" and "ses_out_buffer s = Some b" and "buffer_inv b"
    and "unat n \<le> length d" and "pack_setting (chn_mem env) (chn_bignum env) v"
  shows "\<exists>b'. ses_out_buffer s' = Some b' \<and> buffer_inv b' \<and> contents b' = contents b @
    [if e then 95 else 94] @ be32 ch @ (if e then be32 1 else []) @ be32 n @ take (unat n) d"
proof -
  let ?t = "if e then 95 else 94 :: u8"
  let ?pack = "ssh_buffer_pack (chn_mem env) (chn_bignum env)"
  from assms(1) obtain x where x: "pack_out env ''bd'' [VA_int (ucast ?t), VA_int ch] s = Some x"
    and k: "(case x of (s1, rc) \<Rightarrow> if rc \<noteq> SSH_OK then Some (ssh_set_error SSH_FATAL s1, False)
      else (if e then pack_out env ''d'' [VA_int SSH2_EXTENDED_DATA_STDERR] s1 else Some (s1, SSH_OK)) \<bind>
        (\<lambda>(s2, rc). if rc \<noteq> SSH_OK then Some (ssh_set_error SSH_FATAL s2, False)
         else pack_out env ''dP'' [VA_int n, VA_long (ucast n), VA_pointer (Some d)] s2 \<bind>
           (\<lambda>(s3, rc). Some (if rc \<noteq> SSH_OK then (ssh_set_error SSH_FATAL s3, False) else (s3, True))))) = Some (s', True)"
    unfolding pack_channel_data_def by (rule bind_SomeE)
  from k obtain s1 where x1: "x = (s1, 0)"
    and k1: "(if e then pack_out env ''d'' [VA_int SSH2_EXTENDED_DATA_STDERR] s1 else Some (s1, SSH_OK)) \<bind>
      (\<lambda>(s2, rc). if rc \<noteq> SSH_OK then Some (ssh_set_error SSH_FATAL s2, False)
         else pack_out env ''dP'' [VA_int n, VA_long (ucast n), VA_pointer (Some d)] s2 \<bind>
           (\<lambda>(s3, rc). Some (if rc \<noteq> SSH_OK then (ssh_set_error SSH_FATAL s3, False) else (s3, True)))) = Some (s', True)"
    by (cases x) (simp split: if_split_asm)
  note s1 = x [unfolded x1]
  from k1 obtain y where y: "(if e then pack_out env ''d'' [VA_int SSH2_EXTENDED_DATA_STDERR] s1 else Some (s1, SSH_OK)) = Some y"
    and k2: "(case y of (s2, rc) \<Rightarrow> if rc \<noteq> SSH_OK then Some (ssh_set_error SSH_FATAL s2, False)
         else pack_out env ''dP'' [VA_int n, VA_long (ucast n), VA_pointer (Some d)] s2 \<bind>
           (\<lambda>(s3, rc). Some (if rc \<noteq> SSH_OK then (ssh_set_error SSH_FATAL s3, False) else (s3, True)))) = Some (s', True)"
    by (rule bind_SomeE)
  from k2 obtain s2 where y2: "y = (s2, 0)" and k3: "pack_out env ''dP'' [VA_int n, VA_long (ucast n), VA_pointer (Some d)] s2 \<bind>
           (\<lambda>(s3, rc). Some (if rc \<noteq> SSH_OK then (ssh_set_error SSH_FATAL s3, False) else (s3, True))) = Some (s', True)"
    by (cases y) (simp split: if_split_asm)
  note s2 = y [unfolded y2]
  from k3 have k2: "pack_out env ''dP'' [VA_int n, VA_long (ucast n), VA_pointer (Some d)] s2 = Some (s', 0)"
    by (rule bind_SomeE) (simp split: prod.splits if_split_asm)
  have out: "\<exists>b'. ses_out_buffer x' = Some b' \<and> ?pack b0 p args = Some (b', 0)"
    if "pack_out env p args x = Some (x', 0)" "ses_out_buffer x = Some b0" for p args x x' b0
    using that(1) unfolding pack_out_def that(2) bind.bind_lunit
    by (rule bind_SomeE) auto
  from out [OF s1 assms(2)] obtain b1 where p1: "?pack b ''bd'' [VA_int (ucast ?t), VA_int ch] = Some (b1, 0)"
    and o1: "ses_out_buffer s1 = Some b1" by blast
  have "\<exists>b2. ses_out_buffer s2 = Some b2 \<and> (if e then ?pack b1 ''d'' [VA_int 1] = Some (b2, 0) else b2 = b1)"
  proof (cases e)
    case True
    with s2 have "pack_out env ''d'' [VA_int 1] s1 = Some (s2, 0)" by simp
    from out [OF this o1] True show ?thesis by simp
  qed (use s2 o1 in simp)
  then obtain b2 where o2: "ses_out_buffer s2 = Some b2"
    and p2: "if e then ?pack b1 ''d'' [VA_int 1] = Some (b2, 0) else b2 = b1" by blast
  from out [OF k2 o2] have p3: "\<exists>b3. ?pack b2 ''dP'' [VA_int n, VA_long (ucast n), VA_pointer (Some d)] = Some (b3, 0) \<and>
      ses_out_buffer s' = Some b3" by blast
  have b1: "buffer_inv b1" "contents b1 = contents b @ [?t] @ be32 ch"
    using pack_setting.packs_fields [OF assms(5) p1 assms(3), of "[F_byte ?t, F_dword ch]"] by simp_all
  have b2: "buffer_inv b2 \<and> contents b2 = contents b1 @ (if e then be32 1 else [])"
  proof (cases e)
    case True
    with p2 have q: "?pack b1 ''d'' [VA_int 1] = Some (b2, 0)" by simp
    from True pack_setting.packs_fields [OF assms(5) q b1(1), of "[F_dword 1]"] show ?thesis by simp
  qed (use p2 b1 in simp)
  from p3 obtain b3 where o3: "ses_out_buffer s' = Some b3"
    and p3: "?pack b2 ''dP'' [VA_int n, VA_long (ucast n), VA_pointer (Some d)] = Some (b3, 0)" by blast
  note b3 = o3 p3 [unfolded pack_block_prefix [OF assms(4)]]
  have l: "length (take (unat n) d) = unat n" using assms(4) by simp
  then have args: "[VA_int n, VA_long (ucast n), VA_pointer (Some (take (unat n) d))] =
      fields_args [F_dword n, F_data (take (unat n) d)]" by simp
  have "buffer_inv b3 \<and> contents b3 = contents b2 @ be32 n @ take (unat n) d"
    using pack_setting.packs_fields [OF assms(5) b3(2) _ _ args] b2 unat32_less [of n] l by simp
  with b3(1) b2 b1 show ?thesis by auto
qed


context channel_api
begin

lemma from_msg_at:
  assumes "ses_in_buffer s = Some p" and "buffer_inv p" and "contents p = be32 ch @ rest"
  obtains p' where "channel_from_msg env s = Some ((if ssh_channel_from_local s ch = 0
      then ssh_set_error SSH_FATAL (s\<lparr>ses_in_buffer := Some p'\<rparr>) else s\<lparr>ses_in_buffer := Some p'\<rparr>),
      ssh_channel_from_local s ch)" and "buffer_inv p'" and "contents p' = rest"
proof -
  obtain p' where p': "ssh_buffer_unpack (chn_mem env) (chn_bignum env) p ''d'' [Out_u32 0] =
      Some (p', [Out_u32 ch, Out_canary SSH_BUFFER_PACK_END], 0)" "buffer_inv p'" "contents p' = rest"
    by (rule unpack_d [OF assms(2,3)])
  have "ssh_channel_from_local (s\<lparr>ses_in_buffer := Some p'\<rparr>) ch = ssh_channel_from_local s ch"
    by (simp add: ssh_channel_from_local_def)
  with p'(1) assms(1) have "channel_from_msg env s = Some ((if ssh_channel_from_local s ch = 0
      then ssh_set_error SSH_FATAL (s\<lparr>ses_in_buffer := Some p'\<rparr>) else s\<lparr>ses_in_buffer := Some p'\<rparr>),
      ssh_channel_from_local s ch)"
    by (simp add: channel_from_msg_def unpack_in_def Let_def)
  with p'(2,3) that show thesis by blast
qed

lemma data_string_at:
  assumes "\<forall>k. chn_mem env k \<noteq> None" and "ses_in_buffer s = Some p" and "buffer_inv p"
    and "contents p = (if e then be32 x else []) @ string_image d" and "length d \<le> 0x10000000"
  obtains p' str where "channel_data_string env s (if e then 95 else 94) = Some (s\<lparr>ses_in_buffer := Some p'\<rparr>, Some (str, e))"
    and "string_wf str" and "string_content str = d" and "buffer_inv p'"
proof -
  obtain q where q: "(if e then ssh_buffer_get_u32 p 0 else (p, htonl x, 4)) = (q, htonl x, 4)" "buffer_inv q"
    "contents q = string_image d @ []"
  proof (cases e)
    case True
    then have "contents p = be32 x @ string_image d" using assms(4) by simp
    from get_u32_be [OF assms(3) this, of 0] True that show ?thesis by (metis append_Nil2)
  qed (use assms(3,4) that in simp)
  from get_string_app [OF q(2,3) assms(5)] show thesis
  proof cases
    case 1
    with assms(1) show ?thesis by blast
  next
    case (2 p' str)
    have "channel_data_string env s (if e then 95 else 94) = Some (s\<lparr>ses_in_buffer := Some p'\<rparr>, Some (str, e))"
      using q(1) 2(1) assms(2) by (cases e) (auto simp: channel_data_string_def)
    with 2 that show ?thesis by blast
  qed
qed

lemma rcv_data_delivers:
  assumes "\<forall>k. chn_mem env k \<noteq> None" and "chans_ok s" and "ses_in_buffer s = Some p"
    and "contents p = be32 ch @ (if e then be32 x else []) @ string_image d"
    and "channel_at a s = Some c" and "ssh_channel_from_local s ch = a" and "length d \<le> unat (chan_local_window c)"
  shows "\<exists>p' b. buffer_inv p' \<and> buffer_inv b \<and>
    contents b = (case channel_buffer e c of None \<Rightarrow> [] | Some b \<Rightarrow> contents b) @ d \<and>
    channel_rcv_data env s (if e then 95 else 94) = run_data_callbacks env (chn_data env a) a e
      (channel_set a (\<lambda>c. (set_channel_buffer e (Some b) c)\<lparr>chan_local_window := chan_local_window c - of_nat (length d)\<rparr>)
        (s\<lparr>ses_in_buffer := Some p'\<rparr>))"
proof -
  have p: "buffer_inv p" using assms(2,3) by (simp add: chans_ok_def)
  have a: "a \<noteq> 0" using channel_at_Some [OF assms(5)] assms(2) by (auto simp: chans_ok_def)
  obtain p1 where m: "channel_from_msg env s = Some (s\<lparr>ses_in_buffer := Some p1\<rparr>, a)" "buffer_inv p1"
    "contents p1 = (if e then be32 x else []) @ string_image d"
    using from_msg_at [OF assms(3) p assms(4)] a assms(6) by auto
  let ?s1 = "s\<lparr>ses_in_buffer := Some p1\<rparr>"
  have ok: "chan_ok c" using channel_at_ok [OF assms(2,5)] .
  then have w: "unat (chan_local_window c) \<le> 2097152" by (simp add: chan_ok_def)
  with assms(7) have d: "length d \<le> 0x10000000" by simp
  obtain p2 str where t: "channel_data_string env ?s1 (if e then 95 else 94) = Some (s\<lparr>ses_in_buffer := Some p2\<rparr>, Some (str, e))"
    "string_wf str" "string_content str = d" "buffer_inv p2"
    using data_string_at [OF assms(1) _ m(2,3) d, of ?s1] by auto
  let ?s2 = "s\<lparr>ses_in_buffer := Some p2\<rparr>"
  define n where "n = (ucast (ssh_string_len (Some str)) :: u32)"
  have n: "n = of_nat (length d)" and un: "unat n = length d"
  proof -
    have "unat (ssh_string_len (Some str)) = length d" using unat_ssh_string_len [OF t(2)] t(3) by simp
    with d show u: "unat n = length d" by (simp add: n_def unat_ucast_down)
    show "n = of_nat (length d)" by (simp flip: u)
  qed
  have fits: "\<not> n > chan_local_window c" using assms(7) un by (simp add: word_less_nat_alt)
  have data: "ssh_string_data (Some str) = Some (str_data str)" by (simp add: ssh_string_data_def)
  have sd: "take (unat n) (str_data str) = d" "unat n \<le> length (str_data str)"
    using t(2,3) un by (auto simp: string_content_def string_wf_def)
  have c2: "channel_at a ?s2 = Some c" using assms(5) by (simp add: channel_at_def)
  have "\<exists>b. buffer_inv b \<and> contents b = (case channel_buffer e c of None \<Rightarrow> [] | Some b \<Rightarrow> contents b) @ d \<and>
    channel_default_bufferize env a (Some (str_data str)) n e ?s2 = Some (channel_set a (set_channel_buffer e (Some b)) ?s2, 0)"
  proof -
    let ?old = "case channel_buffer e c of Some b \<Rightarrow> Some b | None \<Rightarrow> ssh_buffer_new (chn_mem env)"
    have "ssh_buffer_new (chn_mem env) \<noteq> None"
      using assms(1) realloc_live [of "chn_mem env" 63] by (auto simp: ssh_buffer_new_def ssh_buffer_allocate_size_def split: prod.splits)
        (metis less_irrefl snd_conv)
    then obtain b0 where b0: "?old = Some b0" by (cases "channel_buffer e c") auto
    have b0': "buffer_inv b0" "contents b0 = (case channel_buffer e c of None \<Rightarrow> [] | Some b \<Rightarrow> contents b)"
      using b0 ok new_fresh chan_ok_stream [of c e] by (auto split: option.splits)
    have l: "length (contents b0) \<le> 2097152"
      using b0'(2) ok chan_ok_stream [of c e] by (auto split: option.splits)
    from add_data_live [of "chn_mem env" b0 n "str_data str"] assms(1) b0'(1) l un w assms(7)
    have live: "snd (ssh_buffer_add_data (chn_mem env) b0 (Some (str_data str)) n) = 0" by simp
    from add_data_cases [OF b0'(1) sd(2)] show ?thesis
    proof cases
      case (1 b')
      with live show ?thesis by simp
    next
      case (2 b')
      have "channel_default_bufferize env a (Some (str_data str)) n e ?s2 = Some (channel_set a (set_channel_buffer e (Some b')) ?s2, 0)"
        using a c2 b0 2(1) by (simp add: channel_default_bufferize_def)
      with 2 b0'(2) sd(1) show ?thesis by auto
    qed
  qed
  then obtain b where b: "buffer_inv b" "contents b = (case channel_buffer e c of None \<Rightarrow> [] | Some b \<Rightarrow> contents b) @ d"
    "channel_default_bufferize env a (Some (str_data str)) n e ?s2 = Some (channel_set a (set_channel_buffer e (Some b)) ?s2, 0)"
    by blast
  have c3: "channel_at a (channel_set a (set_channel_buffer e (Some b)) ?s2) = Some (set_channel_buffer e (Some b) c)"
    using c2 by (simp add: channel_at_set)
  have "channel_rcv_data env s (if e then 95 else 94) = run_data_callbacks env (chn_data env a) a e
      (channel_set a (\<lambda>c. (set_channel_buffer e (Some b) c)\<lparr>chan_local_window := chan_local_window c - n\<rparr>) ?s2)"
    using a fits by (simp add: channel_rcv_data_def m(1) t(1) n_def [symmetric] c2 data b(3) channel_put_def c3
      channel_set_set)
  with b(1,2) t(4) n show ?thesis by blast
qed

end

text \<open>C10: data arrives as it was written. The packet that \<open>channel_write_common\<close> packs for a chunk starts
  with the message number; with the rest of it in \<open>in_buffer\<close>, the handler the other side has for this
  number appends exactly the chunk to the right stream of the channel it is meant for, leaves
  the other stream alone and takes the length of the chunk from the window.\<close>

theorem channel_data_roundtrip:
  assumes "pack_setting (chn_mem senv) (chn_bignum senv) v" and "ses_out_buffer s = Some b" and "buffer_inv b"
    and "contents b = []" and "unat n \<le> length d"
    and "pack_channel_data senv (chan_local_channel c) e d n s = Some (s', True)"
    and "channel_api renv" and "\<forall>k. chn_mem renv k \<noteq> None" and "chn_data renv a = []" and "chans_ok r"
    and "channel_at a r = Some c" and "ssh_channel_from_local r (chan_local_channel c) = a"
    and "n \<le> chan_local_window c" and "ses_in_buffer r = Some p"
  shows "\<exists>q type payload. ses_out_buffer s' = Some q \<and> contents q = type # payload \<and>
    map_of (channel_packet_handlers renv) type = Some (channel_rcv_data renv) \<and>
    (contents p = payload \<longrightarrow> (\<exists>r' c' b'. channel_rcv_data renv r type = Some (r', SSH_PACKET_USED) \<and>
       channel_at a r' = Some c' \<and> channel_buffer e c' = Some b' \<and>
       contents b' = (case channel_buffer e c of None \<Rightarrow> [] | Some b \<Rightarrow> contents b) @ take (unat n) d \<and>
       channel_buffer (\<not> e) c' = channel_buffer (\<not> e) c \<and> chan_local_window c' = chan_local_window c - n \<and>
       ses_error r' = ses_error r))"
proof -
  let ?t = "if e then 95 else 94 :: u8" and ?d = "take (unat n) d"
  let ?payload = "be32 (chan_local_channel c) @ (if e then be32 1 else []) @ be32 n @ ?d"
  obtain q where q: "ses_out_buffer s' = Some q" "contents q = ?t # ?payload"
    using pack_channel_data_wire [OF assms(6,2,3,5,1)] assms(4) by auto
  have l: "length ?d = unat n" using assms(5) by simp
  have "\<exists>r' c' b'. channel_rcv_data renv r ?t = Some (r', SSH_PACKET_USED) \<and>
       channel_at a r' = Some c' \<and> channel_buffer e c' = Some b' \<and>
       contents b' = (case channel_buffer e c of None \<Rightarrow> [] | Some b \<Rightarrow> contents b) @ ?d \<and>
       channel_buffer (\<not> e) c' = channel_buffer (\<not> e) c \<and> chan_local_window c' = chan_local_window c - n \<and>
       ses_error r' = ses_error r" if payload: "contents p = ?payload"
  proof -
    have "contents p = be32 (chan_local_channel c) @ (if e then be32 1 else []) @ string_image ?d"
      using payload l by (simp add: string_image_def)
    moreover have "length ?d \<le> unat (chan_local_window c)" using l assms(13) by (simp add: word_le_nat_alt)
    ultimately obtain p' b' where b': "contents b' = (case channel_buffer e c of None \<Rightarrow> [] | Some b \<Rightarrow> contents b) @ ?d"
      and run: "channel_rcv_data renv r ?t = Some (channel_set a (\<lambda>c. (set_channel_buffer e (Some b') c)
          \<lparr>chan_local_window := chan_local_window c - of_nat (length ?d)\<rparr>) (r\<lparr>ses_in_buffer := Some p'\<rparr>), SSH_PACKET_USED)"
      using channel_api.rcv_data_delivers [OF assms(7,8,10,14) _ assms(11,12)] assms(9) by fastforce
    let ?c' = "(set_channel_buffer e (Some b') c)\<lparr>chan_local_window := chan_local_window c - n\<rparr>"
    have n: "of_nat (length ?d) = n" unfolding l by simp
    have "channel_at a (r\<lparr>ses_in_buffer := Some p'\<rparr>) = Some c" using assms(11) by (simp add: channel_at_def)
    then have "channel_at a (channel_set a (\<lambda>c. (set_channel_buffer e (Some b') c)
        \<lparr>chan_local_window := chan_local_window c - n\<rparr>) (r\<lparr>ses_in_buffer := Some p'\<rparr>)) = Some ?c'"
      by (simp add: channel_at_set)
    moreover have "channel_buffer e ?c' = Some b'" "channel_buffer (\<not> e) ?c' = channel_buffer (\<not> e) c"
      by (simp_all add: channel_buffer_def set_channel_buffer_def)
    ultimately show ?thesis using run [unfolded n] b'
      by (intro exI [of _ "channel_set a (\<lambda>c. (set_channel_buffer e (Some b') c)
        \<lparr>chan_local_window := chan_local_window c - n\<rparr>) (r\<lparr>ses_in_buffer := Some p'\<rparr>)"] exI [of _ ?c'] exI [of _ b'])
        (simp add: channel_set_def)
  qed
  moreover have "map_of (channel_packet_handlers renv) ?t = Some (channel_rcv_data renv)"
    by (simp add: channel_packet_handlers_def)
  ultimately show ?thesis using q by blast
qed

text \<open>The other side of \<open>open_session\<close>, with the payload of a packet for its channel in the buffer.\<close>

definition data_payload :: ssh_buffer where
  "data_payload = \<lparr>buf_secure = False, buf_used = 10, buf_allocated = 16, buf_pos = 0,
     buf_data = [0, 0, 0, 43, 0, 0, 0, 2, 104, 105, 0, 0, 0, 0, 0, 0], buf_freed = []\<rparr>"

definition reading_session :: ssh_session where
  "reading_session = open_session\<lparr>ses_in_buffer := Some data_payload\<rparr>"

lemma reading_session:
  "chans_ok reading_session" "channel_at 1 reading_session = Some sample_channel" "buffer_inv data_payload"
  "contents data_payload = [0, 0, 0, 43, 0, 0, 0, 2, 104, 105]" "ssh_channel_from_local reading_session 43 = 1"
  by (simp_all add: reading_session_def open_session_def authenticated_session_def sample_session_def chans_ok_def
      chan_ok_def sample_channel_def unat_WINDOW_DEFAULT data_payload_def buffer_inv_def channel_at_def
      ssh_channel_from_local_def contents_def segment_def)

theorem channel_data_roundtrip_witness:
  "\<exists>r' c' b'. channel_rcv_data sample_channels reading_session 94 = Some (r', SSH_PACKET_USED) \<and>
     channel_at 1 r' = Some c' \<and> channel_buffer False c' = Some b' \<and> contents b' = [104, 105] \<and>
     chan_local_window c' = 2097150"
proof -
  have "map_option (\<lambda>(s, packed). packed \<and> map_option contents (ses_out_buffer s) =
      Some [94, 0, 0, 0, 43, 0, 0, 0, 2, 104, 105])
    (pack_channel_data sample_channels 43 False [104, 105, 9] 2 open_session) = Some True" by code_simp
  then obtain s' q where p: "pack_channel_data sample_channels (chan_local_channel sample_channel) False [104, 105, 9] 2
      open_session = Some (s', True)" and q: "ses_out_buffer s' = Some q"
      "contents q = [94, 0, 0, 0, 43, 0, 0, 0, 2, 104, 105]" by (auto simp: sample_channel_def)
  have l: "unat (2 :: u32) \<le> length [104, 105, 9 :: u8]" and w: "2 \<le> chan_local_window sample_channel"
    by (simp_all add: sample_channel_def WINDOW_DEFAULT_def CHANNEL_MAX_PACKET_def)
  have o: "ses_out_buffer open_session = Some empty_buffer" "ses_in_buffer reading_session = Some data_payload"
    and f: "ssh_channel_from_local reading_session (chan_local_channel sample_channel) = 1"
    using reading_session(5) by (simp_all add: open_session_def reading_session_def sample_channel_def)
  have ps: "pack_setting (chn_mem sample_channels) (chn_bignum sample_channels) unat"
    using sample_pack_channels.pack_setting_axioms by (simp add: sample_channels_def)
  have m: "\<forall>k. chn_mem sample_channels k \<noteq> None" "chn_data sample_channels 1 = []"
    by (simp_all add: sample_channels_def endless_mem_def)
  from channel_data_roundtrip [OF ps o(1) empty_buffer_inv l p sample_channels.channel_api_axioms m
      reading_session(1,2) f w o(2)] q reading_session(4)
  show ?thesis by (simp add: sample_channel_def channel_buffer_def WINDOW_DEFAULT_def CHANNEL_MAX_PACKET_def) blast
qed

section \<open>Independence\<close>

definition others_same :: "nat \<Rightarrow> ssh_session \<Rightarrow> ssh_session \<Rightarrow> bool" where
  "others_same a s s' \<longleftrightarrow> (\<forall>b. b \<noteq> a \<longrightarrow> channel_at b s' = channel_at b s)"

text \<open>The callbacks of a channel leave the other channels alone.\<close>

definition own_callbacks :: "channel_env \<Rightarrow> bool" where
  "own_callbacks env \<longleftrightarrow> (\<forall>event a s. others_same a s (chn_notify env event a s)) \<and>
     (\<forall>a. \<forall>cb \<in> set (chn_data env a). \<forall>s d e. others_same a s (fst (cb s a d e))) \<and>
     (\<forall>a q w s. others_same a s (chn_message env a q w s))"

lemma others_refl [simp]: "others_same a s s" by (simp add: others_same_def)

lemma others_trans: "others_same a s s1 \<Longrightarrow> others_same a s1 s2 \<Longrightarrow> others_same a s s2"
  by (simp add: others_same_def)

lemma others_eq: "ses_channels s' = ses_channels s \<Longrightarrow> others_same a s s'"
  by (simp add: others_same_def channel_at_def)

lemma others_same_channels: "same_channels s s' \<Longrightarrow> others_same a s s'"
  by (simp add: others_eq same_channels_def)

lemma others_of_same: "same_channels s1 s' \<Longrightarrow> others_same a s s' = others_same a s s1"
  by (simp add: others_same_def channel_at_same)

lemma others_left: "ses_channels s1 = ses_channels s \<Longrightarrow> others_same a s1 s' = others_same a s s'"
  by (simp add: others_same_def channel_at_def)

lemma others_error [simp]: "others_same a s (ssh_set_error e s') = others_same a s s'"
  by (simp add: others_same_def channel_at_def)

lemma others_set [simp]: "(\<And>c. chan_addr (f c) = chan_addr c) \<Longrightarrow> others_same a s (channel_set a f s') = others_same a s s'"
proof -
  assume f: "\<And>c. chan_addr (f c) = chan_addr c"
  have "List.find (\<lambda>c. chan_addr c = b) (map (\<lambda>c. if chan_addr c = a then f c else c) xs) =
      List.find (\<lambda>c. chan_addr c = b) xs" if "b \<noteq> a" for b xs
    using that f by (induction xs) auto
  then show ?thesis by (simp add: others_same_def channel_at_def channel_set_def)
qed

lemma others_free [simp]: "others_same a s (ssh_channel_do_free a s') = others_same a s s'"
proof -
  have "List.find (\<lambda>c. chan_addr c = b) (filter (\<lambda>c. chan_addr c \<noteq> a) xs) = List.find (\<lambda>c. chan_addr c = b) xs"
    if "b \<noteq> a" for b and xs :: "ssh_channel list" using that by (induction xs) auto
  then show ?thesis unfolding others_same_def channel_at_def ssh_channel_do_free_def by auto
qed

lemma others_callbacks:
  assumes "own_callbacks env"
  shows "others_same a s (chn_notify env event a s') = others_same a s s'"
    and "others_same a s (chn_message env a q w s') = others_same a s s'"
    and "cb \<in> set (chn_data env a) \<Longrightarrow> cb s' a d e = (s2, r) \<Longrightarrow> others_same a s s2 = others_same a s s'"
proof -
  have "others_same a s' (chn_notify env event a s')" "others_same a s' (chn_message env a q w s')"
    using assms by (simp_all add: own_callbacks_def)
  then show "others_same a s (chn_notify env event a s') = others_same a s s'"
    "others_same a s (chn_message env a q w s') = others_same a s s'"
    by (auto simp: others_same_def)
  assume "cb \<in> set (chn_data env a)" "cb s' a d e = (s2, r)"
  with assms have "others_same a s' s2" unfolding own_callbacks_def by (metis fst_conv)
  then show "others_same a s s2 = others_same a s s'" by (auto simp: others_same_def)
qed

lemma unpack_in_channels: "unpack_in env p args s = Some (s', r) \<Longrightarrow> ses_channels s' = ses_channels s"
  by (auto simp: unpack_in_def bind_eq_Some_conv split: prod.splits)

lemma others_unpack: "unpack_in env p args s1 = Some (s', r) \<Longrightarrow> others_same a s s' = others_same a s s1"
  using unpack_in_channels [of env p args s1 s' r] by (simp add: others_same_def channel_at_def)

lemma from_msg_channels: "channel_from_msg env s = Some (s', a) \<Longrightarrow> ses_channels s' = ses_channels s"
  by (auto simp: channel_from_msg_def bind_eq_Some_conv Let_def split: if_split_asm dest!: unpack_in_channels)

context channel_api
begin

lemma others_pack: "pack_out env p args s1 = Some (s', r) \<Longrightarrow> others_same a s s' = others_same a s s1"
  by (drule pack_out_same) (rule others_of_same)

lemma others_send: "ssh_packet_send (chn_send env) s1 = Some (s', r) \<Longrightarrow> others_same a s s' = others_same a s s1"
  by (drule packet_send_same) (rule others_of_same)

lemma others_grow:
  assumes "grow_window env a s1 = Some (s', r)"
  shows "others_same a s s' = others_same a s s1"
  using assms by (cases rule: grow_window_cases) (auto simp: others_of_same)

lemma others_bufferize:
  assumes "channel_default_bufferize env a d n e s1 = Some (s', r)"
  shows "others_same a s s' = others_same a s s1"
  using assms by (auto simp: channel_default_bufferize_def bind_eq_Some_conv Let_def case_prod_beta
      split: if_split_asm option.split_asm)

lemma others_run_callbacks:
  assumes "own_callbacks env"
  shows "run_data_callbacks env callbacks a e s1 = Some (s', r) \<Longrightarrow> set callbacks \<subseteq> set (chn_data env a) \<Longrightarrow>
    others_same a s s1 \<Longrightarrow> others_same a s s'"
proof (induction callbacks arbitrary: s1)
  case (Cons cb callbacks)
  from Cons.prems(1) obtain c b where c: "channel_at a s1 = Some c" "channel_buffer e c = Some b"
    by (auto simp: bind_eq_Some_conv)
  show ?case
  proof (cases "ssh_buffer_get b = None")
    case False
    obtain s2 rest where cb: "cb s1 a (buffer_bytes b) e = (s2, rest)" by fastforce
    have o2: "others_same a s s2" using others_callbacks(3) [where cb = cb, OF assms _ cb] Cons.prems(2,3) by simp
    show ?thesis
    proof (cases "rest > 0")
      case True
      with Cons.prems(1) c False cb obtain x s3 r3 where g: "grow_window env a (channel_set a (set_channel_buffer e x) s2) = Some (s3, r3)"
        and k: "s' = s3 \<or> run_data_callbacks env callbacks a e s3 = Some (s', r)"
        by (auto simp: bind_eq_Some_conv split: if_split_asm)
      have "others_same a s s3" using o2 by (simp add: others_grow [OF g])
      with k Cons.IH Cons.prems(2) show ?thesis by auto
    qed (use Cons o2 c False cb in simp)
  qed (use Cons.prems c in simp)
qed simp

lemma others_rcv_data:
  assumes "channel_rcv_data env s type = Some (s', used)" and "channel_from_msg env s = Some (s1, a)"
    and "own_callbacks env"
  shows "others_same a s s'"
proof (cases "a = 0")
  case True
  with assms(1,2) show ?thesis by (auto simp: channel_rcv_data_def intro: others_eq from_msg_channels)
next
  case a: False
  have o1: "others_same a s s1" using from_msg_channels [OF assms(2)] by (rule others_eq)
  note A = assms(1) [unfolded channel_rcv_data_def assms(2) bind.bind_lunit prod.case if_not_P [OF a]]
  from A obtain x where x: "channel_data_string env s1 type = Some x" by (auto elim: bind_SomeE)
  obtain s2 data where xs: "x = (s2, data)" by (cases x)
  have o2: "others_same a s s2" using x o1 unfolding xs
    by (auto simp: channel_data_string_def bind_eq_Some_conv others_same_def channel_at_def case_prod_beta split: if_split_asm)
  note A = A [unfolded x xs bind.bind_lunit prod.case]
  show ?thesis
  proof (cases data)
    case (Some y)
    obtain str e where ys: "y = (str, e)" by (cases y)
    note A = A [unfolded Some ys option.case prod.case Let_def]
    from A obtain c where c: "channel_at a s2 = Some c" by (auto elim: bind_SomeE)
    note A = A [unfolded c bind.bind_lunit]
    let ?n = "ucast (ssh_string_len (Some str)) :: u32"
    show ?thesis
    proof (cases "?n > chan_local_window c")
      case n: False
      note A = A [unfolded if_not_P [OF n]]
      from A obtain z where z: "channel_default_bufferize env a (ssh_string_data (Some str)) ?n e s2 = Some z"
        by (auto elim: bind_SomeE)
      obtain s3 rc where zs: "z = (s3, rc)" by (cases z)
      have o3: "others_same a s s3" using others_bufferize [OF z [unfolded zs]] o2 by simp
      note A = A [unfolded z zs bind.bind_lunit prod.case]
      show ?thesis
      proof (cases "rc < 0")
        case False
        note A = A [unfolded if_not_P [OF False]]
        from A obtain s4 where p: "channel_put a (\<lambda>c. c\<lparr>chan_local_window := chan_local_window c - ?n\<rparr>) s3 = Some s4"
          and run: "run_data_callbacks env (chn_data env a) a e s4 = Some (s', used)" by (rule bind_SomeE)
        from p o3 have "others_same a s s4" by (auto simp: channel_put_Some)
        with others_run_callbacks [OF assms(3) run] show ?thesis by simp
      qed (use A o3 in auto)
    qed (use A o2 in auto)
  qed (use A o2 in simp)
qed

lemma others_request:
  assumes "channel_rcv_request env s type = Some (s', used)" and "channel_from_msg env s = Some (s1, a)"
    and "own_callbacks env"
  shows "others_same a s s'"
proof (cases "a = 0")
  case True
  with assms(1,2) show ?thesis by (auto simp: channel_rcv_request_def intro: others_eq from_msg_channels)
next
  case a: False
  have o1: "others_same a s s1" using from_msg_channels [OF assms(2)] by (rule others_eq)
  have cbs: "others_same a s (chn_notify env event a x) = others_same a s x"
    "others_same a s (chn_message env a q w x) = others_same a s x" for event q w x
    using others_callbacks(1,2) [OF assms(3)] by simp_all
  have reply: "others_same a s x \<Longrightarrow> others_same a s x'" if "channel_reply env a st x = Some (x', u)" for st x x' u
    using that by (auto simp: channel_reply_def bind_eq_Some_conv others_pack others_send split: if_split_asm)
  have status: "others_same a s x \<Longrightarrow> others_same a s x'" if "rcv_exit_status env a x = Some (x', u)" for x x' u
    using that by (auto simp: rcv_exit_status_def bind_eq_Some_conv Let_def cbs others_unpack split: if_split_asm)
  have sig: "others_same a s x \<Longrightarrow> others_same a s x'" if "rcv_signal env a x = Some (x', u)" for x x' u
    using that by (auto simp: rcv_signal_def bind_eq_Some_conv Let_def cbs others_unpack split: if_split_asm option.splits)
  have exit: "others_same a s x \<Longrightarrow> others_same a s x'" if "rcv_exit_signal env a x = Some (x', u)" for x x' u
    using that by (auto simp: rcv_exit_signal_def bind_eq_Some_conv Let_def cbs others_unpack channel_put_Some split: if_split_asm)
  note A = assms(1) [unfolded channel_rcv_request_def assms(2) bind.bind_lunit prod.case if_not_P [OF a]]
  from A obtain x where x: "unpack_in env ''sb'' [Out_cstring None, Out_u8 0] s1 = Some x" by (auto elim: bind_SomeE)
  obtain s2 args rc where xs: "x = (s2, args, rc)" by (cases x)
  have o2: "others_same a s s2" using o1 by (simp add: others_unpack [OF x [unfolded xs]])
  note A = A [unfolded x xs bind.bind_lunit prod.case]
  show ?thesis
  proof (cases "rc = SSH_OK")
    case True
    with A obtain q where q: "out_cstring (args ! 0) = Some q" by (auto elim: bind_SomeE)
    note A = A [unfolded q bind.bind_lunit Let_def]
    from A True o2 show ?thesis by (auto simp: cbs split: if_split_asm dest: reply status sig exit)
  qed (use A o2 in simp)
qed

lemma others_open_conf:
  assumes "ssh_packet_channel_open_conf env s type = Some (s', used)" and "own_callbacks env"
    and "ses_in_buffer s = Some p" and "buffer_inv p" and "contents p = be32 ch @ rest"
  shows "others_same (ssh_channel_from_local s ch) s s'"
proof -
  obtain p1 where "ssh_buffer_unpack (chn_mem env) (chn_bignum env) p ''d'' [Out_u32 0] =
      Some (p1, [Out_u32 ch, Out_canary SSH_BUFFER_PACK_END], 0)"
    by (rule unpack_d [OF assms(4,5)])
  with assms(3) have u: "unpack_in env ''d'' [Out_u32 0] s =
      Some (s\<lparr>ses_in_buffer := Some p1\<rparr>, [Out_u32 ch, Out_canary SSH_BUFFER_PACK_END], 0)"
    by (simp add: unpack_in_def)
  let ?s = "s\<lparr>ses_in_buffer := Some p1\<rparr>" and ?a = "ssh_channel_from_local s ch"
  have o1: "others_same ?a s ?s" and a: "ssh_channel_from_local ?s ch = ?a"
    by (simp_all add: others_eq ssh_channel_from_local_def)
  show ?thesis
  proof (cases "?a = 0")
    case True
    with assms(1) o1 show ?thesis by (auto simp: ssh_packet_channel_open_conf_def u a)
  next
    case False
    have cbs: "others_same ?a s (chn_notify env event ?a x) = others_same ?a s x" for event x
      by (rule others_callbacks(1) [OF assms(2)])
    from assms(1) o1 False show ?thesis
      by (auto simp: ssh_packet_channel_open_conf_def u a bind_eq_Some_conv Let_def cbs others_unpack split: if_split_asm)
  qed
qed

lemma others_simple:
  assumes "channel_from_msg env s = Some (s1, a)" and "own_callbacks env"
  shows "ssh_packet_channel_open_fail env s type = Some (s', used) \<Longrightarrow> others_same a s s'"
    and "channel_rcv_change_window env s type = Some (s', used) \<Longrightarrow> others_same a s s'"
    and "channel_rcv_eof env s type = Some (s', used) \<Longrightarrow> others_same a s s'"
    and "channel_rcv_close env s type = Some (s', used) \<Longrightarrow> others_same a s s'"
    and "request_answered env answer s type = Some (s', used) \<Longrightarrow> others_same a s s'"
proof -
  have o1: "others_same a s s1" using from_msg_channels [OF assms(1)] by (rule others_eq)
  have cbs: "others_same a s (chn_notify env event a x) = others_same a s x" for event x
    by (rule others_callbacks(1) [OF assms(2)])
  show "ssh_packet_channel_open_fail env s type = Some (s', used) \<Longrightarrow> others_same a s s'"
    "channel_rcv_change_window env s type = Some (s', used) \<Longrightarrow> others_same a s s'"
    "channel_rcv_eof env s type = Some (s', used) \<Longrightarrow> others_same a s s'"
    "channel_rcv_close env s type = Some (s', used) \<Longrightarrow> others_same a s s'"
    "request_answered env answer s type = Some (s', used) \<Longrightarrow> others_same a s s'"
    using o1
    by (auto simp: ssh_packet_channel_open_fail_def channel_rcv_change_window_def channel_rcv_eof_def
        channel_rcv_close_def request_answered_def assms(1) bind_eq_Some_conv Let_def cbs others_unpack
        split: if_split_asm)
qed

end

definition two_channels :: ssh_session where
  "two_channels = open_session\<lparr>ses_channels :=
     [sample_channel, sample_channel\<lparr>chan_addr := 2, chan_local_channel := 44\<rparr>]\<rparr>"

text \<open>C16: the channels of a session do not disturb each other. A message of the peer that names a channel
  by its local number changes no other channel, and a message with a number that no channel has
  changes none, provided that the callbacks of a channel do not.\<close>

theorem channel_message_isolated:
  assumes "channel_api env" and "own_callbacks env" and "map_of (channel_packet_handlers env) type = Some h"
    and "h s type = Some (s', used)" and "ses_in_buffer s = Some p" and "buffer_inv p"
    and "contents p = be32 ch @ rest" and "b \<noteq> ssh_channel_from_local s ch"
  shows "channel_at b s' = channel_at b s"
proof -
  let ?a = "ssh_channel_from_local s ch"
  obtain s1 where m: "channel_from_msg env s = Some (s1, ?a)"
    using channel_api.from_msg_at [OF assms(1,5-7)] by metis
  note rules = channel_api.others_open_conf [OF assms(1) _ assms(2,5-7)] channel_api.others_simple [OF assms(1) m assms(2)]
    channel_api.others_rcv_data [OF assms(1) _ m assms(2)] channel_api.others_request [OF assms(1) _ m assms(2)]
  have "others_same ?a s s'" using assms(3,4)
    by (auto simp: channel_packet_handlers_def ssh_packet_channel_success_def ssh_packet_channel_failure_def
        split: if_split_asm intro: rules)
  with assms(8) show ?thesis by (simp add: others_same_def)
qed

theorem channel_message_isolated_witness:
  "\<exists>s' used. channel_rcv_eof sample_channels (two_channels\<lparr>ses_in_buffer := Some data_payload\<rparr>) 96 = Some (s', used) \<and>
     channel_at 2 s' = Some (sample_channel\<lparr>chan_addr := 2, chan_local_channel := 44\<rparr>)"
proof -
  let ?s = "two_channels\<lparr>ses_in_buffer := Some data_payload\<rparr>"
  have "channel_rcv_eof sample_channels ?s 96 \<noteq> None" by code_simp
  then obtain s' used where run: "channel_rcv_eof sample_channels ?s 96 = Some (s', used)" by auto
  have own: "own_callbacks sample_channels" by (simp add: own_callbacks_def sample_channels_def)
  have h: "map_of (channel_packet_handlers sample_channels) 96 = Some (channel_rcv_eof sample_channels)"
    by (simp add: channel_packet_handlers_def)
  have c: "contents data_payload = be32 43 @ [0, 0, 0, 2, 104, 105]" by code_simp
  have b: "2 \<noteq> ssh_channel_from_local ?s 43" "channel_at 2 ?s = Some (sample_channel\<lparr>chan_addr := 2, chan_local_channel := 44\<rparr>)"
    by (simp_all add: two_channels_def ssh_channel_from_local_def channel_at_def sample_channel_def)
  from channel_message_isolated [OF sample_channels.channel_api_axioms own h run _ reading_session(3) c b(1)] b(2) run
  show ?thesis by auto
qed

end
