(* ===== verification/RequestProps.thy ===== *)
theory RequestProps
  imports ChannelData
begin

text \<open>
  Where the calls of the user do not do what they say: \<open>channel_read_buffer\<close> when the bytes come in
  pieces, and the requests without a reply.
\<close>

section \<open>Reading into a buffer\<close>

lemma reinit_empty:
  assumes "allocator mem" and "buffer_inv b"
  obtains b0 rc where "ssh_buffer_reinit mem b = (b0, rc)" and "buffer_inv b0" and "buf_used b0 = 0" and "buf_pos b0 = 0"
proof -
  define x where "x = (if buf_secure b \<and> buf_allocated b > 0
    then b\<lparr>buf_data := blit 0 (replicate (unat (buf_allocated b)) 0) (buf_data b)\<rparr> else b)\<lparr>buf_used := 0, buf_pos := 0\<rparr>"
  have x: "buffer_inv x" "buf_used x = 0" "buf_pos x = 0"
    using assms(2) by (auto simp: x_def buffer_inv_def length_blit)
  have run: "ssh_buffer_reinit mem b = (if buf_allocated x > 65536
      then (case realloc_buffer mem x 65535 of (b', rc) \<Rightarrow> if rc \<noteq> 0 then (b', - 1) else (b', 0)) else (x, 0))"
    by (simp add: ssh_buffer_reinit_def x_def)
  show thesis
  proof (cases "buf_allocated x > 65536")
    case True
    have u: "unat (buf_used x) \<le> unat (65535 :: u32)" by (simp add: x)
    from allocator.realloc_same_content [OF assms(1) x(1) u] show thesis
    proof cases
      case 1
      with True run x that show thesis by simp
    next
      case (2 b')
      have "buffer_inv b'" using 2(2) by (simp add: same_content_def)
      with 2 True run x that [of b' 0] show thesis by simp
    qed
  qed (use run x that in simp)
qed

lemma allocate_empty:
  assumes "\<forall>k. mem k \<noteq> None" and "allocator mem" and "buffer_inv b" and "buf_used b = 0" and "buf_pos b = 0"
    and "unat n < 0x10000000"
  obtains b1 where "ssh_buffer_allocate mem b n = (b1, Some 0)" and "buffer_inv b1" and "buf_used b1 = n" and "buf_pos b1 = 0"
proof -
  have "\<exists>b'. make_room mem b n = (b', 0) \<and> buffer_inv b' \<and> buf_used b' = 0 \<and> buf_pos b' = 0 \<and> unat n \<le> unat (buf_allocated b')"
  proof (cases "buf_allocated b < n")
    case True
    from realloc_live [of mem n b] assms(1,6) have live: "snd (realloc_buffer mem b n) = 0" by simp
    have u: "unat (buf_used b) \<le> unat n" by (simp add: assms(4))
    from allocator.realloc_same_content [OF assms(2,3) u] show ?thesis
    proof cases
      case 1
      with live show ?thesis by simp
    next
      case (2 b')
      have "buffer_inv b'" using 2(2) by (simp add: same_content_def)
      with 2 True assms(4,5) show ?thesis by (auto simp: make_room_def Let_def)
    qed
  next
    case False
    then show ?thesis using assms(3-5) by (auto simp: make_room_def word_less_nat_alt)
  qed
  then obtain b' where b': "make_room mem b n = (b', 0)" "buffer_inv b'" "buf_used b' = 0" "buf_pos b' = 0"
    "unat n \<le> unat (buf_allocated b')" by blast
  have "ssh_buffer_allocate mem b n = (b'\<lparr>buf_used := n\<rparr>, Some 0)"
    using b' assms(4) by (simp add: ssh_buffer_allocate_def)
  moreover have "buffer_inv (b'\<lparr>buf_used := n\<rparr>)" using b' by (simp add: buffer_inv_def)
  ultimately show thesis using that b' by simp
qed

lemma contents_store:
  assumes "buffer_inv b" and "buf_pos b = 0" and "length d \<le> unat (buf_used b)"
  shows "buffer_inv (store_at 0 d b)" and "contents (store_at 0 d b) = d @ drop (length d) (contents b)"
proof -
  have l: "length d \<le> length (buf_data b)" "unat (buf_used b) \<le> length (buf_data b)" using assms by (auto simp: buffer_inv_def)
  then show "buffer_inv (store_at 0 d b)" using assms(1) by (simp add: store_at_def buffer_inv_def length_blit)
  show "contents (store_at 0 d b) = d @ drop (length d) (contents b)"
    using l assms(2,3) by (simp add: store_at_def contents_def segment_def blit_0 drop_take)
qed

lemma sint_uint_small:
  assumes "unat (w :: u32) < 0x10000000"
  shows "sint w = int (unat w)"
proof -
  have "uint w = int (unat w)" by (rule uint_nat)
  then have "uint w < 0x10000000" using assms by linarith
  moreover have "- 2147483648 \<le> uint w" by (rule order_trans [of _ 0]) simp_all
  ultimately have "signed_take_bit 31 (uint w) = uint w" by (intro signed_take_bit_int_eq_self) simp_all
  then show ?thesis by (simp add: sint_uint)
qed

text \<open>C40: \<open>channel_read_buffer\<close> loses data. Asked for an exact count, it reads until it has all the bytes,
  but stores each piece at the start of the buffer: when the bytes come in two pieces it returns
  the full count, and the content starts with the second piece, which has overwritten the first.\<close>

theorem channel_read_buffer_overwrites:
  assumes "allocator (chn_mem env)" and "\<forall>k. chn_mem env k \<noteq> None" and "buffer_inv b" and "a \<noteq> 0"
    and "unat count < 0x10000000"
    and "ssh_channel_read env a count e turns s = Some (s1, int (length d1), d1, turns1)" and "d1 \<noteq> []"
    and "ssh_channel_read env a (count - of_nat (length d1)) e turns1 s1 = Some (s2, int (length d2), d2, turns2)"
    and "d2 \<noteq> []" and "length d1 + length d2 = unat count"
  shows "\<exists>b' rest. channel_read_buffer env a (Some b) count e turns s = Some (s2, int (unat count), Some b', turns2) \<and>
    contents b' = d2 @ drop (length d2) (d1 @ rest) \<and> length (contents b') = unat count"
proof -
  obtain b0 rc where b0: "ssh_buffer_reinit (chn_mem env) b = (b0, rc)" "buffer_inv b0" "buf_used b0 = 0" "buf_pos b0 = 0"
    using reinit_empty [OF assms(1,3)] by metis
  obtain b1 where b1: "ssh_buffer_allocate (chn_mem env) b0 count = (b1, Some 0)" "buffer_inv b1" "buf_used b1 = count"
    "buf_pos b1 = 0" by (rule allocate_empty [OF assms(2,1) b0(2-4) assms(5)])
  have l1: "length d1 \<le> unat (buf_used b1)" "length d2 \<le> unat (buf_used b1)" using assms(10) b1(3) by simp_all
  let ?b2 = "store_at 0 d1 b1"
  have b2: "buffer_inv ?b2" "contents ?b2 = d1 @ drop (length d1) (contents b1)" "buf_pos ?b2 = 0" "buf_used ?b2 = count"
    using contents_store [OF b1(2,4) l1(1)] b1(3,4) by (simp_all add: store_at_def)
  let ?b3 = "store_at 0 d2 ?b2"
  have b3: "buffer_inv ?b3" "contents ?b3 = d2 @ drop (length d2) (contents ?b2)"
    using contents_store [OF b2(1,3)] l1(2) b1(3) b2(4) by simp_all
  define k where "k = (of_nat (length d1) :: u32)"
  have k: "unat k = length d1" unfolding k_def using assms(5,10) by (intro unat_of_nat32) simp
  have k': "unat (of_nat (length d2) :: u32) = length d2" using assms(5,10) by (intro unat_of_nat32) simp
  have fin: "k + of_nat (length d2) = count"
    using assms(5,10) k k' by (simp add: word_unat_eq_iff unat_add32)
  have d: "0 < length d1" "0 < length d2" using assms(7,9) by simp_all
  have lt: "0 < count" "k < count" using assms(10) d unfolding word_less_nat_alt k unsigned_0 by linarith+
  have count: "count \<noteq> 0" using lt(1) by auto
  have sint: "sint count = int (unat count)" using assms(5)
    by (simp add: sint_uint_small)
  have "read_exact env a e 0 count count ?b3 turns2 s2 = Some (s2, int (unat count), ?b3, turns2)"
    by (subst read_exact.simps) (simp add: sint)
  then have "read_exact env a e 0 count k ?b2 turns1 s1 = Some (s2, int (unat count), ?b3, turns2)"
    using lt(2) assms(8,9) fin by (subst read_exact.simps) (simp add: k_def [symmetric])
  then have run: "read_exact env a e 0 count 0 b1 turns s = Some (s2, int (unat count), ?b3, turns2)"
    using lt(1) assms(6,7) by (subst read_exact.simps) (simp add: k_def [symmetric])
  have "channel_read_buffer env a (Some b) count e turns s = Some (s2, int (unat count), Some ?b3, turns2)"
    using assms(4) count b0(1) b1(1) run by (simp add: channel_read_buffer_def)
  moreover have "length (contents ?b3) = unat count"
    using length_contents [OF b3(1)] b1(3,4) by (simp add: store_at_def)
  ultimately show ?thesis using b3(2) b2(2) by metis
qed

text \<open>Two bytes are there, and two more come in the next turn of the event loop.\<close>

definition two_pieces :: ssh_session where
  "two_pieces = reading_session\<lparr>ses_channels := [sample_channel\<lparr>chan_stdout_buffer := Some
     \<lparr>buf_secure = False, buf_used = 2, buf_allocated = 4, buf_pos = 0, buf_data = [1, 2, 0, 0], buf_freed = []\<rparr>\<rparr>]\<rparr>"

definition data_turn :: poll_turn where
  "data_turn = \<lparr>turn_setup = Poll_ready, turn_dopoll =
     (\<lambda>s. case channel_rcv_data sample_channels s 94 of None \<Rightarrow> (s, SSH_ERROR) | Some (s', _) \<Rightarrow> (s', SSH_OK)),
     turn_late = False\<rparr>"

theorem channel_read_buffer_overwrites_witness:
  "\<exists>s2 b' rest. channel_read_buffer sample_channels 1 (Some empty_buffer) 4 False [data_turn] two_pieces =
      Some (s2, 4, Some b', []) \<and> contents b' = [104, 105] @ drop 2 ([1, 2] @ rest) \<and> length (contents b') = 4"
proof -
  let ?read = "ssh_channel_read sample_channels 1"
  have "case ?read 4 False [data_turn] two_pieces of None \<Rightarrow> False
    | Some (s1, r, d, turns) \<Rightarrow> r = 2 \<and> d = [1, 2] \<and> length turns = 1 \<and> (case ?read 2 False turns s1 of None \<Rightarrow> False
      | Some (s2, r, d, turns) \<Rightarrow> r = 2 \<and> d = [104, 105] \<and> turns = [])" by code_simp
  then obtain s1 turns1 s2 where r1: "?read 4 False [data_turn] two_pieces = Some (s1, 2, [1, 2], turns1)"
    and r2: "?read 2 False turns1 s1 = Some (s2, 2, [104, 105], [])" by (auto split: option.splits)
  have m: "allocator (chn_mem sample_channels)" "\<forall>k. chn_mem sample_channels k \<noteq> None"
    using sample_channels.allocator_axioms by (simp_all add: sample_channels_def endless_mem_def)
  have l: "int (length [1, 2 :: u8]) = 2" "int (length [104, 105 :: u8]) = 2" "(4 :: u32) - of_nat (length [1, 2 :: u8]) = 2"
    by simp_all
  from channel_read_buffer_overwrites [OF m empty_buffer_inv(1) one_neq_zero, of 4 False "[data_turn]" two_pieces s1 "[1, 2]"
      turns1 s2 "[104, 105]" "[]"] r1 r2
  show ?thesis by (auto simp: l)
qed

section \<open>Requests that are not sent\<close>

lemma wait_over:
  assumes "fct s = Some True"
  shows "wait_loop t fct ret turns s = Some (s, ret, turns)"
  using assms by (cases turns) simp_all

text \<open>A request without a reply can get lost. While an earlier request is answered but its answer
  has not been collected by its caller, the call that sends a break, as any other with a payload,
  collects that answer instead: it returns \<open>SSH_OK\<close> for the other request and nothing is sent.\<close>

theorem one_way_request_not_sent:
  assumes "channel_at a s = Some c" and "chan_request_state c = SSH_CHANNEL_REQ_STATE_ACCEPTED"
    and "ses_session_state s \<noteq> SSH_SESSION_STATE_ERROR" and "a \<noteq> 0" and "ssh_buffer_new (chn_mem env) = Some b"
    and "ssh_buffer_pack (chn_mem env) (chn_bignum env) b ''d'' [VA_int len] = Some (b', SSH_OK)"
  shows "ssh_channel_request_send_break env a len turns s =
    Some (channel_set a (\<lambda>c. c\<lparr>chan_request_state := SSH_CHANNEL_REQ_STATE_NONE\<rparr>) s, SSH_OK, turns)"
proof -
  have "ssh_channel_request_termination a s = Some True"
    using assms(1,2) by (simp add: ssh_channel_request_termination_def)
  then have "channel_request_pending env a turns s =
      Some (channel_set a (\<lambda>c. c\<lparr>chan_request_state := SSH_CHANNEL_REQ_STATE_NONE\<rparr>) s, SSH_OK, turns)"
    using assms(1-3) by (simp add: channel_request_pending_def ssh_handle_packets_termination_def wait_over)
  then show ?thesis
    using assms by (simp add: ssh_channel_request_send_break_def packed_request_def channel_request_def)
qed

definition answered_session :: ssh_session where
  "answered_session = open_session\<lparr>ses_channels := [sample_channel\<lparr>chan_request_state := SSH_CHANNEL_REQ_STATE_ACCEPTED\<rparr>]\<rparr>"

theorem one_way_request_not_sent_witness:
  "\<exists>s'. ssh_channel_request_send_break sample_channels 1 5 [] answered_session = Some (s', SSH_OK, []) \<and>
     ses_socket s' = ses_socket answered_session \<and> ses_out_queue s' = ses_out_queue answered_session"
proof -
  let ?new = "ssh_buffer_new (chn_mem sample_channels)" and ?pack = "ssh_buffer_pack (chn_mem sample_channels) (chn_bignum sample_channels)"
  have "case ?new of None \<Rightarrow> False | Some b \<Rightarrow> (case ?pack b ''d'' [VA_int 5] of None \<Rightarrow> False
    | Some (_, rc) \<Rightarrow> rc = SSH_OK)" by code_simp
  then obtain b b' where b: "?new = Some b" "?pack b ''d'' [VA_int 5] = Some (b', SSH_OK)"
    by (cases ?new) (auto split: option.split_asm)
  from one_way_request_not_sent [OF _ _ _ one_neq_zero b, of answered_session] show ?thesis
    by (simp add: answered_session_def open_session_def authenticated_session_def sample_session_def channel_at_def
        channel_set_def sample_channel_def)
qed

end
