(* ===== verification/Text.thy ===== *)
theory Text
  imports Prelude
begin

text \<open>
  C strings as lists of characters: the bytes before the terminating \<open>NUL\<close>, none of them \<open>NUL\<close>.
  Splitting at a separator, joining, and the letters and digits of the C locale.
\<close>

section \<open>Splitting and joining\<close>

text \<open>The pieces between the separators, as \<open>strsep\<close> gives them one by one: always at least one.\<close>

function split_on :: "char \<Rightarrow> string \<Rightarrow> string list" where
  "split_on c s = (let t = takeWhile (\<lambda>x. x \<noteq> c) s in
     case drop (length t) s of [] \<Rightarrow> [t] | _ # rest \<Rightarrow> t # split_on c rest)"
  by pat_completeness auto
termination
  by (relation "measure (length \<circ> snd)") (auto dest: arg_cong [where f = length])

declare split_on.simps [simp del]

fun join :: "char \<Rightarrow> string list \<Rightarrow> string" where
  "join c [] = []"
| "join c [t] = t"
| "join c (t # ts) = t @ c # join c ts"

lemma takeWhile_append_sep: "c \<notin> set t \<Longrightarrow> takeWhile (\<lambda>x. x \<noteq> c) (t @ c # s) = t"
  by (induction t) auto

lemma takeWhile_no_sep: "c \<notin> set t \<Longrightarrow> takeWhile (\<lambda>x. x \<noteq> c) t = t"
  by (induction t) auto

lemma split_on_single: "c \<notin> set t \<Longrightarrow> split_on c t = [t]"
  by (subst split_on.simps) (simp add: takeWhile_no_sep)

lemma split_on_sep: "c \<notin> set t \<Longrightarrow> split_on c (t @ c # s) = t # split_on c s"
  by (subst split_on.simps) (simp add: takeWhile_append_sep)

lemma split_first_cases:
  obtains "c \<notin> set s" | t rest where "c \<notin> set t" and "s = t @ c # rest"
proof (cases "c \<in> set s")
  case True
  then obtain t rest where "s = t @ c # rest" "c \<notin> set t" by (meson split_list_first)
  with that show thesis by blast
qed (use that in blast)

lemma split_on_nonempty: "split_on c s \<noteq> []"
  by (cases rule: split_first_cases [of c s]) (simp_all add: split_on_single split_on_sep)

lemma split_induct [case_names single sep]:
  assumes single: "\<And>t. c \<notin> set t \<Longrightarrow> P t" and sep: "\<And>t s. c \<notin> set t \<Longrightarrow> P s \<Longrightarrow> P (t @ c # s)"
  shows "P (s :: string)"
proof (induction "length s" arbitrary: s rule: less_induct)
  case less
  show ?case
  proof (cases rule: split_first_cases [of c s])
    case (2 t rest)
    with less show ?thesis by (auto intro: sep)
  qed (rule single)
qed

lemma join_Cons: "ts \<noteq> [] \<Longrightarrow> join c (t # ts) = t @ c # join c ts"
  by (cases ts) simp_all

lemma join_split [simp]: "join c (split_on c s) = s"
  by (induction s rule: split_induct [of c]) (simp_all add: split_on_single split_on_sep join_Cons split_on_nonempty)

lemma split_no_sep: "t \<in> set (split_on c s) \<Longrightarrow> c \<notin> set t"
  by (induction s rule: split_induct [of c]) (auto simp: split_on_single split_on_sep)

lemma split_join: "ts \<noteq> [] \<Longrightarrow> \<forall>t \<in> set ts. c \<notin> set t \<Longrightarrow> split_on c (join c ts) = ts"
  by (induction c ts rule: join.induct) (simp_all add: split_on_single split_on_sep)

lemma length_join: "length (join c ts) = (if ts = [] then 0 else sum_list (map length ts) + length ts - 1)"
  by (induction c ts rule: join.induct) auto

section \<open>Letters and digits\<close>

definition isupper :: "char \<Rightarrow> bool" where
  "isupper c \<longleftrightarrow> 65 \<le> (of_char c :: nat) \<and> (of_char c :: nat) \<le> 90"

definition tolower :: "char \<Rightarrow> char" where
  "tolower c = (if isupper c then char_of ((of_char c :: nat) + 32) else c)"

definition isdigit :: "char \<Rightarrow> bool" where
  "isdigit c \<longleftrightarrow> 48 \<le> (of_char c :: nat) \<and> (of_char c :: nat) \<le> 57"

definition digit_value :: "char \<Rightarrow> int" where
  "digit_value c = of_char c - 48"

text \<open>\<open>strtoul\<close> in base 10 on a text without blanks and signs: the value of the leading digits, which
  saturates, and the rest.\<close>

definition strtoul :: "string \<Rightarrow> int \<times> string" where
  "strtoul s = (min (foldl (\<lambda>n c. 10 * n + digit_value c) 0 (takeWhile isdigit s)) (2 ^ 64 - 1), dropWhile isdigit s)"

section \<open>Characters and bytes\<close>

text \<open>A C string and its bytes.\<close>

definition text_bytes :: "string \<Rightarrow> bytes" where "text_bytes s = map of_char s"

definition bytes_text :: "bytes \<Rightarrow> string" where "bytes_text bs = map (\<lambda>b. char_of (unat b)) (takeWhile (\<lambda>b. b \<noteq> 0) bs)"

lemma unat_of_char: "unat (of_char c :: u8) = of_char c"
proof -
  have "(of_char c :: u8) = of_nat (of_char c)" by (simp only: of_nat_of_char)
  moreover have "unat (of_nat n :: u8) = n" if "n < 256" for n using that by (simp add: unat_of_nat take_bit_nat_eq_self)
  ultimately show ?thesis by simp
qed

lemma of_char_zero: "(of_char c :: u8) = 0 \<longleftrightarrow> c = CHR 0x00"
proof -
  have "(of_char c :: u8) = 0 \<longleftrightarrow> (of_char c :: nat) = of_char (CHR 0x00)"
    by (simp add: word_unat_eq_iff unat_of_char del: of_char_eq_iff)
  then show ?thesis by (simp only: of_char_eq_iff)
qed

lemma bytes_text_bytes: "CHR 0x00 \<notin> set t \<Longrightarrow> bytes_text (text_bytes t @ [0]) = t"
proof -
  have "char_of (unat (of_char c :: u8)) = c" for c by (simp add: unat_of_char)
  then show "CHR 0x00 \<notin> set t \<Longrightarrow> bytes_text (text_bytes t @ [0]) = t"
    by (induction t) (auto simp: bytes_text_def text_bytes_def of_char_zero)
qed

end
