(* ===== verification/Match.thy ===== *)
theory Match
  imports Text Bytes
begin

text \<open>
  \<open>match.c\<close>: patterns with wildcards, lists of patterns with negation, groups, and lists of network
  addresses. The address functions of the C library, \<open>getaddrinfo\<close> and \<open>inet_pton\<close>, are parameters.
\<close>

section \<open>Wildcards\<close>

text \<open>
  The loop over the text. \<open>star\<close> has the places after the last star met: in the text and in the
  pattern. \<open>None\<close> is a loop that has not ended after \<open>fuel\<close> iterations, or a step behind the end
  of the text.
\<close>

fun match_loop :: "nat \<Rightarrow> string \<Rightarrow> string \<Rightarrow> (string \<times> string) option \<Rightarrow> bool option" where
  "match_loop 0 s pattern star = None"
| "match_loop (Suc fuel) s pattern star = (case s of
     [] \<Rightarrow> Some (dropWhile (\<lambda>c. c = CHR ''*'') pattern = [])
   | c # s' \<Rightarrow>
       if pattern \<noteq> [] \<and> (hd pattern = c \<or> hd pattern = CHR ''?'')
       then match_loop fuel s' (tl pattern) star
       else if pattern \<noteq> [] \<and> hd pattern = CHR ''*''
       then match_loop fuel s (tl pattern) (Some (s, tl pattern))
       else (case star of
          Some (s_star, p_star) \<Rightarrow> (case s_star of [] \<Rightarrow> None
            | _ # s_star \<Rightarrow> match_loop fuel s_star p_star (Some (s_star, p_star)))
        | None \<Rightarrow> Some False))"

text \<open>The number of iterations is quadratic at most.\<close>

definition match_steps :: "string \<Rightarrow> string \<Rightarrow> nat" where
  "match_steps s pattern = Suc (length s) * Suc (length s + length pattern)"

definition match_pattern :: "string option \<Rightarrow> string option \<Rightarrow> bool option" where
  "match_pattern s pattern = (case (s, pattern) of
     (Some s, Some pattern) \<Rightarrow> match_loop (match_steps s pattern) s pattern None
   | _ \<Rightarrow> Some False)"

section \<open>Lists of patterns\<close>

text \<open>The rest of the list from \<open>pattern[i]\<close> on; 1023 is the room for a subpattern.\<close>

function match_list_loop :: "string option \<Rightarrow> bool \<Rightarrow> bool \<Rightarrow> string \<Rightarrow> int option" where
  "match_list_loop s dolower got_positive pattern = (case pattern of
     [] \<Rightarrow> Some (if got_positive then 1 else 0)
   | _ \<Rightarrow>
       let negated = (hd pattern = CHR ''!'');
           pattern = (if negated then tl pattern else pattern);
           sub = take 1023 (takeWhile (\<lambda>c. c \<noteq> CHR '','') pattern);
           rest = drop (length sub) pattern;
           rest = (if rest \<noteq> [] \<and> hd rest = CHR '','' then tl rest else rest)
       in if length sub \<ge> 1023 then Some 0
          else (case match_pattern s (Some (if dolower then map tolower sub else sub)) of
             None \<Rightarrow> None
           | Some True \<Rightarrow> if negated then Some (- 1) else match_list_loop s dolower True rest
           | Some False \<Rightarrow> match_list_loop s dolower got_positive rest))"
  by pat_completeness auto
termination
proof (relation "measure (\<lambda>(_, _, _, pattern). length pattern)", goal_cases)
  case (2 s dolower got_positive pattern x21 x22 negated pattern' sub rest rest')
  then show ?case by (cases pattern') auto
next
  case (3 s dolower got_positive pattern x21 x22 negated pattern' sub rest rest')
  then show ?case by (cases pattern') auto
qed simp

declare match_list_loop.simps [simp del]

definition match_pattern_list :: "string option \<Rightarrow> string \<Rightarrow> nat \<Rightarrow> bool \<Rightarrow> int option" where
  "match_pattern_list s pattern len dolower =
    (if length pattern < len then None else match_list_loop s dolower False (take len pattern))"

definition match_hostname :: "string option \<Rightarrow> string \<Rightarrow> nat \<Rightarrow> int option" where
  "match_hostname host pattern len = match_pattern_list host pattern len True"

section \<open>Network addresses\<close>

definition AF_INET :: int where "AF_INET = 2"
definition AF_INET6 :: int where "AF_INET6 = 30"
definition NI_MAXHOST :: int where "NI_MAXHOST = 1025"

definition cidr_match_6 :: "bytes \<Rightarrow> bytes \<Rightarrow> nat \<Rightarrow> bool" where
  "cidr_match_6 a b bits = (let byte_whole = bits div 8; bits_left = bits mod 8 in
     (byte_whole \<noteq> 0 \<longrightarrow> take byte_whole a = take byte_whole b) \<and>
     (bits_left \<noteq> 0 \<longrightarrow>
        (ucast (a ! byte_whole XOR b ! byte_whole) :: u32) AND push_bit (8 - bits_left) 0xFF = 0))"

definition cidr_match_4 :: "u32 \<Rightarrow> u32 \<Rightarrow> nat \<Rightarrow> bool" where
  "cidr_match_4 a b bits = (if bits = 0 then True
     else (a XOR b) AND htonl (push_bit (32 - bits) 0xFFFFFFFF) = 0)"

definition masklen_valid :: "int \<Rightarrow> int \<Rightarrow> bool" where
  "masklen_valid family masklen =
     (if family = AF_INET then masklen \<le> 32 else if family = AF_INET6 then masklen \<le> 128 else False)"

text \<open>The family \<open>getaddrinfo\<close> finds for a numeric address, and the addresses in network byte order.\<close>

record address_lib =
  lib_family :: "string \<Rightarrow> int option"
  lib_pton4 :: "string \<Rightarrow> u32 option"
  lib_pton6 :: "string \<Rightarrow> bytes option"

definition get_address_family :: "address_lib \<Rightarrow> string \<Rightarrow> int" where
  "get_address_family lib address = (case lib_family lib address of None \<Rightarrow> - 1 | Some family \<Rightarrow> family)"

text \<open>One entry of the list: -1 ends the loop with an error, 1 with a match, 0 goes on.\<close>

definition cidr_entry :: "address_lib \<Rightarrow> int \<Rightarrow> u32 \<Rightarrow> bytes \<Rightarrow> string \<Rightarrow> int" where
  "cidr_entry lib sa_family try_addr try_addr6 cp =
    (if cp = [] then - 1
     else if length cp > 46 + 3 then - 1
     else if \<not> list_all (\<lambda>c. c \<in> set ''0123456789abcdefABCDEF.:/'') cp then - 1
     else if CHR ''/'' \<notin> set cp then - 1
     else
       let addr = takeWhile (\<lambda>c. c \<noteq> CHR ''/'') cp;
           sp = drop (Suc (length addr)) cp;
           (mask_len, rest) = strtoul sp
       in if sp = [] \<or> \<not> isdigit (hd sp) \<or> rest \<noteq> [] then - 1
          else if mask_len > 128 then - 1
          else
            let family = get_address_family lib addr in
            if family = - 1 then - 1
            else if family = AF_INET
            then (case lib_pton4 lib addr of None \<Rightarrow> - 1 | Some match_addr \<Rightarrow>
               if \<not> masklen_valid family mask_len then - 1
               else if sa_family = AF_INET \<and> cidr_match_4 try_addr match_addr (nat mask_len) then 1 else 0)
            else if family = AF_INET6
            then (case lib_pton6 lib addr of None \<Rightarrow> - 1 | Some match_addr6 \<Rightarrow>
               if \<not> masklen_valid family mask_len then - 1
               else if sa_family = AF_INET6 \<and> cidr_match_6 try_addr6 match_addr6 (nat mask_len) then 1 else 0)
            else - 1)"

fun cidr_entries :: "address_lib \<Rightarrow> int \<Rightarrow> u32 \<Rightarrow> bytes \<Rightarrow> string list \<Rightarrow> int" where
  "cidr_entries lib sa_family try_addr try_addr6 [] = 0"
| "cidr_entries lib sa_family try_addr try_addr6 (cp # cps) =
    (let rc = cidr_entry lib sa_family try_addr try_addr6 cp
     in if rc \<noteq> 0 then rc else cidr_entries lib sa_family try_addr try_addr6 cps)"

text \<open>The host's address: its family and both binary forms, one of them zero.\<close>

definition cidr_host :: "address_lib \<Rightarrow> string \<Rightarrow> int \<Rightarrow> (int \<times> u32 \<times> bytes) option" where
  "cidr_host lib address sa_family =
    (let addr = takeWhile (\<lambda>c. c \<noteq> CHR ''%'') address;
         family = (if sa_family = - 1 then get_address_family lib addr else sa_family)
     in if family = AF_INET then map_option (\<lambda>a. (family, a, replicate 16 0)) (lib_pton4 lib addr)
        else if family = AF_INET6 then map_option (\<lambda>a. (family, 0, a)) (lib_pton6 lib addr)
        else None)"

text \<open>\<open>copied\<close> says whether \<open>strdup\<close> has memory. A longer address leaves the local copy unterminated.\<close>

definition match_cidr_address_list :: "address_lib \<Rightarrow> bool \<Rightarrow> string option \<Rightarrow> string \<Rightarrow> int \<Rightarrow> int option" where
  "match_cidr_address_list lib copied address addrlist sa_family =
    (if sa_family \<noteq> AF_INET \<and> sa_family \<noteq> AF_INET6 \<and> sa_family \<noteq> - 1 then Some (- 1)
     else if (case address of None \<Rightarrow> False | Some a \<Rightarrow> int (length a) \<ge> NI_MAXHOST - 1) then None
     else case (case address of None \<Rightarrow> Some (sa_family, 0, replicate 16 0)
                | Some a \<Rightarrow> cidr_host lib a sa_family) of
       None \<Rightarrow> Some (- 1)
     | Some (sa_family, try_addr, try_addr6) \<Rightarrow>
         if \<not> copied then Some (- 1)
         else Some (cidr_entries lib sa_family try_addr try_addr6 (split_on CHR '','' addrlist)))"

section \<open>Groups\<close>

function match_group_loop :: "string \<Rightarrow> string \<Rightarrow> bool" where
  "match_group_loop z object =
    (if CHR '','' \<notin> set z then z = object
     else let a = takeWhile (\<lambda>c. c \<noteq> CHR '','') z in
       if take (length a) object = a then True else match_group_loop (drop (Suc (length a)) z) object)"
  by pat_completeness auto
termination
proof (relation "measure (length \<circ> fst)", goal_cases)
  case (2 z object a)
  then show ?case by (cases z) auto
qed simp

declare match_group_loop.simps [simp del]

definition match_group :: "string option \<Rightarrow> string option \<Rightarrow> bool" where
  "match_group grp object = (case (grp, object) of
     (Some grp, Some object) \<Rightarrow> match_group_loop grp object
   | _ \<Rightarrow> False)"

end
