(* ===== verification/MatchProps.thy ===== *)
theory MatchProps
  imports Match
begin

text \<open>
  What the functions of \<open>match.c\<close> compute: the loop with one level of backtracking is the language of
  the pattern, for texts without a star; lists of patterns; the bits two addresses share; groups.
\<close>

section \<open>The language of a pattern\<close>

fun glob :: "string \<Rightarrow> string \<Rightarrow> bool" where
  "glob [] s \<longleftrightarrow> s = []"
| "glob (q # p) s \<longleftrightarrow> (if q = CHR ''*'' then \<exists>k \<le> length s. glob p (drop k s)
     else s \<noteq> [] \<and> (q = hd s \<or> q = CHR ''?'') \<and> glob p (tl s))"

lemma glob_star: "glob (CHR ''*'' # p) s \<longleftrightarrow> (\<exists>k. glob p (drop k s))"
proof -
  have "\<exists>j \<le> length s. glob p (drop j s)" if "glob p (drop k s)" for k
    using that by (cases "k \<le> length s") auto
  then show ?thesis by auto
qed

declare glob.simps(2) [simp del]

lemma glob_char: "q \<noteq> CHR ''*'' \<Longrightarrow> glob (q # p) s \<longleftrightarrow> s \<noteq> [] \<and> (q = hd s \<or> q = CHR ''?'') \<and> glob p (tl s)"
  by (simp add: glob.simps(2))

lemma glob_end: "glob p [] \<longleftrightarrow> dropWhile (\<lambda>c. c = CHR ''*'') p = []"
  by (induction p) (auto simp: glob_star glob_char)

text \<open>A text and a piece of the pattern that match character by character.\<close>

abbreviation fits :: "string \<Rightarrow> string \<Rightarrow> bool" where
  "fits \<equiv> list_all2 (\<lambda>c q. c \<noteq> CHR ''*'' \<and> (q = c \<or> q = CHR ''?''))"

lemma glob_fits_drop:
  assumes "fits u v" and "glob (v @ p) w"
  shows "glob p (drop (length v) w)"
  using assms
proof (induction u v arbitrary: w rule: list_all2_induct)
  case (Cons c u q v)
  then have "q \<noteq> CHR ''*''" by auto
  with Cons show ?case by (cases w) (auto simp: glob_char)
qed simp

lemma glob_fits: "fits u v \<Longrightarrow> glob (v @ p) (u @ s) = glob p s"
proof (induction u v rule: list_all2_induct)
  case (Cons c u q v)
  then have "q \<noteq> CHR ''*''" by auto
  with Cons show ?case by (auto simp: glob_char)
qed simp

section \<open>The loop\<close>

definition star_ok :: "string \<Rightarrow> string \<Rightarrow> (string \<times> string) option \<Rightarrow> bool" where
  "star_ok s p star \<longleftrightarrow> (case star of None \<Rightarrow> True
     | Some (ss, ps) \<Rightarrow> \<exists>u v. ss = u @ s \<and> ps = v @ p \<and> fits u v)"

definition star_glob :: "(string \<times> string) option \<Rightarrow> bool" where
  "star_glob star \<longleftrightarrow> (case star of None \<Rightarrow> False | Some (ss, ps) \<Rightarrow> \<exists>k. glob ps (drop k ss))"

text \<open>What a match after the last star leaves for the place reached.\<close>

lemma star_globD:
  assumes "star_ok s p star" and "star_glob star"
  obtains k where "glob p (drop k s)"
proof -
  from assms obtain u v k where "fits u v" and "glob (v @ p) (drop k (u @ s))"
    by (auto simp: star_ok_def star_glob_def split: option.splits)
  moreover from this have "drop (length v) (drop k (u @ s)) = drop k (drop (length u) (u @ s))"
    by (simp only: drop_drop list_all2_lengthD add.commute)
  ultimately have "glob p (drop k s)" using glob_fits_drop by fastforce
  then show thesis by (rule that)
qed

definition star_room :: "nat \<Rightarrow> nat \<Rightarrow> (string \<times> string) option \<Rightarrow> nat \<Rightarrow> bool" where
  "star_room n m star r \<longleftrightarrow> (case star of None \<Rightarrow> n * Suc (n + m) \<le> r
     | Some (ss, ps) \<Rightarrow> length ss \<le> n \<and> length ps \<le> m \<and> length ss * Suc (n + m) \<le> r)"

lemma match_loop_correct:
  assumes "CHR ''*'' \<notin> set s" and "star_ok s p star" and "\<forall>ss ps. star = Some (ss, ps) \<longrightarrow> CHR ''*'' \<notin> set ss"
    and "length s \<le> n" and "length p \<le> m" and "star_room n m star r" and "r + length s + length p < fuel"
  shows "match_loop fuel s p star = Some (glob p s \<or> star_glob star)"
  using assms
proof (induction fuel arbitrary: s p star r)
  case (Suc fuel)
  note IH = Suc.IH and prems = Suc.prems
  show ?case
  proof (cases s)
    case Nil
    with star_globD [OF prems(2)] have "star_glob star \<Longrightarrow> glob p []" by fastforce
    with Nil show ?thesis by (auto simp: glob_end)
  next
    case (Cons c s')
    note s = Cons
    with prems(1) have c: "c \<noteq> CHR ''*''" "CHR ''*'' \<notin> set s'" by auto
    have miss: ?thesis if p: "p = [] \<or> hd p \<noteq> c \<and> hd p \<noteq> CHR ''?'' \<and> hd p \<noteq> CHR ''*''"
    proof -
      from p s have no: "\<not> glob p s" by (cases p) (auto simp: glob_char)
      show ?thesis
      proof (cases star)
        case None
        with no p s show ?thesis by (auto simp: star_glob_def)
      next
        case (Some st)
        then obtain ss ps where star: "star = Some (ss, ps)" by (cases st) auto
        with prems(2) obtain u v where u: "ss = u @ s" "ps = v @ p" "fits u v" by (auto simp: star_ok_def)
        with s obtain x xs where ss: "ss = x # xs" by (cases u) auto
        from star prems(6) have room: "length ss \<le> n" "length ps \<le> m" "length ss * Suc (n + m) \<le> r"
          by (auto simp: star_room_def)
        have "(\<exists>k. glob ps (drop k ss)) \<longleftrightarrow> (\<exists>k. glob ps (drop k xs))"
        proof
          assume "\<exists>k. glob ps (drop k ss)"
          then obtain k where "glob ps (drop k ss)" ..
          moreover have "\<not> glob ps ss" using no u by (simp add: glob_fits)
          ultimately show "\<exists>k. glob ps (drop k xs)" using ss by (cases k) auto
        next
          assume "\<exists>k. glob ps (drop k xs)"
          then obtain k where "glob ps (drop k xs)" ..
          then have "glob ps (drop (Suc k) ss)" using ss by simp
          then show "\<exists>k. glob ps (drop k ss)" ..
        qed
        moreover have "match_loop fuel xs ps (Some (xs, ps)) = Some (glob ps xs \<or> star_glob (Some (xs, ps)))"
        proof (rule IH)
          show "star_room n m (Some (xs, ps)) (r - Suc (n + m))"
            using room ss by (auto simp: star_room_def)
          show "r - Suc (n + m) + length xs + length ps < fuel"
            using room ss prems(7) s by auto
        qed (use prems(3) star ss room in \<open>auto simp: star_ok_def\<close>)
        moreover have "glob ps xs \<Longrightarrow> \<exists>k. glob ps (drop k xs)" by (metis drop0)
        ultimately show ?thesis using no p s star ss by (auto simp: star_glob_def)
      qed
    qed
    show ?thesis
    proof (cases p)
      case Nil
      then show ?thesis by (intro miss) simp
    next
      case (Cons q p')
      note p = this
      consider "q = c \<or> q = CHR ''?''" | "q = CHR ''*''" | "q \<noteq> c" "q \<noteq> CHR ''?''" "q \<noteq> CHR ''*''" by blast
      then show ?thesis
      proof cases
        case 1
        have "match_loop fuel s' p' star = Some (glob p' s' \<or> star_glob star)"
        proof (rule IH)
          show "star_ok s' p' star"
          proof (cases star)
            case (Some st)
            then obtain ss ps where star: "star = Some (ss, ps)" by (cases st) auto
            with prems(2) obtain u v where u: "ss = u @ s" "ps = v @ p" "fits u v" by (auto simp: star_ok_def)
            then have "ss = (u @ [c]) @ s'" "ps = (v @ [q]) @ p'" "fits (u @ [c]) (v @ [q])"
              using s p 1 c by (auto intro!: list_all2_appendI)
            with star show ?thesis by (fastforce simp: star_ok_def)
          qed (simp add: star_ok_def)
        qed (use prems(3-7) s p c in auto)
        moreover have "q \<noteq> CHR ''*''" using 1 c by auto
        ultimately show ?thesis using 1 s p by (auto simp: glob_char)
      next
        case 2
        have "match_loop fuel s p' (Some (s, p')) = Some (glob p' s \<or> star_glob (Some (s, p')))"
        proof (rule IH)
          show "star_room n m (Some (s, p')) r"
          proof (cases star)
            case None
            have "length s * Suc (n + m) \<le> n * Suc (n + m)" by (rule mult_le_mono1 [OF prems(4)])
            with None prems(4-6) p show ?thesis by (auto simp: star_room_def)
          next
            case (Some st)
            then obtain ss ps where star: "star = Some (ss, ps)" by (cases st) auto
            with prems(2) have "length s \<le> length ss" by (auto simp: star_ok_def)
            then have "length s * Suc (n + m) \<le> length ss * Suc (n + m)" by (rule mult_le_mono1)
            with star prems(4-6) p show ?thesis by (auto simp: star_room_def)
          qed
        qed (use prems s p in \<open>auto simp: star_ok_def\<close>)
        moreover have "glob p s" if "star_glob star"
        proof -
          from star_globD [OF prems(2) that] obtain k where "glob p (drop k s)" .
          with p 2 obtain j where "glob p' (drop j (drop k s))" by (auto simp: glob_star)
          then have "glob p' (drop (j + k) s)" by (simp only: drop_drop)
          with p 2 show ?thesis by (auto simp: glob_star)
        qed
        moreover have "glob p' s \<Longrightarrow> \<exists>k. glob p' (drop k s)" by (metis drop0)
        ultimately show ?thesis using 2 p s c by (auto simp: star_glob_def glob_star)
      next
        case 3
        with p show ?thesis by (intro miss) simp
      qed
    qed
  qed
qed simp

lemma match_pattern_glob:
  assumes "CHR ''*'' \<notin> set s"
  shows "match_pattern (Some s) (Some p) = Some (glob p s)"
proof -
  have "match_loop (match_steps s p) s p None = Some (glob p s \<or> star_glob None)"
    by (rule match_loop_correct [where n = "length s" and m = "length p" and r = "length s * Suc (length s + length p)"])
      (use assms in \<open>auto simp: star_ok_def star_room_def match_steps_def\<close>)
  then show ?thesis by (simp add: match_pattern_def star_glob_def)
qed

text \<open>C26: \<open>match_pattern\<close> decides the language of the pattern. On a text without a star, the loop with its
  one remembered star ends within a number of iterations that is quadratic in the lengths, and
  the result is that of trying every length for every star. On a text with a star it is not: the
  star of the pattern is then taken as an ordinary character, and \<open>*\<close> does not match \<open>*x\<close>.\<close>

theorem match_pattern_language:
  "(\<forall>s p. CHR ''*'' \<notin> set s \<longrightarrow> match_pattern (Some s) (Some p) = Some (glob p s)) \<and>
   match_pattern (Some ''*x'') (Some ''*'') = Some False \<and> glob ''*'' ''*x''"
proof (intro conjI)
  show "match_pattern (Some ''*x'') (Some ''*'') = Some False" by code_simp
  have "glob [] (drop 2 ''*x'')" by simp
  then show "glob ''*'' ''*x''" unfolding glob_star ..
qed (simp add: match_pattern_glob)

theorem match_pattern_language_witness: "match_pattern (Some ''db7.lan'') (Some ''*?.l*n'') = Some True"
proof -
  have "glob ''*?.l*n'' ''db7.lan''" by code_simp
  with match_pattern_language show ?thesis by simp
qed

section \<open>Lists of patterns\<close>

definition sub_pattern :: "string \<Rightarrow> bool \<times> string" where
  "sub_pattern t = (if t \<noteq> [] \<and> hd t = CHR ''!'' then (True, tl t) else (False, t))"

definition sub_patterns :: "string \<Rightarrow> (bool \<times> string) list" where
  "sub_patterns p = (let ts = split_on CHR '','' p in map sub_pattern (if last ts = [] then butlast ts else ts))"

definition hits :: "bool \<Rightarrow> string \<Rightarrow> bool \<times> string \<Rightarrow> bool" where
  "hits dolower s = (\<lambda>(negated, sub). glob (if dolower then map tolower sub else sub) s)"

lemma match_list_step:
  assumes "CHR '','' \<notin> set t" and "t @ tail \<noteq> []" and "tail = [] \<or> hd tail = CHR '',''"
    and "length (snd (sub_pattern t)) < 1023" and "CHR ''*'' \<notin> set s"
  shows "match_list_loop (Some s) l got (t @ tail) =
    (if hits l s (sub_pattern t)
     then if fst (sub_pattern t) then Some (- 1) else match_list_loop (Some s) l True (tl tail)
     else match_list_loop (Some s) l got (tl tail))"
proof -
  obtain sub where sub: "snd (sub_pattern t) = sub" "CHR '','' \<notin> set sub" "length sub < 1023"
    using assms(1,4) by (cases t) (auto simp: sub_pattern_def)
  then have [simp]: "takeWhile (\<lambda>c. c \<noteq> CHR '','') (sub @ tail) = sub" "take 1023 sub = sub"
    using assms(3) by (cases tail; auto simp: takeWhile_no_sep takeWhile_append_sep)+
  have tl: "(if tail \<noteq> [] \<and> hd tail = CHR '','' then tl tail else tail) = tl tail" using assms(3) by auto
  show ?thesis
  proof (cases "fst (sub_pattern t)")
    case True
    with sub have "t = CHR ''!'' # sub" "sub_pattern t = (True, sub)"
      by (cases t; auto simp: sub_pattern_def split: if_splits)+
    with sub(3) show ?thesis
      by (subst match_list_loop.simps) (simp add: match_pattern_glob [OF assms(5)] hits_def tl)
  next
    case False
    with sub have t: "t = sub" "sub_pattern t = (False, sub)"
      by (cases t; auto simp: sub_pattern_def split: if_splits)+
    with False assms(2,3) obtain x xs where x: "sub @ tail = x # xs" "x \<noteq> CHR ''!''"
      by (cases "t @ tail"; cases t) (auto simp: sub_pattern_def split: if_splits)
    have "takeWhile (\<lambda>c. c \<noteq> CHR '','') (x # xs) = sub" "drop (length sub) (x # xs) = tail"
      unfolding x(1) [symmetric] by simp_all
    moreover have "(if tail \<noteq> [] \<and> hd tail = CHR '','' then tl tail else tail) = tl tail" by (rule tl)
    moreover have "match_list_loop (Some s) l got (x # xs) =
      (if glob (if l then map tolower sub else sub) s then match_list_loop (Some s) l True (tl tail)
       else match_list_loop (Some s) l got (tl tail))"
      using x(2) sub(3) calculation
      by (subst match_list_loop.simps) (simp add: match_pattern_glob [OF assms(5)] Let_def del: takeWhile.simps drop_Suc_Cons split: if_split_asm)
    ultimately show ?thesis using t x(1) by (simp add: hits_def)
  qed
qed

lemma match_list_hits:
  assumes "\<forall>i \<in> set (sub_patterns p). length (snd i) < 1023" and "CHR ''*'' \<notin> set s"
  shows "match_list_loop (Some s) l got p = Some
    (if \<exists>i \<in> set (sub_patterns p). hits l s i \<and> fst i then - 1
     else if got \<or> (\<exists>i \<in> set (sub_patterns p). hits l s i) then 1 else 0)"
  using assms(1)
proof (induction p arbitrary: got rule: split_induct [of "CHR '',''"])
  case (single t)
  show ?case
  proof (cases t)
    case Nil
    then show ?thesis by (subst match_list_loop.simps) (simp add: sub_patterns_def split_on_single)
  next
    case (Cons x xs)
    with single have *: "sub_patterns t = [sub_pattern t]" by (simp add: sub_patterns_def split_on_single)
    have "match_list_loop (Some s) l got' [] = Some (if got' then 1 else 0)" for got'
      by (subst match_list_loop.simps) simp
    with match_list_step [OF single(1), of "[]" s l got] single(2) assms(2) Cons * show ?thesis by auto
  qed
next
  case (sep t p)
  have *: "sub_patterns (t @ CHR '','' # p) = sub_pattern t # sub_patterns p"
    using sep(1) split_on_nonempty [of "CHR '',''" p] by (simp add: sub_patterns_def split_on_sep Let_def)
  with match_list_step [OF sep(1), of "CHR '','' # p" s l got] sep assms(2) show ?case by auto
qed

text \<open>A list of patterns is its items between the commas, a \<open>!\<close> in front negating one. The result is -1 if
  a negated item matches, wherever it stands, else 1 if an item matches, else 0; an item after the
  last comma counts only if it is not empty.\<close>

theorem match_pattern_list_items:
  assumes "CHR ''*'' \<notin> set s" and "\<forall>i \<in> set (sub_patterns p). length (snd i) < 1023"
  shows "match_pattern_list (Some s) p (length p) dolower = Some
    (if \<exists>i \<in> set (sub_patterns p). hits dolower s i \<and> fst i then - 1
     else if \<exists>i \<in> set (sub_patterns p). hits dolower s i then 1 else 0)"
  using match_list_hits [OF assms(2,1), of dolower False] by (simp add: match_pattern_list_def)

theorem match_pattern_list_items_witness: "match_pattern_list (Some ''a.lan'') ''*.lan,!A.*'' 10 True = Some (- 1)"
proof -
  have "sub_patterns ''*.lan,!A.*'' = [(False, ''*.lan''), (True, ''A.*'')]" by code_simp
  moreover have "hits True ''a.lan'' (True, ''A.*'')" by code_simp
  ultimately show ?thesis using match_pattern_list_items [of "''a.lan''" "''*.lan,!A.*''" True] by (simp add: eval_nat_numeral)
qed

section \<open>Groups\<close>

lemma match_group_loop_items:
  "match_group_loop g object \<longleftrightarrow> last (split_on CHR '','' g) = object \<or>
    (\<exists>t \<in> set (butlast (split_on CHR '','' g)). take (length t) object = t)"
proof (induction g rule: split_induct [of "CHR '',''"])
  case (single t)
  then show ?case by (subst match_group_loop.simps) (simp add: split_on_single)
next
  case (sep t g)
  then show ?case
    by (subst match_group_loop.simps) (auto simp: split_on_sep takeWhile_append_sep split_on_nonempty)
qed

text \<open>What \<open>match_group\<close> really tests. The last item of the group must equal the object, but of any
  other item it is enough that the object starts with it: where \<open>ssh-ed25519\<close> is allowed, but not
  listed last, so is every algorithm whose name begins like this, certificates included.\<close>

theorem match_group_prefixes:
  "(\<forall>g object. match_group (Some g) (Some object) \<longleftrightarrow> last (split_on CHR '','' g) = object \<or>
      (\<exists>t \<in> set (butlast (split_on CHR '','' g)). take (length t) object = t)) \<and>
   match_group (Some ''ssh-ed25519,ssh-rsa'') (Some ''ssh-ed25519-cert-v01@openssh.com'')"
proof
  show "match_group (Some ''ssh-ed25519,ssh-rsa'') (Some ''ssh-ed25519-cert-v01@openssh.com'')" by code_simp
qed (simp add: match_group_def match_group_loop_items)

theorem match_group_prefixes_witness: "match_group (Some ''a,b'') (Some ''ab'') \<and> \<not> match_group (Some ''b,a'') (Some ''ab'')"
proof -
  have "split_on CHR '','' ''a,b'' = [''a'', ''b'']" "split_on CHR '','' ''b,a'' = [''b'', ''a'']" by code_simp+
  with match_group_prefixes show ?thesis by simp
qed

section \<open>Network prefixes\<close>

unbundle bit_operations_syntax

lemma be32_bitwise:
  "be32 (a XOR b) = map2 (XOR) (be32 a) (be32 b)" "be32 (a AND b) = map2 (AND) (be32 a) (be32 b)"
  by (auto simp: be32_def be16_def bit_simps intro!: bit_word_eqI)

lemma htonl_bitwise: "htonl (a XOR b) = htonl a XOR htonl b" "htonl (a AND b) = htonl a AND htonl b"
proof -
  have "be32 (htonl x) = rev (be32 x)" for x using le32_htonl [of x] by (simp add: le32_def rev_swap)
  then have "le32 (htonl a XOR htonl b) = map2 (XOR) (be32 a) (be32 b)" "le32 (htonl a AND htonl b) = map2 (AND) (be32 a) (be32 b)"
    by (simp_all add: le32_def be32_bitwise rev_map [symmetric] zip_rev)
  then show "htonl (a XOR b) = htonl a XOR htonl b" "htonl (a AND b) = htonl a AND htonl b"
    by (simp_all add: le32_inject [symmetric] le32_htonl be32_bitwise)
qed

lemma htonl_zero: "htonl 0 = 0" by code_simp

lemma high_bits:
  fixes P Q :: "nat \<Rightarrow> bool"
  assumes "r \<le> Suc w"
  shows "(\<forall>n < Suc w. n \<ge> Suc w - r \<longrightarrow> P n = Q n) \<longleftrightarrow> (\<forall>m < r. P (w - m) = Q (w - m))"
proof safe
  fix m assume *: "\<forall>n < Suc w. n \<ge> Suc w - r \<longrightarrow> P n = Q n" and "m < r"
  then have "P (w - m) = Q (w - m)" using assms by auto
  then show "P (w - m) \<Longrightarrow> Q (w - m)" "Q (w - m) \<Longrightarrow> P (w - m)" by auto
next
  fix n assume *: "\<forall>m < r. P (w - m) = Q (w - m)" and "n < Suc w" "n \<ge> Suc w - r"
  then have "w - n < r" "w - (w - n) = n" using assms by auto
  with * have "P n = Q n" by metis
  then show "P n \<Longrightarrow> Q n" "Q n \<Longrightarrow> P n" by auto
qed

lemma cidr4_bits:
  assumes "bits \<le> 32"
  shows "cidr_match_4 a b bits \<longleftrightarrow> (\<forall>i < bits. bit (ntohl a) (31 - i) = bit (ntohl b) (31 - i))"
proof (cases "bits = 0")
  case False
  let ?m = "push_bit (32 - bits) 0xFFFFFFFF :: u32"
  have "cidr_match_4 a b bits \<longleftrightarrow> htonl ((a XOR b) AND htonl ?m) = htonl 0"
    using False by (simp add: cidr_match_4_def)
  also have "\<dots> \<longleftrightarrow> (ntohl a XOR ntohl b) AND ?m = 0"
    by (simp only: htonl_bitwise ntohl_htonl htonl_zero)
  also have "\<dots> \<longleftrightarrow> (\<forall>n < 32. n \<ge> 32 - bits \<longrightarrow> bit (ntohl a) n = bit (ntohl b) n)"
    using mask_eq_exp_minus_1 [of 32, where 'a = u32] 
    by (auto simp: bit_word_eqI bit_eq_iff bit_simps)
  also have "\<dots> \<longleftrightarrow> (\<forall>i < bits. bit (ntohl a) (31 - i) = bit (ntohl b) (31 - i))"
    using high_bits [of bits 31 "bit (ntohl a)" "bit (ntohl b)"] assms by simp
  finally show ?thesis .
qed (simp add: cidr_match_4_def)

lemma byte_bits:
  assumes "r \<le> 8"
  shows "(ucast (x XOR y :: u8) :: u32) AND push_bit (8 - r) 0xFF = 0 \<longleftrightarrow>
    (\<forall>m < r. bit x (7 - m) = bit y (7 - m))"
proof -
  have m: "bit (0xFF :: u32) k \<longleftrightarrow> k < 8" for k
    using bit_mask_iff [of 8 k, where 'a = u32] by (auto simp: mask_eq_exp_minus_1)
  have high: "n \<ge> 8 \<Longrightarrow> \<not> bit z n" for n and z :: u8 using bit_imp_le_length [of z n] by auto
  have "(ucast (x XOR y) :: u32) AND push_bit (8 - r) 0xFF = 0 \<longleftrightarrow>
      (\<forall>n < 32. 8 - r \<le> n \<longrightarrow> n - (8 - r) < 8 \<longrightarrow> bit x n = bit y n)"
    by (auto simp: bit_eq_iff bit_and_iff bit_push_bit_iff m bit_unsigned_iff bit_xor_iff simp del: bit_numeral_word_iff)
  also have "\<dots> \<longleftrightarrow> (\<forall>n < 8. n \<ge> 8 - r \<longrightarrow> bit x n = bit y n)"
  proof (rule iffI; intro allI impI)
    fix n assume "\<forall>n < 32. 8 - r \<le> n \<longrightarrow> n - (8 - r) < 8 \<longrightarrow> bit x n = bit y n" "n < 8" "n \<ge> 8 - r"
    then show "bit x n = bit y n" by (auto simp: less_imp_diff_less)
  next
    fix n assume "\<forall>n < 8. n \<ge> 8 - r \<longrightarrow> bit x n = bit y n" "8 - r \<le> n"
    then show "bit x n = bit y n" using high [of n] by (cases "n < 8") auto
  qed
  also have "\<dots> \<longleftrightarrow> (\<forall>m < r. bit x (7 - m) = bit y (7 - m))" using high_bits [of r 7 "bit x" "bit y"] assms by simp
  finally show ?thesis .
qed

lemma byte_eq_bits: "x = y \<longleftrightarrow> (\<forall>m < 8. bit (x :: u8) (7 - m) = bit y (7 - m))"
proof -
  have "x = y \<longleftrightarrow> (\<forall>n < 8. n \<ge> 8 - 8 \<longrightarrow> bit x n = bit y n)" by (auto simp: bit_eq_iff)
  also have "\<dots> \<longleftrightarrow> (\<forall>m < 8. bit x (7 - m) = bit y (7 - m))" using high_bits [of 8 7 "bit x" "bit y"] by simp
  finally show ?thesis .
qed

lemma cidr6_bits:
  assumes "bits \<le> 128" and "length a = 16" and "length b = 16"
  shows "cidr_match_6 a b bits \<longleftrightarrow> (\<forall>i < bits. bit (a ! (i div 8)) (7 - i mod 8) = bit (b ! (i div 8)) (7 - i mod 8))"
proof -
  define q r where "q = bits div 8" and "r = bits mod 8"
  then have bits: "bits = 8 * q + r" "r < 8" "q \<le> 16" using assms(1) by auto
  let ?P = "\<lambda>j m. bit (a ! j) (7 - m) = bit (b ! j) (7 - m)"
  have "cidr_match_6 a b bits \<longleftrightarrow> take q a = take q b \<and> (\<forall>m < r. ?P q m)"
    using bits(2) byte_bits [of r "a ! q" "b ! q"] by (auto simp: cidr_match_6_def Let_def q_def [symmetric] r_def [symmetric])
  also have "take q a = take q b \<longleftrightarrow> (\<forall>j < q. a ! j = b ! j)"
    using assms(2,3) bits(3) by (simp add: list_eq_iff_nth_eq)
  also have "\<dots> \<longleftrightarrow> (\<forall>j < q. \<forall>m < 8. ?P j m)" by (simp only: byte_eq_bits)
  also have "(\<dots> \<and> (\<forall>m < r. ?P q m)) \<longleftrightarrow> (\<forall>i < bits. ?P (i div 8) (i mod 8))"
  proof safe
    fix i
    assume *: "\<forall>j < q. \<forall>m < 8. ?P j m" "\<forall>m < r. ?P q m" and "i < bits"
    moreover have "i = 8 * (i div 8) + i mod 8" by simp
    ultimately have "i div 8 < q \<or> i div 8 = q \<and> i mod 8 < r" using bits(1,2) by linarith
    with * have "?P (i div 8) (i mod 8)" by auto
    then show "bit (a ! (i div 8)) (7 - i mod 8) \<Longrightarrow> bit (b ! (i div 8)) (7 - i mod 8)"
      "bit (b ! (i div 8)) (7 - i mod 8) \<Longrightarrow> bit (a ! (i div 8)) (7 - i mod 8)" by auto
  next
    fix j m :: nat
    assume *: "\<forall>i < bits. ?P (i div 8) (i mod 8)" and "j < q" "m < 8"
    then have "8 * j + m < bits" "(8 * j + m) div 8 = j" "(8 * j + m) mod 8 = m" using bits by auto
    with * have "?P j m" by metis
    then show "bit (a ! j) (7 - m) \<Longrightarrow> bit (b ! j) (7 - m)" "bit (b ! j) (7 - m) \<Longrightarrow> bit (a ! j) (7 - m)" by auto
  next
    fix m
    assume *: "\<forall>i < bits. ?P (i div 8) (i mod 8)" and "m < r"
    then have "8 * q + m < bits" "(8 * q + m) div 8 = q" "(8 * q + m) mod 8 = m" using bits by auto
    with * have "?P q m" by metis
    then show "bit (a ! q) (7 - m) \<Longrightarrow> bit (b ! q) (7 - m)" "bit (b ! q) (7 - m) \<Longrightarrow> bit (a ! q) (7 - m)" by auto
  qed
  finally show ?thesis .
qed

section \<open>Lists of addresses\<close>

text \<open>The binary addresses \<open>inet_pton\<close> gives for IPv6 have 16 bytes. The prefix of an entry.\<close>

definition same_prefix4 :: "nat \<Rightarrow> u32 \<Rightarrow> u32 \<Rightarrow> bool" where
  "same_prefix4 bits a b \<longleftrightarrow> (\<forall>i < bits. bit (ntohl a) (31 - i) = bit (ntohl b) (31 - i))"

definition same_prefix6 :: "nat \<Rightarrow> bytes \<Rightarrow> bytes \<Rightarrow> bool" where
  "same_prefix6 bits a b \<longleftrightarrow> (\<forall>i < bits. bit (a ! (i div 8)) (7 - i mod 8) = bit (b ! (i div 8)) (7 - i mod 8))"

definition in_network :: "address_lib \<Rightarrow> int \<times> u32 \<times> bytes \<Rightarrow> string \<Rightarrow> bool" where
  "in_network lib host entry \<longleftrightarrow> (case host of (family, a4, a6) \<Rightarrow>
     \<exists>net digits. entry = net @ CHR ''/'' # digits \<and> digits \<noteq> [] \<and> list_all isdigit digits \<and> lib_family lib net = Some family \<and>
       (let n = fst (strtoul digits) in
        (family = AF_INET \<and> n \<le> 32 \<and> (\<exists>n4. lib_pton4 lib net = Some n4 \<and> same_prefix4 (nat n) a4 n4)) \<or>
        (family = AF_INET6 \<and> n \<le> 128 \<and> (\<exists>n6. lib_pton6 lib net = Some n6 \<and> same_prefix6 (nat n) a6 n6))))"

lemma cidr_entry_network:
  assumes "cidr_entry lib family a4 a6 entry = 1" and "\<forall>s n6. lib_pton6 lib s = Some n6 \<longrightarrow> length n6 = 16"
    and "length a6 = 16"
  shows "in_network lib (family, a4, a6) entry"
proof -
  let ?net = "takeWhile (\<lambda>c. c \<noteq> CHR ''/'') entry"
  let ?digits = "drop (Suc (length ?net)) entry"
  have slash: "CHR ''/'' \<in> set entry" using assms(1) by (auto simp: cidr_entry_def split: if_split_asm)
  then have entry: "entry = ?net @ CHR ''/'' # ?digits"
    by (induction entry) auto
  obtain n rest where n: "strtoul ?digits = (n, rest)" by (cases "strtoul ?digits")
  have E: "?digits \<noteq> []" "rest = []" "lib_family lib ?net = Some family"
    "family = AF_INET \<and> n \<le> 32 \<and> (\<exists>n4. lib_pton4 lib ?net = Some n4 \<and> cidr_match_4 a4 n4 (nat n)) \<or>
     family = AF_INET6 \<and> n \<le> 128 \<and> (\<exists>n6. lib_pton6 lib ?net = Some n6 \<and> cidr_match_6 a6 n6 (nat n))"
    using assms(1) slash n
    by (auto simp: cidr_entry_def Let_def get_address_family_def masklen_valid_def AF_INET_def AF_INET6_def
        split: if_split_asm option.split_asm)
  have digits: "list_all isdigit ?digits"
    using E(2) n by (auto simp: strtoul_def dropWhile_eq_Nil_conv list_all_iff)
  show ?thesis
    unfolding in_network_def prod.case
    apply (rule exI [of _ ?net], rule exI [of _ ?digits])
    using entry E digits n assms(2,3) cidr4_bits [of "nat n" a4] cidr6_bits [of "nat n" a6]
    apply (auto simp: Let_def same_prefix4_def same_prefix6_def)
    done
qed

lemma cidr_entries_network:
  assumes "cidr_entries lib family a4 a6 entries = 1"
  shows "\<exists>entry \<in> set entries. cidr_entry lib family a4 a6 entry = 1"
  using assms by (induction entries) (auto simp: Let_def split: if_split_asm)

text \<open>C35: a host is let in only by a network of the list. If the match of a host's address is positive, its
  binary form agrees, in as many leading bits as the prefix of some entry says, with the network
  address of this entry; the entry has the family of the host and a prefix its family allows.\<close>

theorem match_cidr_listed:
  assumes "match_cidr_address_list lib copied (Some address) addrlist family = Some 1"
    and "\<forall>s n6. lib_pton6 lib s = Some n6 \<longrightarrow> length n6 = 16"
  shows "\<exists>host. cidr_host lib address family = Some host \<and>
    (\<exists>entry \<in> set (split_on CHR '','' addrlist). in_network lib host entry)"
proof -
  from assms(1) obtain f a4 a6 where host: "cidr_host lib address family = Some (f, a4, a6)"
    and e: "cidr_entries lib f a4 a6 (split_on CHR '','' addrlist) = 1"
    by (auto simp: match_cidr_address_list_def split: if_split_asm option.split_asm)
  have "length a6 = 16"
    using host assms(2) by (auto simp: cidr_host_def Let_def split: if_split_asm)
  with cidr_entries_network [OF e] cidr_entry_network assms(2) host show ?thesis by blast
qed

text \<open>A library that knows two addresses of the network 10.1.0.0.\<close>

definition sample_addresses :: address_lib where
  "sample_addresses = \<lparr>lib_family = (\<lambda>a. if a \<in> {''10.1.0.0'', ''10.1.2.3''} then Some AF_INET else None),
     lib_pton4 = (\<lambda>a. if a = ''10.1.0.0'' then Some 0x10a else if a = ''10.1.2.3'' then Some 0x302010a else None),
     lib_pton6 = (\<lambda>_. None)\<rparr>"

theorem match_cidr_listed_witness:
  "match_cidr_address_list sample_addresses True (Some ''10.1.2.3'') ''10.1.0.0/16'' (- 1) = Some 1 \<and>
   in_network sample_addresses (AF_INET, 0x302010a, replicate 16 0) ''10.1.0.0/16''"
proof -
  have m: "match_cidr_address_list sample_addresses True (Some ''10.1.2.3'') ''10.1.0.0/16'' (- 1) = Some 1" by code_simp
  have h: "cidr_host sample_addresses ''10.1.2.3'' (- 1) = Some (AF_INET, 0x302010a, replicate 16 0)" by code_simp
  have s: "split_on CHR '','' ''10.1.0.0/16'' = [''10.1.0.0/16'']" by code_simp
  have "\<forall>s n6. lib_pton6 sample_addresses s = Some n6 \<longrightarrow> length n6 = 16" by (simp add: sample_addresses_def)
  from match_cidr_listed [OF m this] m h s show ?thesis by simp
qed

end
