(* ===== verification/Tokens.thy ===== *)
theory Tokens
  imports Text
begin

text \<open>
  \<open>token.c\<close>: lists of names separated by commas, as the messages and the options have them.
  \<open>room\<close> says for which sizes the C library has memory. The outer \<open>None\<close> of
  \<open>ssh_find_all_matching\<close> and \<open>ssh_remove_all_matching\<close> is a write behind the end of the result.
\<close>

section \<open>Tokens\<close>

text \<open>The tokens from \<open>c\<close> on: a separator at the very end begins no token.\<close>

function next_tokens :: "char \<Rightarrow> string \<Rightarrow> string list" where
  "next_tokens separator c = (let t = takeWhile (\<lambda>x. x \<noteq> separator) c in
     case drop (length t) c of [] \<Rightarrow> [t]
     | _ # c \<Rightarrow> if c = [] then [t] else t # next_tokens separator c)"
  by pat_completeness auto
termination
  by (relation "measure (length \<circ> snd)") (auto dest: arg_cong [where f = length])

declare next_tokens.simps [simp del]

definition ssh_tokenize :: "(nat \<Rightarrow> bool) \<Rightarrow> string option \<Rightarrow> char \<Rightarrow> string list option" where
  "ssh_tokenize room chain separator = (case chain of None \<Rightarrow> None
   | Some chain \<Rightarrow>
       if \<not> room 16 then None
       else if \<not> room (length chain + 1) then None
       else if \<not> room ((length (filter (\<lambda>c. c = separator) chain) + 2) * 8) then None
       else Some (next_tokens separator chain))"

definition strdup :: "(nat \<Rightarrow> bool) \<Rightarrow> string \<Rightarrow> string option" where
  "strdup room s = (if room (length s + 1) then Some s else None)"

definition ssh_find_matching :: "(nat \<Rightarrow> bool) \<Rightarrow> string option \<Rightarrow> string option \<Rightarrow> string option" where
  "ssh_find_matching room available_list preferred_list =
    (if available_list = None \<or> preferred_list = None then None
     else case ssh_tokenize room available_list CHR '','' of None \<Rightarrow> None
     | Some a_tok \<Rightarrow> (case ssh_tokenize room preferred_list CHR '','' of None \<Rightarrow> None
     | Some p_tok \<Rightarrow> (case List.find (\<lambda>p. list_ex (\<lambda>a. a = p) a_tok) p_tok of None \<Rightarrow> None
     | Some p \<Rightarrow> strdup room p)))"

text \<open>A token is written behind what is there, after a comma if that is not empty; the text and its
  \<open>NUL\<close> must fit in \<open>cap\<close> bytes.\<close>

definition put_token :: "nat \<Rightarrow> string \<Rightarrow> string \<Rightarrow> string option" where
  "put_token cap ret t = (let ret = (if ret \<noteq> [] then ret @ '','' else ret) @ t
     in if length ret + 1 \<le> cap then Some ret else None)"

fun put_tokens :: "nat \<Rightarrow> string \<Rightarrow> string list \<Rightarrow> string option" where
  "put_tokens cap ret [] = Some ret"
| "put_tokens cap ret (t # ts) =
    (case put_token cap ret t of None \<Rightarrow> None | Some ret \<Rightarrow> put_tokens cap ret ts)"

definition ssh_find_all_matching :: "(nat \<Rightarrow> bool) \<Rightarrow> string option \<Rightarrow> string option \<Rightarrow> string option option" where
  "ssh_find_all_matching room available_list preferred_list = (case (available_list, preferred_list) of
     (Some available, Some preferred) \<Rightarrow>
       let cap = max (length available) (length preferred) + 1 in
       if \<not> room cap then Some None
       else (case ssh_tokenize room (Some available) CHR '','' of None \<Rightarrow> Some None
       | Some a_tok \<Rightarrow> (case ssh_tokenize room (Some preferred) CHR '','' of None \<Rightarrow> Some None
       | Some p_tok \<Rightarrow>
          (case put_tokens cap [] (concat (map (\<lambda>p. filter (\<lambda>a. a = p) a_tok) p_tok)) of
             None \<Rightarrow> None
           | Some ret \<Rightarrow> Some (if ret = [] then None else Some ret))))
   | _ \<Rightarrow> Some None)"

section \<open>Duplicates\<close>

text \<open>The flags of the tokens, in order: the first of its kind, and not empty.\<close>

fun should_copy :: "string list \<Rightarrow> string list \<Rightarrow> bool list" where
  "should_copy before [] = []"
| "should_copy before (t # ts) = (t \<noteq> [] \<and> \<not> list_ex (\<lambda>b. t = b) before) # should_copy (before @ [t]) ts"

text \<open>\<open>strncat (ret, s, max_len - strlen (ret) - 1)\<close>, which copies as much as there is room for.\<close>

definition append_bounded :: "nat \<Rightarrow> string \<Rightarrow> string \<Rightarrow> string" where
  "append_bounded max_len ret s = ret @ take (max_len - length ret - 1) s"

fun copy_tokens :: "nat \<Rightarrow> string \<Rightarrow> bool \<Rightarrow> (string \<times> bool) list \<Rightarrow> string \<times> bool" where
  "copy_tokens max_len ret need_comma [] = (ret, need_comma)"
| "copy_tokens max_len ret need_comma ((t, copy) # ts) =
    (if copy
     then let ret = (if need_comma then append_bounded max_len ret '','' else ret)
          in copy_tokens max_len (append_bounded max_len ret t) True ts
     else copy_tokens max_len ret need_comma ts)"

definition ssh_remove_duplicates :: "(nat \<Rightarrow> bool) \<Rightarrow> string option \<Rightarrow> string option" where
  "ssh_remove_duplicates room list = (case list of None \<Rightarrow> None
   | Some list \<Rightarrow>
       if length list = 0 then None
       else let max_len = length list + 1 in
       (case ssh_tokenize room (Some list) CHR '','' of None \<Rightarrow> None
        | Some tok \<Rightarrow>
            if \<not> room max_len then None
            else let (ret, need_comma) = copy_tokens max_len [] False (zip tok (should_copy [] tok))
                 in if \<not> need_comma then None else Some ret))"

section \<open>Joining and removing\<close>

definition ssh_append_without_duplicates :: "(nat \<Rightarrow> bool) \<Rightarrow> string option \<Rightarrow> string option \<Rightarrow> string option" where
  "ssh_append_without_duplicates room list appended_list =
    (let l = (case list of None \<Rightarrow> [] | Some l \<Rightarrow> l); a = (case appended_list of None \<Rightarrow> [] | Some a \<Rightarrow> a) in
     if length l + length a = 0 then None
     else if \<not> room (length l + length a + 2) then None
     else ssh_remove_duplicates room (Some (l @ (if list = None then [] else '','') @ a)))"

definition ssh_remove_all_matching :: "(nat \<Rightarrow> bool) \<Rightarrow> string option \<Rightarrow> string option \<Rightarrow> string option option" where
  "ssh_remove_all_matching room list remove_list = (case list of None \<Rightarrow> Some None
   | Some l \<Rightarrow> (case remove_list of None \<Rightarrow> Some (strdup room l)
   | Some r \<Rightarrow> (case ssh_tokenize room (Some l) CHR '','' of None \<Rightarrow> Some None
   | Some l_tok \<Rightarrow> (case ssh_tokenize room (Some r) CHR '','' of None \<Rightarrow> Some None
   | Some r_tok \<Rightarrow>
       if \<not> room (length l + 1) then Some None
       else (case put_tokens (length l + 1) [] (filter (\<lambda>t. \<not> list_ex (\<lambda>x. t = x) r_tok) l_tok) of
          None \<Rightarrow> None
        | Some ret \<Rightarrow> Some (if ret = [] then None else Some ret))))))"

definition ssh_prefix_without_duplicates :: "(nat \<Rightarrow> bool) \<Rightarrow> string option \<Rightarrow> string option \<Rightarrow> string option" where
  "ssh_prefix_without_duplicates room list prefixed_list =
    (let l = (case list of None \<Rightarrow> [] | Some l \<Rightarrow> l); p = (case prefixed_list of None \<Rightarrow> [] | Some p \<Rightarrow> p) in
     if length l + length p = 0 then None
     else if \<not> room (length l + length p + 2) then None
     else ssh_remove_duplicates room (Some (p @ (if prefixed_list = None then [] else '','') @ l)))"

end
