(* ===== verification/TokenProps.thy ===== *)
theory TokenProps
  imports Tokens
begin

text \<open>
  What the functions on name lists compute, in terms of the lists of their tokens, and when the result
  fits in the memory it is given.
\<close>

section \<open>Tokens and pieces\<close>

abbreviation tokens :: "string \<Rightarrow> string list" where
  "tokens \<equiv> next_tokens CHR '',''"

lemma next_tokens_split:
  "next_tokens c s = (let ts = split_on c s in if last ts = [] \<and> length ts > 1 then butlast ts else ts)"
proof (induction s rule: split_induct [of c])
  case (single t)
  then show ?case by (subst next_tokens.simps) (simp add: takeWhile_no_sep split_on_single Let_def)
next
  case (sep t s)
  have e: "split_on c [] = [[]]" by (simp add: split_on_single)
  obtain u us where u: "split_on c s = u # us" using split_on_nonempty by (cases "split_on c s") auto
  have "s = [] \<longleftrightarrow> split_on c s = [[]]" using e join_split [of c s] by (metis join.simps(2))
  with sep u show ?case
    by (subst next_tokens.simps) (auto simp: takeWhile_append_sep split_on_sep Let_def)
qed

lemma next_tokens_nonempty: "next_tokens c s \<noteq> []"
  using split_on_nonempty [of c s] by (cases "split_on c s" rule: rev_cases) (auto simp: next_tokens_split Let_def)

lemma tokens_no_sep: "t \<in> set (next_tokens c s) \<Longrightarrow> c \<notin> set t"
  by (auto simp: next_tokens_split Let_def dest: in_set_butlastD split_no_sep split: if_splits)

lemma join_append: "xs \<noteq> [] \<Longrightarrow> ys \<noteq> [] \<Longrightarrow> join c (xs @ ys) = join c xs @ c # join c ys"
  by (induction xs rule: induct_list012) (auto simp: join_Cons)

lemma join_tokens: "s = join c (next_tokens c s) \<or> s = join c (next_tokens c s) @ [c]"
proof (cases "split_on c s" rule: rev_cases)
  case (snoc ts t)
  with join_split [of c s] have s: "s = join c (ts @ [t])" by simp
  have t: "next_tokens c s = (if t = [] \<and> ts \<noteq> [] then ts else ts @ [t])"
    using snoc by (auto simp: next_tokens_split Let_def)
  show ?thesis
  proof (cases "t = [] \<and> ts \<noteq> []")
    case True
    with s t join_append [of ts "[t]" c] show ?thesis by simp
  qed (use s t in auto)
qed (use split_on_nonempty in auto)

lemma length_join_tokens: "length (join c (next_tokens c s)) \<le> length s"
  using join_tokens [of s c] by (metis le_add1 length_append order_refl)

lemma tokens_join:
  assumes "ts \<noteq> []" and "\<forall>t \<in> set ts. c \<notin> set t" and "last ts \<noteq> []"
  shows "next_tokens c (join c ts) = ts"
  using assms by (simp add: next_tokens_split split_join)

lemma length_join_filter: "length (join c (filter P ts)) \<le> length (join c ts)"
proof (induction ts)
  case (Cons t ts)
  then show ?case by (cases "filter P ts = []"; cases "ts = []") (auto simp: join_Cons)
qed simp

lemma tokenize_room: "\<forall>n. room n \<Longrightarrow> ssh_tokenize room (Some s) CHR '','' = Some (tokens s)"
  by (simp add: ssh_tokenize_def)

section \<open>The first match\<close>

lemma find_split:
  "List.find P xs = Some x \<longleftrightarrow> (\<exists>us vs. xs = us @ x # vs \<and> P x \<and> (\<forall>u \<in> set us. \<not> P u))"
proof (induction xs)
  case (Cons y ys)
  show ?case
  proof (cases "P y")
    case True
    then show ?thesis by (auto simp: Cons_eq_append_conv)
  next
    case False
    have "(\<exists>us vs. y # ys = us @ x # vs \<and> P x \<and> (\<forall>u \<in> set us. \<not> P u)) \<longleftrightarrow>
        (\<exists>us vs. ys = us @ x # vs \<and> P x \<and> (\<forall>u \<in> set us. \<not> P u))"
    proof
      assume "\<exists>us vs. y # ys = us @ x # vs \<and> P x \<and> (\<forall>u \<in> set us. \<not> P u)"
      then obtain us vs where u: "y # ys = us @ x # vs" "P x" "\<forall>u \<in> set us. \<not> P u" by blast
      with False have "us \<noteq> []" by auto
      with u show "\<exists>us vs. ys = us @ x # vs \<and> P x \<and> (\<forall>u \<in> set us. \<not> P u)" by (cases us) auto
    next
      assume "\<exists>us vs. ys = us @ x # vs \<and> P x \<and> (\<forall>u \<in> set us. \<not> P u)"
      then obtain us vs where u: "ys = us @ x # vs" "P x" "\<forall>u \<in> set us. \<not> P u" by blast
      with False have "y # ys = (y # us) @ x # vs" "\<forall>u \<in> set (y # us). \<not> P u" by auto
      with u(2) show "\<exists>us vs. y # ys = us @ x # vs \<and> P x \<and> (\<forall>u \<in> set us. \<not> P u)" by blast
    qed
    with Cons False show ?thesis by simp
  qed
qed simp

lemma find_matching_find:
  assumes "\<forall>n. room n"
  shows "ssh_find_matching room (Some a) (Some p) = List.find (\<lambda>t. t \<in> set (tokens a)) (tokens p)"
  using assms
  by (auto simp: ssh_find_matching_def tokenize_room strdup_def list_ex_iff split: option.splits)

text \<open>The choice of an algorithm. \<open>ssh_find_matching\<close> returns the first name of the preferred list that is in
  the available one, and \<open>NULL\<close> only if the lists have no name in common.\<close>

theorem ssh_find_matching_first:
  assumes "\<forall>n. room n"
  shows "(ssh_find_matching room (Some a) (Some p) = Some t \<longleftrightarrow>
      (\<exists>us vs. tokens p = us @ t # vs \<and> t \<in> set (tokens a) \<and> (\<forall>u \<in> set us. u \<notin> set (tokens a)))) \<and>
    (ssh_find_matching room (Some a) (Some p) = None \<longleftrightarrow> set (tokens p) \<inter> set (tokens a) = {})"
  by (auto simp: find_matching_find [OF assms] find_split find_None_iff)

theorem ssh_find_matching_first_witness:
  "ssh_find_matching (\<lambda>_. True) (Some ''a,b,c'') (Some ''x,c,b'') = Some ''c''"
proof -
  have "tokens ''x,c,b'' = [''x''] @ ''c'' # [''b''] \<and> ''c'' \<in> set (tokens ''a,b,c'') \<and>
    (\<forall>u \<in> set [''x'']. u \<notin> set (tokens ''a,b,c''))" by code_simp
  then have "\<exists>us vs. tokens ''x,c,b'' = us @ ''c'' # vs \<and> ''c'' \<in> set (tokens ''a,b,c'') \<and>
    (\<forall>u \<in> set us. u \<notin> set (tokens ''a,b,c''))" by (intro exI)
  with ssh_find_matching_first [of "\<lambda>_. True" "''a,b,c''" "''x,c,b''" "''c''"] show ?thesis by simp
qed

section \<open>All matches\<close>

lemma put_tokens_join:
  assumes "[] \<notin> set ts" and "length (join CHR '','' (if ret = [] then ts else ret # ts)) < cap"
  shows "put_tokens cap ret ts = Some (join CHR '','' (if ret = [] then ts else ret # ts))"
  using assms
proof (induction ts arbitrary: ret)
  case (Cons t ts)
  let ?ret = "(if ret \<noteq> [] then ret @ '','' else ret) @ t"
  have j: "join CHR '','' (if ret = [] then t # ts else ret # t # ts) = join CHR '','' (?ret # ts)"
    by (cases ts) auto
  have l: "length ?ret \<le> length (join CHR '','' (?ret # ts))" by (cases ts) auto
  from Cons.prems have "?ret \<noteq> []" by auto
  with Cons.IH [of ?ret] Cons.prems j l show ?case by (auto simp: put_token_def Let_def)
qed (auto split: if_splits)

lemma filter_same_distinct: "distinct xs \<Longrightarrow> filter (\<lambda>a. a = p) xs = (if p \<in> set xs then [p] else [])"
  by (induction xs) auto

lemma concat_matches: "distinct as \<Longrightarrow> concat (map (\<lambda>p. filter (\<lambda>a. a = p) as) ps) = filter (\<lambda>p. p \<in> set as) ps"
  by (induction ps) (simp_all add: filter_same_distinct)

lemma find_all_matching_join:
  assumes "\<forall>n. room n" and "distinct (tokens a)" and "[] \<notin> set (tokens a)"
  shows "ssh_find_all_matching room (Some a) (Some p) = Some
    (let ts = filter (\<lambda>t. t \<in> set (tokens a)) (tokens p) in if ts = [] then None else Some (join CHR '','' ts))"
proof -
  let ?ts = "filter (\<lambda>t. t \<in> set (tokens a)) (tokens p)"
  have "length (join CHR '','' ?ts) \<le> length p"
    using length_join_filter length_join_tokens by (rule order_trans)
  then have "put_tokens (max (length a) (length p) + 1) [] ?ts = Some (join CHR '','' ?ts)"
    using put_tokens_join [of ?ts "[]"] assms(3) by auto
  moreover have "[] \<notin> set ?ts" using assms(3) by simp
  then have "join CHR '','' ?ts = [] \<longleftrightarrow> ?ts = []" by (cases ?ts; cases "tl ?ts") auto
  ultimately show ?thesis
    using assms by (simp add: ssh_find_all_matching_def tokenize_room concat_matches Let_def)
qed

text \<open>C32: \<open>ssh_find_all_matching\<close> writes within its memory if the available list names nothing twice, and returns
  then the preferred names that are available, in their order. With a name that is twice in both
  lists it writes behind the end of the result.\<close>

theorem ssh_find_all_matching_bounds:
  assumes "\<forall>n. room n" and "distinct (tokens a)" and "[] \<notin> set (tokens a)"
  shows "ssh_find_all_matching room (Some a) (Some p) = Some
      (let ts = filter (\<lambda>t. t \<in> set (tokens a)) (tokens p) in if ts = [] then None else Some (join CHR '','' ts)) \<and>
    ssh_find_all_matching room (Some ''a,a'') (Some ''a,a'') = None"
proof
  have "tokens ''a,a'' = [''a'', ''a'']" by code_simp
  then show "ssh_find_all_matching room (Some ''a,a'') (Some ''a,a'') = None"
    using assms(1) by (simp add: ssh_find_all_matching_def tokenize_room put_token_def)
qed (rule find_all_matching_join [OF assms])

theorem ssh_find_all_matching_bounds_witness:
  "ssh_find_all_matching (\<lambda>_. True) (Some ''a,b,c'') (Some ''x,c,b,c'') = Some (Some ''c,b,c'')"
proof -
  have "distinct (tokens ''a,b,c'') \<and> [] \<notin> set (tokens ''a,b,c'')" by code_simp
  moreover have "filter (\<lambda>t. t \<in> set (tokens ''a,b,c'')) (tokens ''x,c,b,c'') = [''c'', ''b'', ''c'']" by code_simp
  ultimately show ?thesis
    using ssh_find_all_matching_bounds [of "\<lambda>_. True" "''a,b,c''" "''x,c,b,c''"] by (simp add: Let_def)
qed

section \<open>No duplicates\<close>

text \<open>The first occurrence of each element.\<close>

definition firsts :: "'a list \<Rightarrow> 'a list" where
  "firsts xs = rev (remdups (rev xs))"

lemma firsts_simps [simp]: "firsts [] = []" "set (firsts xs) = set xs" "distinct (firsts xs)"
  by (simp_all add: firsts_def)

lemma firsts_snoc: "firsts (xs @ [x]) = (if x \<in> set xs then firsts xs else firsts xs @ [x])"
  by (simp add: firsts_def)

lemma length_join_firsts: "length (join c (firsts ts)) \<le> length (join c ts)"
proof (induction ts rule: rev_induct)
  case (snoc t ts)
  have "ts \<noteq> [] \<longleftrightarrow> firsts ts \<noteq> []" by (metis firsts_simps(2) set_empty)
  with snoc show ?case by (cases "ts = []") (auto simp: firsts_snoc join_append firsts_def)
qed simp

lemma flagged_firsts:
  "map fst (filter snd (zip ts (should_copy before ts))) = filter (\<lambda>t. t \<noteq> [] \<and> t \<notin> set before) (firsts ts)"
proof (induction ts arbitrary: before rule: rev_induct)
  case (snoc t ts)
  have a: "should_copy before (ts @ [t]) = should_copy before ts @ [t \<noteq> [] \<and> t \<notin> set before \<union> set ts]" for before
    by (induction ts arbitrary: before) (auto simp: list_ex_iff)
  have "length (should_copy before ts) = length ts" by (induction ts arbitrary: before) auto
  with a snoc show ?case by (auto simp: firsts_snoc zip_append)
qed simp

lemma copy_tokens_join:
  assumes "length (join CHR '','' (if nc then ret # map fst (filter snd ts) else map fst (filter snd ts))) < max_len"
    and "\<not> nc \<longrightarrow> ret = []"
  shows "copy_tokens max_len ret nc ts =
    (join CHR '','' (if nc then ret # map fst (filter snd ts) else map fst (filter snd ts)), nc \<or> filter snd ts \<noteq> [])"
  using assms
proof (induction max_len ret nc ts rule: copy_tokens.induct)
  case (2 max_len ret nc t copy ts)
  let ?ks = "map fst (filter snd ts)"
  show ?case
  proof (cases copy)
    case True
    let ?ret = "(if nc then ret @ '','' else ret) @ t"
    have j: "join CHR '','' (if nc then ret # t # ?ks else t # ?ks) = join CHR '','' (?ret # ?ks)"
      using 2(4) by (cases ?ks) auto
    have l: "length ?ret \<le> length (join CHR '','' (?ret # ?ks))" by (cases ?ks) auto
    moreover have "length (join CHR '','' (?ret # ?ks)) < max_len" using True 2(3) j by (simp split: if_split_asm)
    ultimately have "append_bounded max_len (if nc then append_bounded max_len ret '','' else ret) t = ?ret"
      using 2(4) by (auto simp: append_bounded_def)
    moreover have "copy_tokens max_len ?ret True ts = (join CHR '','' (?ret # ?ks), True)"
      using 2(1) [OF True refl] \<open>length (join CHR '','' (?ret # ?ks)) < max_len\<close> calculation by simp
    ultimately show ?thesis using True j by (simp add: Let_def split: if_split_asm)
  qed (use 2 in auto)
qed (auto split: if_splits)

lemma remove_duplicates_join:
  assumes "\<forall>n. room n"
  shows "ssh_remove_duplicates room (Some s) =
    (let ts = filter (\<lambda>t. t \<noteq> []) (firsts (tokens s)) in if ts = [] then None else Some (join CHR '','' ts))"
proof -
  let ?ks = "filter (\<lambda>t. t \<noteq> []) (firsts (tokens s))"
  have len: "length (join CHR '','' ?ks) \<le> length s"
    using length_join_filter length_join_firsts length_join_tokens by (meson order_trans)
  show ?thesis
  proof (cases "s = []")
    case True
    have "tokens [] = [[]]" by code_simp
    with True show ?thesis by (simp add: ssh_remove_duplicates_def firsts_def)
  next
    case False
    let ?z = "zip (tokens s) (should_copy [] (tokens s))"
    have f: "map fst (filter snd ?z) = ?ks" using flagged_firsts [of "tokens s" "[]"] by simp
    then have "filter snd ?z = [] \<longleftrightarrow> ?ks = []" by (metis map_is_Nil_conv)
    with copy_tokens_join [of False "[]" ?z "length s + 1"] f len False assms show ?thesis
      by (auto simp: ssh_remove_duplicates_def tokenize_room)
  qed
qed

text \<open>C33: \<open>ssh_remove_duplicates\<close> keeps the first of equal names and drops the empty ones, and the result fits
  into the memory of the list: none of the bounded copies cuts a name off. It changes nothing the
  second time.\<close>

theorem ssh_remove_duplicates_firsts:
  assumes "\<forall>n. room n"
  shows "ssh_remove_duplicates room (Some s) =
      (let ts = filter (\<lambda>t. t \<noteq> []) (firsts (tokens s)) in if ts = [] then None else Some (join CHR '','' ts)) \<and>
    ssh_remove_duplicates room (ssh_remove_duplicates room (Some s)) = ssh_remove_duplicates room (Some s)"
proof -
  let ?ks = "\<lambda>s. filter (\<lambda>t. t \<noteq> []) (firsts (tokens s))"
  note main = remove_duplicates_join [OF assms]
  have "ssh_remove_duplicates room (Some (join CHR '','' (?ks s))) = Some (join CHR '','' (?ks s))" if "?ks s \<noteq> []"
  proof -
    have "tokens (join CHR '','' (?ks s)) = ?ks s"
    proof (rule tokens_join)
      show "\<forall>t \<in> set (?ks s). CHR '','' \<notin> set t" by (auto dest: tokens_no_sep)
      show "last (?ks s) \<noteq> []" using last_in_set [OF that] by simp
    qed (rule that)
    moreover have "firsts (?ks s) = ?ks s" by (simp add: firsts_def distinct_remdups_id)
    ultimately show ?thesis using main [of "join CHR '','' (?ks s)"] that by simp
  qed
  with main [of s] show ?thesis by (auto simp: Let_def ssh_remove_duplicates_def)
qed

theorem ssh_remove_duplicates_firsts_witness:
  "ssh_remove_duplicates (\<lambda>_. True) (Some ''b,a,,b,c,a'') = Some ''b,a,c''"
proof -
  have "filter (\<lambda>t. t \<noteq> []) (firsts (tokens ''b,a,,b,c,a'')) = [''b'', ''a'', ''c'']" by code_simp
  with ssh_remove_duplicates_firsts [of "\<lambda>_. True" "''b,a,,b,c,a''"] show ?thesis by (simp add: Let_def)
qed

end
