(* ===== verification/Base64.thy ===== *)
theory Base64
  imports Text BufferSpec
begin

text \<open>
  \<open>base64.c\<close>. A text is its characters as bytes, without the final \<open>NUL\<close>. The decoder writes to
  a buffer of \<open>buffer.c\<close>, which it makes secure.
\<close>

unbundle bit_operations_syntax

section \<open>The alphabet\<close>

definition alphabet :: bytes where
  "alphabet = map of_char ''ABCDEFGHIJKLMNOPQRSTUVWXYZabcdefghijklmnopqrstuvwxyz0123456789+/''"

text \<open>\<open>strchr\<close> finds the final \<open>NUL\<close> of the alphabet, too.\<close>

definition alphabet_index :: "u8 \<Rightarrow> nat option" where
  "alphabet_index c = (let i = length (takeWhile (\<lambda>x. x \<noteq> c) (alphabet @ [0]))
     in if i < length (alphabet @ [0]) then Some i else None)"

section \<open>Encoding\<close>

definition BITS :: "nat \<Rightarrow> u8" where "BITS n = push_bit n 1 - 1"

definition bin_to_base64_block :: "bytes \<Rightarrow> bytes" where
  "bin_to_base64_block source = (let char = (\<lambda>i. alphabet ! unat i) in case source of
     [a] \<Rightarrow> [char (drop_bit 2 a), char (push_bit 4 (a AND BITS 2)), 61, 61]
   | [a, b] \<Rightarrow> [char (drop_bit 2 a), char (drop_bit 4 b OR push_bit 4 (a AND BITS 2)),
       char (push_bit 2 (b AND BITS 4)), 61]
   | [a, b, c] \<Rightarrow> [char (drop_bit 2 a), char (drop_bit 4 b OR push_bit 4 (a AND BITS 2)),
       char (drop_bit 6 c OR push_bit 2 (b AND BITS 4)), char (c AND BITS 6)]
   | _ \<Rightarrow> [])"

definition BASE64_MAX_INPUT_LEN :: int where "BASE64_MAX_INPUT_LEN = 256 * 1024 * 1024"

text \<open>The bytes the encoder allocates.\<close>

definition base64_size :: "nat \<Rightarrow> nat" where
  "base64_size len = 4 * (len + (3 - len mod 3)) div 3 + 1"

fun encode_blocks :: "bytes \<Rightarrow> bytes" where
  "encode_blocks (a # b # c # source) = bin_to_base64_block [a, b, c] @ encode_blocks source"
| "encode_blocks [] = []"
| "encode_blocks source = bin_to_base64_block source"

definition bin_to_base64 :: "allocator \<Rightarrow> bytes \<Rightarrow> bytes option" where
  "bin_to_base64 mem source =
    (if int (length source) > BASE64_MAX_INPUT_LEN then None
     else case mem (base64_size (length source)) of None \<Rightarrow> None
     | Some _ \<Rightarrow> Some (encode_blocks source))"

section \<open>Decoding\<close>

text \<open>The number of equals signs; each is replaced by a \<open>NUL\<close>, so that the text ends at the first.\<close>

definition get_equals :: "bytes \<Rightarrow> nat \<times> bytes" where
  "get_equals s = (length (filter (\<lambda>c. c = 61) s), takeWhile (\<lambda>c. c \<noteq> 61) s)"

definition set_bits :: "nat \<Rightarrow> nat \<Rightarrow> u64 \<Rightarrow> u64" where
  "set_bits n i block = block OR push_bit n (of_nat i AND 63)"

definition to_block4 :: "bytes \<Rightarrow> nat \<Rightarrow> u64 option" where
  "to_block4 source num =
    (if num < 1 then Some 0
     else case alphabet_index (source ! 0) of None \<Rightarrow> None | Some a \<Rightarrow>
          case alphabet_index (source ! 1) of None \<Rightarrow> None | Some b \<Rightarrow>
          let block = set_bits 12 b (set_bits 18 a 0) in
          if num < 2 then Some block
          else case alphabet_index (source ! 2) of None \<Rightarrow> None | Some c \<Rightarrow>
            let block = set_bits 6 c block in
            if num < 3 then Some block
            else map_option (\<lambda>d. set_bits 0 d block) (alphabet_index (source ! 3)))"

definition base64_to_bin_block :: "bytes \<Rightarrow> nat \<Rightarrow> bytes option" where
  "base64_to_bin_block source num = map_option (\<lambda>block.
     [ucast (drop_bit 16 (block AND 0xff0000)), ucast (drop_bit 8 (block AND 0xff00)), ucast (block AND 0xff)])
     (to_block4 source num)"

text \<open>A block is decoded and added to the buffer; \<open>None\<close> is the error exit.\<close>

definition decode_block :: "allocator \<Rightarrow> bytes \<Rightarrow> nat \<Rightarrow> ssh_buffer \<Rightarrow> ssh_buffer option" where
  "decode_block mem source num buffer = (case base64_to_bin_block source num of None \<Rightarrow> None
   | Some block \<Rightarrow> (case ssh_buffer_add_data mem buffer (Some block) (of_nat num) of
       (buffer, rc) \<Rightarrow> if rc < 0 then None else Some buffer))"

function decode_loop :: "allocator \<Rightarrow> nat \<Rightarrow> bytes \<Rightarrow> ssh_buffer \<Rightarrow> ssh_buffer option" where
  "decode_loop mem equals ptr buffer =
    (if length ptr > 4
     then (case decode_block mem ptr 3 buffer of None \<Rightarrow> None
           | Some buffer \<Rightarrow> decode_loop mem equals (drop 4 ptr) buffer)
     else if length ptr = 4 \<and> equals = 0 then decode_block mem ptr 3 buffer
     else if length ptr = 2 \<and> equals = 2 then decode_block mem ptr 1 buffer
     else if length ptr = 3 \<and> equals = 1 then decode_block mem ptr 2 buffer
     else None)"
  by pat_completeness auto
termination
  by (relation "measure (\<lambda>(_, _, ptr, _). length ptr)") auto

declare decode_loop.simps [simp del]

definition base64_to_bin :: "allocator \<Rightarrow> bytes \<Rightarrow> ssh_buffer option" where
  "base64_to_bin mem source = (case mem (length source + 1) of None \<Rightarrow> None
   | Some _ \<Rightarrow> (case get_equals source of (equals, ptr) \<Rightarrow>
       if equals > 2 then None
       else (case ssh_buffer_new mem of None \<Rightarrow> None
         | Some buffer \<Rightarrow> decode_loop mem equals ptr (ssh_buffer_set_secure buffer))))"

end
