(* ===== verification/Base64Props.thy ===== *)
theory Base64Props
  imports Base64 RecvProps
begin

text \<open>
  Encoding and decoding in \<open>base64.c\<close>: what is encoded is decoded to itself, and the room the encoder
  reserves is enough.
\<close>

unbundle bit_operations_syntax

section \<open>The groups of six bits\<close>

text \<open>The four indices of a block of three bytes.\<close>

lemma low6:
  assumes "\<And>n. n \<ge> 6 \<Longrightarrow> \<not> bit (x :: u8) n"
  shows "unat x < 64"
proof -
  have "take_bit 6 x = x" using assms by (intro bit_word_eqI) (auto simp: bit_simps, meson not_le)
  then have "unat x = unat (take_bit 6 x)" by simp
  also have "\<dots> = take_bit 6 (unat x)" by (simp add: unsigned_take_bit_eq)
  also have "\<dots> < 2 ^ 6" by (rule take_bit_nat_less_exp)
  finally show ?thesis by simp
qed

lemma BITS_values: "BITS 2 = 3" "BITS 4 = 15" "BITS 6 = 63" by code_simp+

lemma bit_lows: "bit (3 :: u8) n \<longleftrightarrow> n < 2" "bit (15 :: u8) n \<longleftrightarrow> n < 4" "bit (63 :: u8) n \<longleftrightarrow> n < 6" "bit (63 :: u64) n \<longleftrightarrow> n < 6"
  "bit (0xff :: u64) n \<longleftrightarrow> n < 8"
proof -
  have m: "3 = (mask 2 :: u8)" "15 = (mask 4 :: u8)" "63 = (mask 6 :: u8)" "63 = (mask 6 :: u64)" "0xff = (mask 8 :: u64)"
    by (simp_all add: mask_eq_exp_minus_1)
  show "bit (3 :: u8) n \<longleftrightarrow> n < 2" "bit (15 :: u8) n \<longleftrightarrow> n < 4" "bit (63 :: u8) n \<longleftrightarrow> n < 6" "bit (63 :: u64) n \<longleftrightarrow> n < 6"
  "bit (0xff :: u64) n \<longleftrightarrow> n < 8"
    unfolding m by (auto simp: bit_mask_iff)
qed

lemma byte_high: "n \<ge> 8 \<Longrightarrow> \<not> bit (x :: u8) n" using bit_imp_le_length [of x n] by auto

definition index_a :: "u8 \<Rightarrow> u8" where "index_a a = drop_bit 2 a"
definition index_b :: "u8 \<Rightarrow> u8 \<Rightarrow> u8" where "index_b a b = drop_bit 4 b OR push_bit 4 (a AND 3)"
definition index_c :: "u8 \<Rightarrow> u8 \<Rightarrow> u8" where "index_c b c = drop_bit 6 c OR push_bit 2 (b AND 15)"
definition index_d :: "u8 \<Rightarrow> u8" where "index_d c = c AND 63"

lemma bit_index:
  "bit (index_a a) n \<longleftrightarrow> bit a (n + 2)"
  "bit (index_b a b) n \<longleftrightarrow> (if n < 4 then bit b (n + 4) else n < 6 \<and> bit a (n - 4))"
  "bit (index_c b c) n \<longleftrightarrow> (if n < 2 then bit c (n + 6) else n < 6 \<and> bit b (n - 2))"
  "bit (index_d c) n \<longleftrightarrow> n < 6 \<and> bit c n"
  by (auto simp: index_a_def index_b_def index_c_def index_d_def bit_simps bit_lows add.commute not_less byte_high simp del: bit_numeral_word_iff push_bit_and)

lemma index_less: "unat (index_a a) < 64" "unat (index_b a b) < 64" "unat (index_c b c) < 64" "unat (index_d c) < 64"
  by (rule low6; auto simp: bit_index byte_high)+

lemma block_bytes:
  assumes "w = ((push_bit 18 (ucast (index_a a) AND 63) OR push_bit 12 (ucast (index_b a b) AND 63)) OR push_bit 6 (ucast (index_c b c) AND 63)) OR (ucast (index_d c) AND 63 :: u64)"
  shows "ucast (drop_bit 16 (w AND 0xff0000)) = a" "ucast (drop_bit 8 (w AND 0xff00)) = b" "ucast (w AND 0xff) = c"
proof -
  have m: "0xff0000 = (push_bit 16 0xff :: u64)" "0xff00 = (push_bit 8 0xff :: u64)" by simp_all
  have up: "Suc (Suc (n - 2)) = n" if "2 \<le> n" for n using that by simp
  have "bit (ucast (drop_bit 16 (w AND push_bit 16 0xff)) :: u8) n = bit a n" if "n < 8" for n
    using that unfolding assms
    by (auto simp: bit_simps bit_lows bit_index byte_high not_less up simp del: bit_numeral_word_iff push_bit_numeral)
  then show "ucast (drop_bit 16 (w AND 0xff0000)) = a" unfolding m by (intro bit_word_eqI) simp
  have "bit (ucast (drop_bit 8 (w AND push_bit 8 0xff)) :: u8) n = bit b n" if "n < 8" for n
    using that unfolding assms
    by (auto simp: bit_simps bit_lows bit_index byte_high not_less up simp del: bit_numeral_word_iff push_bit_numeral)
  then show "ucast (drop_bit 8 (w AND 0xff00)) = b" unfolding m by (intro bit_word_eqI) simp
  have "bit (ucast (w AND 0xff) :: u8) n = bit c n" if "n < 8" for n
    using that unfolding assms
    by (auto simp: bit_simps bit_lows bit_index byte_high not_less up simp del: bit_numeral_word_iff push_bit_numeral)
  then show "ucast (w AND 0xff) = c" by (intro bit_word_eqI) simp
qed

section \<open>The characters\<close>

lemma alphabet_values: "alphabet =
   [65, 66, 67, 68, 69, 70, 71, 72, 73, 74, 75, 76, 77, 78, 79, 80, 81, 82, 83, 84, 85, 86, 87, 88,
    89, 90, 97, 98, 99, 100, 101, 102, 103, 104, 105, 106, 107, 108, 109, 110, 111, 112, 113, 114,
    115, 116, 117, 118, 119, 120, 121, 122, 48, 49, 50, 51, 52, 53, 54, 55, 56, 57, 43, 47]"
  by (simp add: alphabet_def)

lemma alphabet_distinct: "length alphabet = 64" "distinct alphabet" "61 \<notin> set alphabet"
  by (simp_all add: alphabet_values)

lemma takeWhile_nth: "distinct xs \<Longrightarrow> i < length xs \<Longrightarrow> length (takeWhile (\<lambda>x. x \<noteq> xs ! i) (xs @ ys)) = i"
proof (induction xs arbitrary: i)
  case (Cons x xs)
  then show ?case by (cases i) auto
qed simp

lemma alphabet_nth:
  assumes "i < 64"
  shows "alphabet_index (alphabet ! i) = Some i" and "alphabet ! i \<noteq> 61"
proof -
  show "alphabet_index (alphabet ! i) = Some i"
    using takeWhile_nth [OF alphabet_distinct(2), of i "[0]"] alphabet_distinct(1) assms
    by (simp add: alphabet_index_def Let_def)
  show "alphabet ! i \<noteq> 61" using alphabet_distinct(1,3) nth_mem [of i alphabet] assms by metis
qed

definition sextet :: "u8 \<Rightarrow> u8" where "sextet i = alphabet ! unat i"

lemma blocks:
  "bin_to_base64_block [a, b, c] = [sextet (index_a a), sextet (index_b a b), sextet (index_c b c), sextet (index_d c)]"
  "bin_to_base64_block [a, b] = [sextet (index_a a), sextet (index_b a b), sextet (index_c b 0), 61]"
  "bin_to_base64_block [a] = [sextet (index_a a), sextet (index_b a 0), 61, 61]"
  by (simp_all add: bin_to_base64_block_def sextet_def index_a_def index_b_def index_c_def index_d_def BITS_values)

lemma sextet_index:
  "alphabet_index (sextet (index_a a)) = Some (unat (index_a a))" "alphabet_index (sextet (index_b a b)) = Some (unat (index_b a b))"
  "alphabet_index (sextet (index_c b c)) = Some (unat (index_c b c))" "alphabet_index (sextet (index_d c)) = Some (unat (index_d c))"
  by (simp_all add: sextet_def alphabet_nth index_less)

lemma sextet_no_pad:
  "sextet (index_a a) \<noteq> 61" "sextet (index_b a b) \<noteq> 61" "sextet (index_c b c) \<noteq> 61" "sextet (index_d c) \<noteq> 61"
  by (simp_all add: sextet_def alphabet_nth index_less)

lemma decode_blocks:
  "base64_to_bin_block (sextet (index_a a) # sextet (index_b a b) # sextet (index_c b c) # sextet (index_d c) # rest) 3 = Some [a, b, c]"
  "base64_to_bin_block (sextet (index_a a) # sextet (index_b a b) # sextet (index_c b 0) # rest) 2 = Some [a, b, 0]"
  "base64_to_bin_block (sextet (index_a a) # sextet (index_b a 0) # rest) 1 = Some [a, 0, 0]"
proof -
  have u: "(of_nat (unat x) :: u64) = ucast x" for x :: u8 by simp
  have z: "index_c 0 0 = 0" "index_d 0 = 0" by (simp_all add: index_c_def index_d_def)
  show "base64_to_bin_block (sextet (index_a a) # sextet (index_b a b) # sextet (index_c b c) # sextet (index_d c) # rest) 3 = Some [a, b, c]"
    using block_bytes [OF refl, of a b c]
    by (simp add: base64_to_bin_block_def to_block4_def set_bits_def sextet_index u Let_def)
  show "base64_to_bin_block (sextet (index_a a) # sextet (index_b a b) # sextet (index_c b 0) # rest) 2 = Some [a, b, 0]"
    using block_bytes [OF refl, of a b 0]
    by (simp add: base64_to_bin_block_def to_block4_def set_bits_def sextet_index u Let_def z)
  show "base64_to_bin_block (sextet (index_a a) # sextet (index_b a 0) # rest) 1 = Some [a, 0, 0]"
    using block_bytes [OF refl, of a 0 0]
    by (simp add: base64_to_bin_block_def to_block4_def set_bits_def sextet_index u Let_def z)
qed

section \<open>Round trip\<close>

lemmas encode_induct = encode_blocks.induct [case_names block none one two]

text \<open>A text of the encoder is its characters and at most two equals signs.\<close>

lemma encoded_shape:
  "\<exists>body. encode_blocks source = body @ replicate ((3 - length source mod 3) mod 3) 61 \<and> 61 \<notin> set body \<and>
    (source \<noteq> [] \<longrightarrow> body \<noteq> [])"
proof (induction source rule: encode_induct)
  case (block a b c source)
  then obtain body where "encode_blocks source = body @ replicate ((3 - length source mod 3) mod 3) 61" "61 \<notin> set body"
    by blast
  moreover have "length (a # b # c # source) mod 3 = length source mod 3" by simp
  ultimately show ?case
    using sextet_no_pad
    by (intro exI [of _ "bin_to_base64_block [a, b, c] @ body"]) (auto simp: blocks simp del: list.size(4))
next
  case (one a)
  show ?case using sextet_no_pad(1) [of a] sextet_no_pad(2) [of a 0]
    by (intro exI [of _ "[sextet (index_a a), sextet (index_b a 0)]"]) (auto simp: blocks numeral_2_eq_2)
next
  case (two a b)
  show ?case using sextet_no_pad(1) [of a] sextet_no_pad(2) [of a b] sextet_no_pad(3) [of b 0]
    by (intro exI [of _ "[sextet (index_a a), sextet (index_b a b), sextet (index_c b 0)]"]) (auto simp: blocks)
qed simp

context allocator
begin

lemma decode_block_adds:
  assumes "base64_to_bin_block s num = Some block" and "num \<le> length block" and "length block < 16"
    and "buffer_inv b" and "\<forall>n \<le> 0x10000000. mem n \<noteq> None" and "length (contents b) + num < 0x10000000"
  obtains b' where "decode_block mem s num b = Some b'" and "buffer_inv b'" and "contents b' = contents b @ take num block"
    and "buf_secure b' = buf_secure b"
proof -
  have u: "unat (of_nat num :: u32) = num" using assms(2,3) by (intro unat_of_nat32) simp
  have live: "snd (ssh_buffer_add_data mem b (Some block) (of_nat num)) = 0"
    by (rule add_data_live [OF assms(5,4)]) (use assms(6) u in simp)
  have "appends b (take num block) (ssh_buffer_add_data mem b (Some block) (of_nat num))"
    using add_data_appends [OF assms(4), of "of_nat num" block] u assms(2) by simp
  then show thesis
    using live assms(1) by (cases rule: appends_cases) (auto intro!: that simp: decode_block_def)
qed

lemma decode_encoded:
  assumes "encode_blocks source = body @ replicate ((3 - length source mod 3) mod 3) 61" and "61 \<notin> set body" and "source \<noteq> []"
    and "buffer_inv b" and "\<forall>n \<le> 0x10000000. mem n \<noteq> None" and "length (contents b) + length source < 0x10000000"
  shows "\<exists>b'. decode_loop mem ((3 - length source mod 3) mod 3) body b = Some b' \<and> buffer_inv b' \<and>
    contents b' = contents b @ source \<and> buf_secure b' = buf_secure b"
  using assms
proof (induction source arbitrary: body b rule: encode_induct)
  case (block x y z source)
  have m: "length (x # y # z # source) mod 3 = length source mod 3" by simp
  obtain rest where rest: "encode_blocks source = rest @ replicate ((3 - length source mod 3) mod 3) 61" "61 \<notin> set rest"
    "source \<noteq> [] \<longrightarrow> rest \<noteq> []" using encoded_shape by blast
  let ?blk = "[sextet (index_a x), sextet (index_b x y), sextet (index_c y z), sextet (index_d z)]"
  have body: "body = ?blk @ rest" using block(2) rest(1) m by (simp add: blocks del: list.size(4))
  from decode_blocks(1) [of x y z rest] body have d: "base64_to_bin_block body 3 = Some [x, y, z]" by simp
  obtain b' where b': "decode_block mem body 3 b = Some b'" "buffer_inv b'" "contents b' = contents b @ [x, y, z]"
    "buf_secure b' = buf_secure b"
    by (rule decode_block_adds [OF d _ _ block(5,6)]) (use block(7) in auto)
  show ?case
  proof (cases "source = []")
    case True
    with rest(1) have "rest = []" by simp
    with True b' body show ?thesis by (subst decode_loop.simps) simp
  next
    case False
    with block(1) [OF rest(1,2) False b'(2) block(6)] block(7) b' obtain b2 where
      "decode_loop mem ((3 - length source mod 3) mod 3) rest b' = Some b2 \<and> buffer_inv b2 \<and>
        contents b2 = contents b' @ source \<and> buf_secure b2 = buf_secure b'" by auto
    moreover have "decode_loop mem k body b = decode_loop mem k rest b'" for k
      using body b'(1) rest(3) False by (subst decode_loop.simps) simp
    ultimately show ?thesis using b'(3,4) m by (simp del: list.size(4))
  qed
next
  case (one x)
  have body: "body = [sextet (index_a x), sextet (index_b x 0)]" using one(1) by (simp add: blocks numeral_2_eq_2)
  with decode_blocks(3) [of x "[]"] have d: "base64_to_bin_block body 1 = Some [x, 0, 0]" by simp
  obtain b' where "decode_block mem body 1 b = Some b'" "buffer_inv b'" "contents b' = contents b @ take 1 [x, 0, 0]"
    "buf_secure b' = buf_secure b"
    by (rule decode_block_adds [OF d _ _ one(4,5)]) (use one(6) in auto)
  with body show ?case by (subst decode_loop.simps) simp
next
  case (two x y)
  have body: "body = [sextet (index_a x), sextet (index_b x y), sextet (index_c y 0)]" using two(1) by (simp add: blocks)
  with decode_blocks(2) [of x y "[]"] have d: "base64_to_bin_block body 2 = Some [x, y, 0]" by simp
  obtain b' where "decode_block mem body 2 b = Some b'" "buffer_inv b'" "contents b' = contents b @ take 2 [x, y, 0]"
    "buf_secure b' = buf_secure b"
    by (rule decode_block_adds [OF d _ _ two(4,5)]) (use two(6) in auto)
  with body show ?case by (subst decode_loop.simps) simp
qed simp

end

lemma length_encode: "length (encode_blocks source) = 4 * ((length source + 2) div 3)"
proof (induction source rule: encode_induct)
  case (block a b c source)
  have "length (a # b # c # source) + 2 = 3 + (length source + 2)" by simp
  then have "(length (a # b # c # source) + 2) div 3 = Suc ((length source + 2) div 3)" by simp
  moreover have "length (encode_blocks (a # b # c # source)) = 4 + length (encode_blocks source)" by (simp add: blocks)
  ultimately show ?case using block by presburger
qed (simp_all add: blocks)

text \<open>C27: what \<open>bin_to_base64\<close> writes fits, with its \<open>NUL\<close>, into what it allocates, and \<open>base64_to_bin\<close> gives back
  the bytes encoded, in a secure buffer, unless there are none: the empty text is refused.\<close>

theorem base64_roundtrip:
  assumes "allocator mem" and "\<forall>n. mem n \<noteq> None" and "source \<noteq> []" and "length source < 0x10000000"
  shows "\<exists>text b. bin_to_base64 mem source = Some text \<and> length text + 1 \<le> base64_size (length source) \<and>
    base64_to_bin mem text = Some b \<and> contents b = source \<and> buf_secure b"
proof -
  let ?k = "(3 - length source mod 3) mod 3"
  obtain body where body: "encode_blocks source = body @ replicate ?k 61" "61 \<notin> set body" using encoded_shape by blast
  obtain b0 where b0: "ssh_buffer_new mem = Some b0" "buffer_inv b0" "contents b0 = []"
    by (rule allocator.new_cases [OF assms(1)]) (use assms(2) new_live in auto)
  let ?b = "ssh_buffer_set_secure b0"
  have b: "buffer_inv ?b" "contents ?b = []" "buf_secure ?b"
    using b0 by (simp_all add: ssh_buffer_set_secure_def buffer_inv_def contents_def)
  from allocator.decode_encoded [OF assms(1) body assms(3) b(1)] assms(2,4) b obtain b' where
    d: "decode_loop mem ?k body ?b = Some b'" "contents b' = source" "buf_secure b'" by auto
  have "takeWhile (\<lambda>c. c \<noteq> 61) body = body" using body(2) by (auto simp: takeWhile_eq_all_conv)
  then have e: "get_equals (encode_blocks source) = (?k, body)"
    using body by (cases ?k) (auto simp: get_equals_def takeWhile_append filter_empty_conv)
  have "length (encode_blocks source) + 1 \<le> base64_size (length source)"
    unfolding length_encode base64_size_def by presburger
  moreover have "bin_to_base64 mem source = Some (encode_blocks source)"
    using assms(2) spec [OF assms(2), of "base64_size (length source)"] assms(4)
    by (auto simp: bin_to_base64_def BASE64_MAX_INPUT_LEN_def split: option.split)
  moreover have "base64_to_bin mem (encode_blocks source) = Some b'"
    using spec [OF assms(2), of "length (encode_blocks source) + 1"] e b0(1) d(1)
    by (auto simp: base64_to_bin_def split: option.split)
  ultimately show ?thesis using d by blast
qed

theorem base64_roundtrip_witness:
  "\<exists>text b. bin_to_base64 endless_mem [104, 105, 33, 10] = Some text \<and> length text \<le> 8 \<and>
    base64_to_bin endless_mem text = Some b \<and> contents b = [104, 105, 33, 10] \<and> buf_secure b"
proof -
  have m: "\<forall>n. endless_mem n \<noteq> None" by (simp add: endless_mem_def)
  from base64_roundtrip [OF endless_mem.allocator_axioms m, of "[104, 105, 33, 10]"] show ?thesis
    by (auto simp: base64_size_def)
qed

end
