(* ===== verification/KexNames.thy ===== *)
theory KexNames
  imports Match Tokens Session
begin

text \<open>
  The part of \<open>kex.c\<close> that works on lists of algorithm names: the tables of the build (its
  \<open>config.h\<close>: OpenSSL, elliptic curves, ML-KEM 1024, zlib, group exchange, without blowfish and without the
  insecure \<open>none\<close>), the functions the options use, the guess of the first packet and the choice of
  the methods. \<open>fips\<close> is the mode of the crypto library, \<open>room\<close> the memory of the C library.
\<close>

section \<open>Tables\<close>

definition SSH_KEX_METHODS :: nat where "SSH_KEX_METHODS = 10"

abbreviation (input) SSH_KEX :: nat where "SSH_KEX \<equiv> 0"
abbreviation (input) SSH_HOSTKEYS :: nat where "SSH_HOSTKEYS \<equiv> 1"
abbreviation (input) SSH_MAC_C_S :: nat where "SSH_MAC_C_S \<equiv> 4"
abbreviation (input) SSH_MAC_S_C :: nat where "SSH_MAC_S_C \<equiv> 5"
abbreviation (input) SSH_LANG_C_S :: nat where "SSH_LANG_C_S \<equiv> 8"
abbreviation (input) SSH_LANG_S_C :: nat where "SSH_LANG_S_C \<equiv> 9"

definition AES :: string where
  "AES = ''aes256-gcm@openssh.com,aes128-gcm@openssh.com,'' @ ''aes256-ctr,aes192-ctr,aes128-ctr''"
definition AES_CBC :: string where "AES_CBC = '',aes256-cbc,aes192-cbc,aes128-cbc''"
definition DES_SUPPORTED :: string where "DES_SUPPORTED = '',3des-cbc''"
definition ZLIB :: string where "ZLIB = ''none,zlib@openssh.com,zlib''"
definition ZLIB_DEFAULT :: string where "ZLIB_DEFAULT = ''none,zlib@openssh.com''"
definition CURVE25519 :: string where "CURVE25519 = ''curve25519-sha256,curve25519-sha256@libssh.org,''"
definition SNTRUP761X25519 :: string where
  "SNTRUP761X25519 = ''sntrup761x25519-sha512,sntrup761x25519-sha512@openssh.com,''"
definition HYBRID_MLKEM :: string where
  "HYBRID_MLKEM = ''mlkem768x25519-sha256,'' @ ''mlkem768nistp256-sha256,'' @ ''mlkem1024nistp384-sha384,''"
definition ECDH :: string where "ECDH = ''ecdh-sha2-nistp256,ecdh-sha2-nistp384,ecdh-sha2-nistp521,''"
definition EC_HOSTKEYS :: string where
  "EC_HOSTKEYS = ''ecdsa-sha2-nistp521,'' @ ''ecdsa-sha2-nistp384,'' @ ''ecdsa-sha2-nistp256,''"
definition EC_SK_HOSTKEYS :: string where "EC_SK_HOSTKEYS = ''sk-ecdsa-sha2-nistp256@openssh.com,''"
definition EC_FIPS_PUBLIC_KEY_ALGOS :: string where
  "EC_FIPS_PUBLIC_KEY_ALGOS = ''ecdsa-sha2-nistp521-cert-v01@openssh.com,'' @
     ''ecdsa-sha2-nistp384-cert-v01@openssh.com,'' @ ''ecdsa-sha2-nistp256-cert-v01@openssh.com,''"
definition EC_PUBLIC_KEY_ALGORITHMS :: string where
  "EC_PUBLIC_KEY_ALGORITHMS = EC_FIPS_PUBLIC_KEY_ALGOS @ ''sk-ecdsa-sha2-nistp256-cert-v01@openssh.com,''"
definition HOSTKEYS :: string where
  "HOSTKEYS = ''ssh-ed25519,'' @ EC_HOSTKEYS @ ''sk-ssh-ed25519@openssh.com,'' @ EC_SK_HOSTKEYS @
     ''rsa-sha2-512,'' @ ''rsa-sha2-256,'' @ ''ssh-rsa''"
definition DEFAULT_HOSTKEYS :: string where
  "DEFAULT_HOSTKEYS = ''ssh-ed25519,'' @ EC_HOSTKEYS @ ''sk-ssh-ed25519@openssh.com,'' @ EC_SK_HOSTKEYS @
     ''rsa-sha2-512,'' @ ''rsa-sha2-256''"
definition PUBLIC_KEY_ALGORITHMS :: string where
  "PUBLIC_KEY_ALGORITHMS = ''ssh-ed25519-cert-v01@openssh.com,'' @ ''sk-ssh-ed25519-cert-v01@openssh.com,'' @
     EC_PUBLIC_KEY_ALGORITHMS @ ''rsa-sha2-512-cert-v01@openssh.com,'' @ ''rsa-sha2-256-cert-v01@openssh.com,'' @
     ''ssh-rsa-cert-v01@openssh.com,'' @ HOSTKEYS"
definition DEFAULT_PUBLIC_KEY_ALGORITHMS :: string where
  "DEFAULT_PUBLIC_KEY_ALGORITHMS = ''ssh-ed25519-cert-v01@openssh.com,'' @ EC_PUBLIC_KEY_ALGORITHMS @
     ''rsa-sha2-512-cert-v01@openssh.com,'' @ ''rsa-sha2-256-cert-v01@openssh.com,'' @ DEFAULT_HOSTKEYS"
definition GEX_SHA256 :: string where "GEX_SHA256 = ''diffie-hellman-group-exchange-sha256,''"
definition GEX_SHA1 :: string where "GEX_SHA1 = ''diffie-hellman-group-exchange-sha1,''"
definition CHACHA20 :: string where "CHACHA20 = ''chacha20-poly1305@openssh.com,''"
definition DEFAULT_KEY_EXCHANGE :: string where
  "DEFAULT_KEY_EXCHANGE = HYBRID_MLKEM @ SNTRUP761X25519 @ CURVE25519 @ ECDH @
     ''diffie-hellman-group18-sha512,diffie-hellman-group16-sha512,'' @ GEX_SHA256 @ ''diffie-hellman-group14-sha256''"
definition KEY_EXCHANGE_SUPPORTED :: string where
  "KEY_EXCHANGE_SUPPORTED = GEX_SHA1 @ DEFAULT_KEY_EXCHANGE @
     '',diffie-hellman-group14-sha1,diffie-hellman-group1-sha1''"

definition KEX_EXTENSION_CLIENT :: string where "KEX_EXTENSION_CLIENT = ''ext-info-c''"
definition KEX_STRICT_CLIENT :: string where "KEX_STRICT_CLIENT = ''kex-strict-c-v00@openssh.com''"
definition KEX_STRICT_SERVER :: string where "KEX_STRICT_SERVER = ''kex-strict-s-v00@openssh.com''"

definition FIPS_ALLOWED_CIPHERS :: string where
  "FIPS_ALLOWED_CIPHERS = ''aes256-gcm@openssh.com,'' @ ''aes256-ctr,'' @ ''aes256-cbc,'' @
     ''aes128-gcm@openssh.com,'' @ ''aes128-ctr,'' @ ''aes128-cbc''"
definition FIPS_ALLOWED_HOSTKEYS :: string where
  "FIPS_ALLOWED_HOSTKEYS = EC_HOSTKEYS @ ''rsa-sha2-512,'' @ ''rsa-sha2-256''"
definition FIPS_ALLOWED_PUBLIC_KEY_ALGORITHMS :: string where
  "FIPS_ALLOWED_PUBLIC_KEY_ALGORITHMS = EC_FIPS_PUBLIC_KEY_ALGOS @ ''rsa-sha2-512-cert-v01@openssh.com,'' @
     ''rsa-sha2-256-cert-v01@openssh.com,'' @ FIPS_ALLOWED_HOSTKEYS"
definition FIPS_ALLOWED_KEX :: string where
  "FIPS_ALLOWED_KEX = ''ecdh-sha2-nistp256,'' @ ''ecdh-sha2-nistp384,'' @ ''ecdh-sha2-nistp521,'' @
     ''diffie-hellman-group-exchange-sha256,'' @ ''diffie-hellman-group14-sha256,'' @
     ''diffie-hellman-group16-sha512,'' @ ''diffie-hellman-group18-sha512''"
definition FIPS_ALLOWED_MACS :: string where
  "FIPS_ALLOWED_MACS = ''hmac-sha2-256-etm@openssh.com,'' @ ''hmac-sha1-etm@openssh.com,'' @
     ''hmac-sha2-512-etm@openssh.com,'' @ ''hmac-sha2-256,'' @ ''hmac-sha1,'' @ ''hmac-sha2-512''"

definition fips_methods :: "string list" where
  "fips_methods = [FIPS_ALLOWED_KEX, FIPS_ALLOWED_PUBLIC_KEY_ALGORITHMS, FIPS_ALLOWED_CIPHERS, FIPS_ALLOWED_CIPHERS,
     FIPS_ALLOWED_MACS, FIPS_ALLOWED_MACS, ZLIB_DEFAULT, ZLIB_DEFAULT, [], []]"

definition default_methods :: "string list" where
  "default_methods = (let macs = ''hmac-sha2-256-etm@openssh.com,hmac-sha2-512-etm@openssh.com,hmac-sha2-256,hmac-sha2-512''
     in [DEFAULT_KEY_EXCHANGE, DEFAULT_PUBLIC_KEY_ALGORITHMS, CHACHA20 @ AES, CHACHA20 @ AES, macs, macs,
         ZLIB_DEFAULT, ZLIB_DEFAULT, [], []])"

definition supported_methods :: "string list" where
  "supported_methods = (let ciphers = CHACHA20 @ AES @ AES_CBC @ DES_SUPPORTED;
       macs = ''hmac-sha2-256-etm@openssh.com,hmac-sha2-512-etm@openssh.com,hmac-sha1-etm@openssh.com,hmac-sha2-256,hmac-sha2-512,hmac-sha1''
     in [KEY_EXCHANGE_SUPPORTED, PUBLIC_KEY_ALGORITHMS, ciphers, ciphers, macs, macs, ZLIB, ZLIB, [], []])"

section \<open>The lists of the options\<close>

definition ssh_kex_get_default_methods :: "nat \<Rightarrow> string option" where
  "ssh_kex_get_default_methods type = (if type \<ge> SSH_KEX_METHODS then None else Some (default_methods ! type))"

definition ssh_kex_get_supported_method :: "nat \<Rightarrow> string option" where
  "ssh_kex_get_supported_method type = (if type \<ge> SSH_KEX_METHODS then None else Some (supported_methods ! type))"

definition ssh_kex_get_fips_methods :: "nat \<Rightarrow> string option" where
  "ssh_kex_get_fips_methods type = (if type \<ge> SSH_KEX_METHODS then None else Some (fips_methods ! type))"

definition ssh_get_supported_methods :: "bool \<Rightarrow> nat \<Rightarrow> string option" where
  "ssh_get_supported_methods fips type =
     (if fips then ssh_kex_get_fips_methods type else ssh_kex_get_supported_method type)"

definition ssh_keep_known_algos :: "(nat \<Rightarrow> bool) \<Rightarrow> nat \<Rightarrow> string option \<Rightarrow> string option option" where
  "ssh_keep_known_algos room algo list = (if algo > SSH_LANG_S_C then Some None
     else ssh_find_all_matching room (Some (supported_methods ! algo)) list)"

definition ssh_keep_fips_algos :: "(nat \<Rightarrow> bool) \<Rightarrow> nat \<Rightarrow> string option \<Rightarrow> string option option" where
  "ssh_keep_fips_algos room algo list = (if algo > SSH_LANG_S_C then Some None
     else ssh_find_all_matching room (Some (fips_methods ! algo)) list)"

definition ssh_add_to_default_algos :: "(nat \<Rightarrow> bool) \<Rightarrow> bool \<Rightarrow> nat \<Rightarrow> string option \<Rightarrow> string option option" where
  "ssh_add_to_default_algos room fips algo list = (if algo > SSH_LANG_S_C \<or> list = None \<or> list = Some [] then Some None
     else if fips
     then ssh_find_all_matching room (Some (fips_methods ! algo))
            (ssh_append_without_duplicates room (Some (fips_methods ! algo)) list)
     else ssh_find_all_matching room (Some (supported_methods ! algo))
            (ssh_append_without_duplicates room (Some (default_methods ! algo)) list))"

definition ssh_remove_from_default_algos :: "(nat \<Rightarrow> bool) \<Rightarrow> bool \<Rightarrow> nat \<Rightarrow> string option \<Rightarrow> string option option" where
  "ssh_remove_from_default_algos room fips algo list = (if algo > SSH_LANG_S_C then Some None
     else let methods = (if fips then fips_methods ! algo else default_methods ! algo) in
       if list = None \<or> list = Some [] then Some (strdup room methods)
       else ssh_remove_all_matching room (Some methods) list)"

definition ssh_prefix_default_algos :: "(nat \<Rightarrow> bool) \<Rightarrow> bool \<Rightarrow> nat \<Rightarrow> string option \<Rightarrow> string option option" where
  "ssh_prefix_default_algos room fips algo list = (if algo > SSH_LANG_S_C \<or> list = None \<or> list = Some [] then Some None
     else if fips
     then ssh_find_all_matching room (Some (fips_methods ! algo))
            (ssh_prefix_without_duplicates room (Some (fips_methods ! algo)) list)
     else ssh_find_all_matching room (Some (supported_methods ! algo))
            (ssh_prefix_without_duplicates room (Some (default_methods ! algo)) list))"

text \<open>\<open>known\<close> is what the known hosts files give for the host: a parameter.\<close>

definition ssh_client_select_hostkeys :: "(nat \<Rightarrow> bool) \<Rightarrow> bool \<Rightarrow> string option \<Rightarrow> string option \<Rightarrow> string option option" where
  "ssh_client_select_hostkeys room fips wanted known =
    (let wanted = (case wanted of Some w \<Rightarrow> Some w
        | None \<Rightarrow> if fips then ssh_kex_get_fips_methods SSH_HOSTKEYS else ssh_kex_get_default_methods SSH_HOSTKEYS)
     in case ssh_find_all_matching room (Some HOSTKEYS) wanted of
        None \<Rightarrow> None
      | Some None \<Rightarrow> Some None
      | Some wanted_without_certs \<Rightarrow>
          if known = None then Some wanted_without_certs
          else (case ssh_find_all_matching room known wanted_without_certs of
             None \<Rightarrow> None
           | Some None \<Rightarrow> Some wanted_without_certs
           | Some known_hosts_ordered \<Rightarrow>
               (case ssh_append_without_duplicates room known_hosts_ordered wanted_without_certs of
                  None \<Rightarrow> Some None
                | new_hostkeys \<Rightarrow>
                    if fips then ssh_keep_fips_algos room SSH_HOSTKEYS new_hostkeys else Some new_hostkeys)))"

section \<open>Names\<close>

text \<open>The result is true if the guess of the first packet is wrong.\<close>

definition cmp_first_kex_algo :: "string option \<Rightarrow> string option \<Rightarrow> bool" where
  "cmp_first_kex_algo client_str server_str = (case (client_str, server_str) of
     (Some client, Some server) \<Rightarrow>
       let client_kex_len = length (takeWhile (\<lambda>c. c \<noteq> CHR '','') client);
           server_kex_len = length (takeWhile (\<lambda>c. c \<noteq> CHR '','') server)
       in if client_kex_len \<noteq> server_kex_len then True
          else take client_kex_len client \<noteq> take client_kex_len server
   | _ \<Rightarrow> True)"

definition ssh_find_aead_hmac :: "string option \<Rightarrow> string option" where
  "ssh_find_aead_hmac cipher =
    (if cipher = None then None
     else if cipher = Some ''chacha20-poly1305@openssh.com'' then Some ''aead-poly1305''
     else if cipher = Some ''aes256-gcm@openssh.com'' then Some ''aead-gcm''
     else if cipher = Some ''aes128-gcm@openssh.com'' then Some ''aead-gcm''
     else None)"

definition starts_with :: "string \<Rightarrow> string \<Rightarrow> bool" where
  "starts_with s p \<longleftrightarrow> take (length p) s = p"

definition kex_select_kex_type :: "string \<Rightarrow> ssh_key_exchange" where
  "kex_select_kex_type kex =
    (if kex = ''diffie-hellman-group1-sha1'' then SSH_KEX_DH_GROUP1_SHA1
     else if starts_with kex ''gss-group14-sha256-'' then SSH_GSS_KEX_DH_GROUP14_SHA256
     else if starts_with kex ''gss-group16-sha512-'' then SSH_GSS_KEX_DH_GROUP16_SHA512
     else if starts_with kex ''gss-nistp256-sha256-'' then SSH_GSS_KEX_ECDH_NISTP256_SHA256
     else if starts_with kex ''gss-curve25519-sha256-'' then SSH_GSS_KEX_CURVE25519_SHA256
     else if kex = ''diffie-hellman-group14-sha1'' then SSH_KEX_DH_GROUP14_SHA1
     else if kex = ''diffie-hellman-group14-sha256'' then SSH_KEX_DH_GROUP14_SHA256
     else if kex = ''diffie-hellman-group16-sha512'' then SSH_KEX_DH_GROUP16_SHA512
     else if kex = ''diffie-hellman-group18-sha512'' then SSH_KEX_DH_GROUP18_SHA512
     else if kex = ''diffie-hellman-group-exchange-sha1'' then SSH_KEX_DH_GEX_SHA1
     else if kex = ''diffie-hellman-group-exchange-sha256'' then SSH_KEX_DH_GEX_SHA256
     else if kex = ''ecdh-sha2-nistp256'' then SSH_KEX_ECDH_SHA2_NISTP256
     else if kex = ''ecdh-sha2-nistp384'' then SSH_KEX_ECDH_SHA2_NISTP384
     else if kex = ''ecdh-sha2-nistp521'' then SSH_KEX_ECDH_SHA2_NISTP521
     else if kex = ''curve25519-sha256@libssh.org'' then SSH_KEX_CURVE25519_SHA256_LIBSSH_ORG
     else if kex = ''curve25519-sha256'' then SSH_KEX_CURVE25519_SHA256
     else if kex = ''sntrup761x25519-sha512@openssh.com'' then SSH_KEX_SNTRUP761X25519_SHA512_OPENSSH_COM
     else if kex = ''sntrup761x25519-sha512'' then SSH_KEX_SNTRUP761X25519_SHA512
     else if kex = ''mlkem768x25519-sha256'' then SSH_KEX_MLKEM768X25519_SHA256
     else if kex = ''mlkem768nistp256-sha256'' then SSH_KEX_MLKEM768NISTP256_SHA256
     else if kex = ''mlkem1024nistp384-sha384'' then SSH_KEX_MLKEM1024NISTP384_SHA384
     else SSH_KEX_UNSET)"

section \<open>The choice of the methods\<close>

text \<open>The text before the first occurrence of a pattern, as \<open>strstr\<close> and a \<open>NUL\<close> leave it.\<close>

fun cut_at :: "string \<Rightarrow> string \<Rightarrow> string" where
  "cut_at p [] = []"
| "cut_at p (c # s) = (if starts_with (c # s) p then [] else c # cut_at p s)"

definition without_extensions :: "bool \<Rightarrow> string \<Rightarrow> string option list \<Rightarrow> string option list option" where
  "without_extensions role extension methods = (if \<not> role then Some methods
     else case methods ! SSH_KEX of None \<Rightarrow> None
     | Some kex \<Rightarrow> Some (methods[SSH_KEX := Some (cut_at (CHR '','' # extension) kex)]))"

definition select_method :: "(nat \<Rightarrow> bool) \<Rightarrow> string option list \<Rightarrow> string option list \<Rightarrow> string option list \<Rightarrow> nat \<Rightarrow>
    string option" where
  "select_method room server client chosen i =
    (let m = ssh_find_matching room (server ! i) (client ! i);
         m = (if i = SSH_MAC_C_S \<or> i = SSH_MAC_S_C
              then (case ssh_find_aead_hmac (chosen ! (i - 2)) of None \<Rightarrow> m | Some h \<Rightarrow> strdup room h) else m)
     in if m = None \<and> i \<ge> SSH_LANG_C_S then strdup room [] else m)"

text \<open>The loop: the methods chosen so far, and whether there was none for one that needs one.\<close>

fun select_methods :: "(nat \<Rightarrow> bool) \<Rightarrow> string option list \<Rightarrow> string option list \<Rightarrow> string option list \<Rightarrow> nat list \<Rightarrow>
    string option list \<times> bool" where
  "select_methods room server client chosen [] = (chosen, True)"
| "select_methods room server client chosen (i # is) =
    (let m = select_method room server client chosen i; chosen = chosen[i := m]
     in if m = None \<and> i < SSH_LANG_C_S then (chosen, False) else select_methods room server client chosen is)"

end
