(* ===== verification/Kex.thy ===== *)
theory Kex
  imports KexNames PackSpec PacketSend
begin

text \<open>
  The exchange of the \<open>KEXINIT\<close> messages (\<open>kex.c\<close>): what a client offers, the message and the bytes that are
  hashed, the handler of the peer's message, and the choice of the methods. A session in a key exchange is
  the session of \<open>Session\<close> with the fields this code uses besides: the two \<open>kex\<close> structures and the chosen
  methods of \<open>next_crypto\<close>, the wanted methods of the options, the hash buffers and the two flags of the guess.

  The environment \<open>kex_env\<close> holds the environment of the packet layer, the crypto library's big
  numbers, the memory of the C library for text, its \<open>FIPS\<close> mode, the names of the known host keys, the
  callbacks a wrong guess registered, the first step of the guessed method and the callback of the connection.
  The build has neither GSSAPI nor the server code. \<open>None\<close> is the crash on a \<open>NULL\<close> pointer.
\<close>

section \<open>State\<close>

record ssh_kex =
  kex_cookie :: bytes
  kex_methods :: "string option list"

record kex_session =
  kx_session :: ssh_session
  kx_client_kex :: ssh_kex
  kx_server_kex :: ssh_kex
  kx_kex_methods :: "string option list"
  kx_wanted_methods :: "string option list"
  kx_in_hashbuf :: "ssh_buffer option"
  kx_out_hashbuf :: "ssh_buffer option"
  kx_send_first_kex_follows :: bool
  kx_first_kex_follows_guess_wrong :: bool

record kex_env =
  kex_packet :: packet_env
  kex_bignum :: "u64 bignum_lib"
  kex_room :: "nat \<Rightarrow> bool"
  kex_fips :: bool
  kex_known :: "string option"
  kex_revert :: "ssh_session \<Rightarrow> ssh_session"
  kex_dh_handshake :: "kex_session \<Rightarrow> kex_session \<times> int"
  kex_connection_callback :: "kex_session \<Rightarrow> kex_session"

definition kx_error :: "kex_session \<Rightarrow> kex_session" where
  "kx_error s = s\<lparr>kx_session := ssh_set_error SSH_FATAL (kx_session s)\<rparr>"

definition put_method :: "nat \<Rightarrow> string option \<Rightarrow> ssh_kex \<Rightarrow> ssh_kex" where
  "put_method i m kex = kex\<lparr>kex_methods := (kex_methods kex)[i := m]\<rparr>"

section \<open>What the client offers\<close>

fun set_client_methods :: "kex_env \<Rightarrow> nat list \<Rightarrow> kex_session \<Rightarrow> (kex_session \<times> int) option" where
  "set_client_methods env [] s = Some (s, SSH_OK)"
| "set_client_methods env (i # is) s =
    (case (if i = SSH_HOSTKEYS
           then ssh_client_select_hostkeys (kex_room env) (kex_fips env) (kx_wanted_methods s ! SSH_HOSTKEYS) (kex_known env)
           else Some (strdup (kex_room env) (case kx_wanted_methods s ! i of Some wanted \<Rightarrow> wanted
                  | None \<Rightarrow> if kex_fips env then fips_methods ! i else default_methods ! i))) of
       None \<Rightarrow> None
     | Some m \<Rightarrow>
         let s = s\<lparr>kx_client_kex := put_method i m (kx_client_kex s)\<rparr>
         in if m = None then Some (kx_error s, SSH_ERROR) else set_client_methods env is s)"

text \<open>The \<open>realloc\<close> that fails leaves the list as it was.\<close>

definition ssh_kex_append_extensions :: "(nat \<Rightarrow> bool) \<Rightarrow> ssh_session \<Rightarrow> ssh_kex \<Rightarrow> (ssh_session \<times> ssh_kex \<times> int) option" where
  "ssh_kex_append_extensions room session pkex = (case kex_methods pkex ! SSH_KEX of
     None \<Rightarrow> None
   | Some kex \<Rightarrow>
       let extensions = (if ses_server session then CHR '','' # KEX_STRICT_SERVER
                         else CHR '','' # KEX_EXTENSION_CLIENT @ CHR '','' # KEX_STRICT_CLIENT);
           kex_len = length kex + length extensions + 1
       in if int kex_len \<ge> 262144 then Some (session, pkex, SSH_ERROR)
          else if \<not> room kex_len then Some (ssh_set_error SSH_FATAL session, pkex, SSH_ERROR)
          else Some (session, put_method SSH_KEX (Some (kex @ extensions)) pkex, SSH_OK))"

definition ssh_set_client_kex :: "kex_env \<Rightarrow> kex_session \<Rightarrow> (kex_session \<times> int) option" where
  "ssh_set_client_kex env s =
    (if ses_next_crypto (kx_session s) = None then None
     else if kex_methods (kx_client_kex s) ! 0 \<noteq> None then Some (s, SSH_OK)
     else case env_random (kex_packet env) (kx_session s) 16 of
       None \<Rightarrow> Some (kx_error s, SSH_ERROR)
     | Some cookie \<Rightarrow>
         (case set_client_methods env [0..<SSH_KEX_METHODS] (s\<lparr>kx_client_kex := (kx_client_kex s)\<lparr>kex_cookie := cookie\<rparr>\<rparr>) of
            None \<Rightarrow> None
          | Some (s, rc) \<Rightarrow>
              if rc \<noteq> SSH_OK then Some (s, rc)
              else if has_flag (ses_flags (kx_session s)) SSH_SESSION_FLAG_AUTHENTICATED then Some (s, SSH_OK)
              else (case ssh_kex_append_extensions (kex_room env) (kx_session s) (kx_client_kex s) of
                 None \<Rightarrow> None
               | Some (session, kex, rc) \<Rightarrow> Some (s\<lparr>kx_session := session, kx_client_kex := kex\<rparr>, rc))))"

section \<open>The choice of the methods\<close>

definition ssh_kex_select_methods :: "kex_env \<Rightarrow> kex_session \<Rightarrow> (kex_session \<times> int) option" where
  "ssh_kex_select_methods env s =
    (let session = kx_session s; server = kx_server_kex s; client = kx_client_kex s in
     case without_extensions (ses_client session) KEX_EXTENSION_CLIENT (kex_methods client) of None \<Rightarrow> None
     | Some client_methods \<Rightarrow>
     case without_extensions (ses_server session) KEX_STRICT_SERVER (kex_methods server) of None \<Rightarrow> None
     | Some server_methods \<Rightarrow>
     case ses_next_crypto session of None \<Rightarrow> None
     | Some crypto \<Rightarrow>
     case select_methods (kex_room env) server_methods client_methods (kx_kex_methods s) [0..<SSH_KEX_METHODS] of
       (chosen, found) \<Rightarrow>
     let s = s\<lparr>kx_client_kex := client\<lparr>kex_methods := client_methods\<rparr>,
               kx_server_kex := server\<lparr>kex_methods := server_methods\<rparr>, kx_kex_methods := chosen\<rparr>
     in if \<not> found then Some (kx_error s, SSH_ERROR)
        else let kex_type = kex_select_kex_type (the (chosen ! SSH_KEX));
                 restart = ses_client session \<and> kx_first_kex_follows_guess_wrong s;
                 session = (if restart then (kex_revert env session)\<lparr>ses_dh_handshake_state := DH_STATE_INIT\<rparr> else session)
             in Some (s\<lparr>kx_session := session\<lparr>ses_next_crypto :=
                          map_option (\<lambda>c. c\<lparr>cry_kex_type := kex_type\<rparr>) (ses_next_crypto session)\<rparr>,
                        kx_first_kex_follows_guess_wrong := (if restart then False else kx_first_kex_follows_guess_wrong s)\<rparr>,
                      SSH_OK))"

section \<open>The bytes that are hashed\<close>

text \<open>The first bytes of a hash buffer: the message number and the cookie. The new buffer replaces the old
  one even where it could not be filled.\<close>

definition hashbuf_add_cookie :: "allocator \<Rightarrow> u32 \<Rightarrow> bytes \<Rightarrow> ssh_buffer option \<times> int" where
  "hashbuf_add_cookie mem needed cookie = (case ssh_buffer_new mem of
     None \<Rightarrow> (None, - 1)
   | Some b \<Rightarrow>
       (case ssh_buffer_allocate_size mem b needed of (b, rc) \<Rightarrow>
        if rc < 0 then (Some (fst (ssh_buffer_reinit mem b)), - 1)
        else case ssh_buffer_add_u8 mem b 20 of (b, rc) \<Rightarrow>
        if rc < 0 then (Some (fst (ssh_buffer_reinit mem b)), - 1)
        else case ssh_buffer_add_data mem b (Some cookie) 16 of (b, rc) \<Rightarrow>
        if rc < 0 then (Some (fst (ssh_buffer_reinit mem b)), - 1) else (Some b, 0)))"

definition ssh_hashbufout_add_cookie :: "kex_env \<Rightarrow> kex_session \<Rightarrow> kex_session \<times> int" where
  "ssh_hashbufout_add_cookie env s =
    (case hashbuf_add_cookie (env_mem (kex_packet env)) 17
            (kex_cookie (if ses_server (kx_session s) then kx_server_kex s else kx_client_kex s)) of
       (b, rc) \<Rightarrow> (s\<lparr>kx_out_hashbuf := b\<rparr>, rc))"

definition ssh_hashbufin_add_cookie :: "kex_env \<Rightarrow> kex_session \<Rightarrow> bytes \<Rightarrow> kex_session \<times> int" where
  "ssh_hashbufin_add_cookie env s cookie =
    (case hashbuf_add_cookie (env_mem (kex_packet env)) 37 cookie of (b, rc) \<Rightarrow> (s\<lparr>kx_in_hashbuf := b\<rparr>, rc))"

section \<open>Sending\<close>

text \<open>The loop over the methods, into both buffers; false where it goes to the label \<open>error\<close>.\<close>

fun add_methods :: "allocator \<Rightarrow> string option list \<Rightarrow> ssh_buffer \<Rightarrow> ssh_buffer \<Rightarrow> ssh_buffer \<times> ssh_buffer \<times> bool" where
  "add_methods mem [] hash out = (hash, out, True)"
| "add_methods mem (m # ms) hash out = (case ssh_string_from_char mem (map_option text_bytes m) of
     None \<Rightarrow> (hash, out, False)
   | Some str \<Rightarrow>
       (case ssh_buffer_add_ssh_string mem hash (Some str) of (hash, rc) \<Rightarrow>
        if rc < 0 then (hash, out, False)
        else case ssh_buffer_add_ssh_string mem out (Some str) of (out, rc) \<Rightarrow>
        if rc < 0 then (hash, out, False) else add_methods mem ms hash out))"

definition first_kex_packet_follows :: "kex_session \<Rightarrow> u8" where
  "first_kex_packet_follows s =
    (if ses_client (kx_session s) \<and> ses_session_state (kx_session s) \<noteq> SSH_SESSION_STATE_KEXINIT_RECEIVED \<and>
        kx_send_first_kex_follows s then 1 else 0)"

text \<open>The label \<open>error\<close> of \<open>ssh_send_kex\<close>.\<close>

definition drop_kexinit :: "kex_env \<Rightarrow> kex_session \<Rightarrow> kex_session \<times> int" where
  "drop_kexinit env s =
    (let reinit = map_option (\<lambda>b. fst (ssh_buffer_reinit (env_mem (kex_packet env)) b)); session = kx_session s in
     (s\<lparr>kx_session := session\<lparr>ses_out_buffer := reinit (ses_out_buffer session)\<rparr>,
        kx_out_hashbuf := reinit (kx_out_hashbuf s)\<rparr>, - 1))"

text \<open>\<open>ssh_send_kex\<close> up to the call of \<open>ssh_packet_send\<close>: the payload and the hash input.\<close>

definition write_kexinit :: "kex_env \<Rightarrow> kex_session \<Rightarrow> (kex_session \<times> int) option" where
  "write_kexinit env s =
    (let mem = env_mem (kex_packet env); pack = ssh_buffer_pack mem (kex_bignum env);
         set_out = (\<lambda>b s. s\<lparr>kx_session := (kx_session s)\<lparr>ses_out_buffer := Some b\<rparr>\<rparr>);
         kex = (if ses_server (kx_session s) then kx_server_kex s else kx_client_kex s);
         follows = first_kex_packet_follows s
     in case ses_out_buffer (kx_session s) of None \<Rightarrow> None
     | Some out \<Rightarrow>
     case pack out ''bP'' [VA_int (ucast SSH2_MSG_KEXINIT), VA_long 16, VA_pointer (Some (kex_cookie kex))] of None \<Rightarrow> None
     | Some (out, rc) \<Rightarrow>
     let s = set_out out s in
     if rc \<noteq> SSH_OK then Some (drop_kexinit env s)
     else case ssh_hashbufout_add_cookie env s of (s, rc) \<Rightarrow>
     if rc < 0 then Some (drop_kexinit env s)
     else case kx_out_hashbuf s of None \<Rightarrow> None
     | Some hash \<Rightarrow>
     case add_methods mem (kex_methods kex) hash out of (hash, out, added) \<Rightarrow>
     let s = set_out out (s\<lparr>kx_out_hashbuf := Some hash\<rparr>) in
     if \<not> added then Some (drop_kexinit env s)
     else case pack out ''bd'' [VA_int (ucast follows), VA_int 0] of None \<Rightarrow> None
     | Some (out, rc) \<Rightarrow>
     let s = set_out out s in
     if rc \<noteq> SSH_OK then Some (drop_kexinit env s)
     else case ssh_buffer_add_u8 mem hash follows of (hash, rc) \<Rightarrow>
     let s = s\<lparr>kx_out_hashbuf := Some hash\<rparr> in
     if rc < 0 then Some (drop_kexinit env s)
     else case ssh_buffer_add_u32 mem hash 0 of (hash, rc) \<Rightarrow>
     let s = s\<lparr>kx_out_hashbuf := Some hash\<rparr> in
     if rc < 0 then Some (drop_kexinit env s) else Some (s, SSH_OK))"

text \<open>The whole of \<open>ssh_send_kex\<close>, with the guessed first packet.\<close>

definition send_kexinit :: "kex_env \<Rightarrow> kex_session \<Rightarrow> (kex_session \<times> int) option" where
  "send_kexinit env s =
    (let kex = (if ses_server (kx_session s) then kx_server_kex s else kx_client_kex s);
         follows = first_kex_packet_follows s
     in case write_kexinit env s of None \<Rightarrow> None
     | Some (s, rc) \<Rightarrow>
     if rc \<noteq> SSH_OK then Some (s, rc)
     else case ssh_packet_send (kex_packet env) (kx_session s) of None \<Rightarrow> None
     | Some (session, rc) \<Rightarrow>
     if rc = SSH_ERROR then Some (s\<lparr>kx_session := session\<rparr>, - 1)
     else
       let session = session\<lparr>ses_flags := ses_flags session OR SSH_SESSION_FLAG_KEXINIT_SENT\<rparr>;
           s = s\<lparr>kx_session := session\<rparr>
       in if follows \<noteq> 1 then Some (s, 0)
          else case kex_methods kex ! SSH_KEX of None \<Rightarrow> None
          | Some list \<Rightarrow>
            let kex_name = takeWhile (\<lambda>c. c \<noteq> CHR '','') list in
            if \<not> kex_room env (length kex_name + 1) then Some (drop_kexinit env (kx_error s))
            else if ses_next_crypto session = None then None
            else case kex_dh_handshake env (s\<lparr>kx_session := session\<lparr>
                   ses_next_crypto := map_option (\<lambda>c. c\<lparr>cry_kex_type := kex_select_kex_type kex_name\<rparr>) (ses_next_crypto session),
                   ses_dh_handshake_state := DH_STATE_INIT\<rparr>\<rparr>) of
              (s, rc) \<Rightarrow> if rc = SSH_ERROR then Some (drop_kexinit env s) else Some (s, 0))"

section \<open>Receiving\<close>

text \<open>Whether the message may arrive now: the session to go on with, or \<open>None\<close> for the label \<open>error\<close>.\<close>

definition kexinit_expected :: "ssh_session \<Rightarrow> ssh_session option" where
  "kexinit_expected session =
    (if ses_session_state session = SSH_SESSION_STATE_AUTHENTICATED
     then (if ses_dh_handshake_state session = DH_STATE_FINISHED
           then Some (session\<lparr>ses_flags := ses_flags session AND NOT SSH_SESSION_FLAG_KEXINIT_SENT\<rparr>)
           else if has_flag (ses_flags session) SSH_SESSION_FLAG_KEXINIT_SENT \<and>
                   ses_dh_handshake_state session = DH_STATE_INIT_SENT
           then Some session
           else if ses_session_state session \<noteq> SSH_SESSION_STATE_INITIAL_KEX then None else Some session)
     else if ses_session_state session \<noteq> SSH_SESSION_STATE_INITIAL_KEX then None
     else Some session)"

text \<open>The loop over the methods of the peer. \<open>Inl\<close> is the label \<open>error\<close>; its flag tells whether an error is set.\<close>

fun read_methods :: "allocator \<Rightarrow> nat \<Rightarrow> ssh_buffer \<Rightarrow> ssh_buffer option \<Rightarrow> string option list \<Rightarrow>
    ssh_buffer \<times> ssh_buffer option \<times> (bool + string option list)" where
  "read_methods mem 0 packet hash strings = (packet, hash, Inr strings)"
| "read_methods mem (Suc n) packet hash strings =
    (case ssh_buffer_get_ssh_string mem packet of
       (packet, None) \<Rightarrow> (packet, hash, Inl False)
     | (packet, Some str) \<Rightarrow>
         (case (case hash of None \<Rightarrow> (None, - 1)
                | Some b \<Rightarrow> (case ssh_buffer_add_ssh_string mem b (Some str) of (b, rc) \<Rightarrow> (Some b, rc))) of
            (hash, rc) \<Rightarrow>
              if rc < 0 then (packet, hash, Inl True)
              else (case ssh_string_to_char mem (Some str) of
                 None \<Rightarrow> (packet, hash, Inl True)
               | Some s \<Rightarrow> read_methods mem n packet hash (strings @ [Some (bytes_text s)]))))"

text \<open>The label \<open>error\<close>: without the server code, a server leaves the client's methods alone.\<close>

definition kexinit_error :: "kex_session \<Rightarrow> kex_session" where
  "kexinit_error s = s\<lparr>kx_server_kex := (if ses_server (kx_session s) then kx_server_kex s
        else (kx_server_kex s)\<lparr>kex_methods := replicate SSH_KEX_METHODS None\<rparr>),
     kx_session := (kx_session s)\<lparr>ses_session_state := SSH_SESSION_STATE_ERROR\<rparr>\<rparr>"

text \<open>The part of the handler in front of the methods: the cookie of the server, and the client's own offer.\<close>

definition read_cookie :: "kex_env \<Rightarrow> ssh_buffer \<Rightarrow> kex_session \<Rightarrow> (ssh_buffer \<times> kex_session \<times> bool) option" where
  "read_cookie env packet s =
    (if ses_server (kx_session s) then Some (packet, s, True)
     else case ssh_buffer_get_data packet 16 of (packet, cookie, len) \<Rightarrow>
       let s = s\<lparr>kx_server_kex := (kx_server_kex s)\<lparr>kex_cookie := blit 0 cookie (kex_cookie (kx_server_kex s))\<rparr>\<rparr> in
       if len \<noteq> 16 then Some (packet, kx_error s, False)
       else case ssh_hashbufin_add_cookie env s (kex_cookie (kx_server_kex s)) of (s, rc) \<Rightarrow>
         if rc < 0 then Some (packet, kx_error s, False)
         else case ssh_set_client_kex env s of None \<Rightarrow> None
         | Some (s, rc) \<Rightarrow> Some (packet, s, rc \<noteq> SSH_ERROR))"

text \<open>The last part, once both offers are there.\<close>

definition kexinit_received :: "kex_env \<Rightarrow> u8 \<Rightarrow> kex_session \<Rightarrow> kex_session" where
  "kexinit_received env follows s =
    (let client = kex_methods (kx_client_kex s); server = kex_methods (kx_server_kex s);
         wrong = (if follows \<noteq> 0 \<or> kx_send_first_kex_follows s
                  then cmp_first_kex_algo (client ! SSH_KEX) (server ! SSH_KEX) \<or>
                       cmp_first_kex_algo (client ! SSH_HOSTKEYS) (server ! SSH_HOSTKEYS)
                  else kx_first_kex_follows_guess_wrong s);
         strict = (if ses_server (kx_session s) then match_group (client ! SSH_KEX) (Some KEX_STRICT_CLIENT)
                   else match_group (server ! SSH_KEX) (Some KEX_STRICT_SERVER));
         session = kx_session s;
         session = (if strict then session\<lparr>ses_flags := ses_flags session OR SSH_SESSION_FLAG_KEX_STRICT\<rparr> else session);
         session = session\<lparr>ses_session_state := SSH_SESSION_STATE_KEXINIT_RECEIVED\<rparr>;
         session = (if \<not> kx_send_first_kex_follows s then session\<lparr>ses_dh_handshake_state := DH_STATE_INIT\<rparr> else session)
     in kex_connection_callback env (s\<lparr>kx_session := session, kx_first_kex_follows_guess_wrong := wrong\<rparr>))"

definition ssh_packet_kexinit :: "kex_env \<Rightarrow> ssh_buffer \<Rightarrow> kex_session \<Rightarrow> kex_session option" where
  "ssh_packet_kexinit env packet s =
    (let mem = env_mem (kex_packet env) in
     if \<not> ses_server (kx_session s) \<and> ses_next_crypto (kx_session s) = None then None
     else case kexinit_expected (kx_session s) of None \<Rightarrow> Some (kexinit_error (kx_error s))
     | Some session \<Rightarrow>
     case read_cookie env packet (s\<lparr>kx_session := session\<rparr>) of None \<Rightarrow> None
     | Some (packet, s, good) \<Rightarrow>
     if \<not> good then Some (kexinit_error s)
     else case read_methods mem SSH_KEX_METHODS packet (kx_in_hashbuf s) [] of (packet, hash, result) \<Rightarrow>
     let s = s\<lparr>kx_in_hashbuf := hash\<rparr> in
     case result of
       Inl oom \<Rightarrow> Some (kexinit_error (if oom then kx_error s else s))
     | Inr strings \<Rightarrow>
     let s = (if ses_server (kx_session s) then s
              else s\<lparr>kx_server_kex := (kx_server_kex s)\<lparr>kex_methods := strings\<rparr>\<rparr>) in
     case ssh_buffer_get_u8 packet 0 of (packet, follows, rc) \<Rightarrow>
     if rc \<noteq> 1 then Some (kexinit_error s)
     else case hash of None \<Rightarrow> Some (kexinit_error s)
     | Some hash \<Rightarrow>
     case ssh_buffer_add_u8 mem hash follows of (hash, rc) \<Rightarrow>
     let s = s\<lparr>kx_in_hashbuf := Some hash\<rparr> in
     if rc < 0 then Some (kexinit_error s)
     else case ssh_buffer_add_u32 mem hash 0 of (hash, rc) \<Rightarrow>
     let s = s\<lparr>kx_in_hashbuf := Some hash\<rparr> in
     if rc < 0 then Some (kexinit_error s) else Some (kexinit_received env follows s))"

end
