(* ===== verification/KexNameProps.thy ===== *)
theory KexNameProps
  imports KexNames TokenProps
begin

text \<open>
  The lists of algorithm names: the tables have no name twice, so that filtering by them is safe; the order of the
  host keys; and the agreement of the two sides on the methods.
\<close>

section \<open>The tables\<close>

lemma supported_tables: "list_all (\<lambda>l. distinct (tokens l) \<and> [] \<notin> set (tokens l)) (take 8 supported_methods)"
  by code_simp

lemma fips_tables: "list_all (\<lambda>l. distinct (tokens l) \<and> [] \<notin> set (tokens l)) (take 8 fips_methods)"
  by code_simp

lemma hostkeys_table: "distinct (tokens HOSTKEYS)" "[] \<notin> set (tokens HOSTKEYS)"
  by code_simp+

lemma table_nth:
  assumes "algo < 8"
  shows "distinct (tokens (supported_methods ! algo))" "[] \<notin> set (tokens (supported_methods ! algo))"
    "distinct (tokens (fips_methods ! algo))" "[] \<notin> set (tokens (fips_methods ! algo))"
proof -
  have l: "length supported_methods = 10" "length fips_methods = 10"
    by (simp_all add: supported_methods_def fips_methods_def Let_def)
  then have "take 8 supported_methods ! algo = supported_methods ! algo" "take 8 fips_methods ! algo = fips_methods ! algo"
    "algo < length (take 8 supported_methods)" "algo < length (take 8 fips_methods)" using assms by simp_all
  then show "distinct (tokens (supported_methods ! algo))" "[] \<notin> set (tokens (supported_methods ! algo))"
    "distinct (tokens (fips_methods ! algo))" "[] \<notin> set (tokens (fips_methods ! algo))"
    using supported_tables fips_tables by (metis list_all_length)+
qed

text \<open>Filtering the algorithms of the user by those the library knows is safe, for every list the user gives:
  nothing is written behind the end of the result, which has the known names in the order of the user.\<close>

theorem kept_algorithms:
  assumes "\<forall>n. room n" and "algo < 8"
  shows "ssh_keep_known_algos room algo (Some list) = Some
      (let ts = filter (\<lambda>t. t \<in> set (tokens (supported_methods ! algo))) (tokens list)
       in if ts = [] then None else Some (join CHR '','' ts)) \<and>
    ssh_keep_fips_algos room algo (Some list) = Some
      (let ts = filter (\<lambda>t. t \<in> set (tokens (fips_methods ! algo))) (tokens list)
       in if ts = [] then None else Some (join CHR '','' ts))"
  using find_all_matching_join [OF assms(1)] table_nth [OF assms(2)] assms(2)
  by (simp add: ssh_keep_known_algos_def ssh_keep_fips_algos_def)

theorem kept_algorithms_witness:
  "ssh_keep_known_algos (\<lambda>_. True) 6 (Some ''zlib,none,lz4,zlib'') = Some (Some ''zlib,none,zlib'')"
proof -
  have "filter (\<lambda>t. t \<in> set (tokens (supported_methods ! 6))) (tokens ''zlib,none,lz4,zlib'') = [''zlib'', ''none'', ''zlib'']"
    by code_simp
  with kept_algorithms [of "\<lambda>_. True" 6 "''zlib,none,lz4,zlib''"] show ?thesis by (simp add: Let_def)
qed

section \<open>The order of the host keys\<close>

lemma append_lists:
  assumes "\<forall>n. room n" and "ls \<noteq> []" and "as \<noteq> []" and "\<forall>t \<in> set ls \<union> set as. t \<noteq> [] \<and> CHR '','' \<notin> set t"
  shows "ssh_append_without_duplicates room (Some (join CHR '','' ls)) (Some (join CHR '','' as)) =
    Some (join CHR '','' (firsts (ls @ as)))"
proof -
  have "last (ls @ as) \<in> set as" using assms(3) by simp
  with assms(4) have t: "tokens (join CHR '','' (ls @ as)) = ls @ as"
    using assms(3,4) by (intro tokens_join) fastforce+
  have f: "filter (\<lambda>t. t \<noteq> []) (firsts (ls @ as)) = firsts (ls @ as)"
    using assms(4) by (auto simp: filter_id_conv)
  have n: "firsts (ls @ as) \<noteq> []" using assms(2) by (metis append_is_Nil_conv firsts_simps(2) set_empty)
  have "join CHR '','' ls \<noteq> []" using assms(2,4) by (cases ls; cases "tl ls") auto
  with assms(1,2,3) show ?thesis
    by (simp add: ssh_append_without_duplicates_def remove_duplicates_join t f n flip: join_append)
qed

text \<open>C34: the host keys a client asks for. If the known hosts name some of the wanted keys, these come first, in the
  order wanted, and the other wanted keys follow, none of them twice; otherwise the wanted keys.\<close>

theorem ssh_client_select_hostkeys_order:
  assumes "\<forall>n. room n" and "distinct (tokens k)" and "[] \<notin> set (tokens k)"
    and "ws = filter (\<lambda>t. t \<in> set (tokens HOSTKEYS)) (tokens w)" and "ks = filter (\<lambda>t. t \<in> set (tokens k)) ws"
  shows "ssh_client_select_hostkeys room False (Some w) (Some k) = Some
    (if ws = [] then None else if ks = [] then Some (join CHR '','' ws) else Some (join CHR '','' (firsts (ks @ ws))))"
proof (cases "ws = []")
  case True
  with find_all_matching_join [OF assms(1) hostkeys_table, of w] assms(4) show ?thesis
    by (simp add: ssh_client_select_hostkeys_def)
next
  case False
  have ne: "\<forall>t \<in> set ws. t \<noteq> [] \<and> CHR '','' \<notin> set t"
    using hostkeys_table(2) tokens_no_sep by (auto simp: assms(4))
  with False have t: "tokens (join CHR '','' ws) = ws" by (intro tokens_join) auto
  have w: "ssh_find_all_matching room (Some HOSTKEYS) (Some w) = Some (Some (join CHR '','' ws))"
    using find_all_matching_join [OF assms(1) hostkeys_table, of w] assms(4) False by (simp add: Let_def)
  have k: "ssh_find_all_matching room (Some k) (Some (join CHR '','' ws)) = Some (if ks = [] then None else Some (join CHR '','' ks))"
    using find_all_matching_join [OF assms(1-3), of "join CHR '','' ws"] by (simp add: t assms(5) Let_def)
  have "ssh_append_without_duplicates room (Some (join CHR '','' ks)) (Some (join CHR '','' ws)) =
    Some (join CHR '','' (firsts (ks @ ws)))" if "ks \<noteq> []"
    by (rule append_lists [OF assms(1) that False]) (use ne assms(5) in auto)
  with w k False show ?thesis by (simp add: ssh_client_select_hostkeys_def)
qed

theorem ssh_client_select_hostkeys_order_witness:
  "ssh_client_select_hostkeys (\<lambda>_. True) False (Some ''ssh-ed25519,ssh-dss,rsa-sha2-512,rsa-sha2-256'')
    (Some ''rsa-sha2-256,ssh-rsa'') = Some (Some ''rsa-sha2-256,ssh-ed25519,rsa-sha2-512'')"
proof -
  let ?ws = "[''ssh-ed25519'', ''rsa-sha2-512'', ''rsa-sha2-256'']" and ?k = "''rsa-sha2-256,ssh-rsa''"
  have d: "distinct (tokens ?k)" and n: "[] \<notin> set (tokens ?k)"
    and w: "?ws = filter (\<lambda>t. t \<in> set (tokens HOSTKEYS)) (tokens ''ssh-ed25519,ssh-dss,rsa-sha2-512,rsa-sha2-256'')"
    and k: "[''rsa-sha2-256''] = filter (\<lambda>t. t \<in> set (tokens ?k)) ?ws"
    by code_simp+
  have f: "firsts ([''rsa-sha2-256''] @ ?ws) = [''rsa-sha2-256'', ''ssh-ed25519'', ''rsa-sha2-512'']" by code_simp
  have r: "\<forall>n::nat. (\<lambda>_. True) n" by simp
  show ?thesis using ssh_client_select_hostkeys_order [OF r d n w k] unfolding f by simp
qed

section \<open>Extensions at the end of a list\<close>

lemma cut_skip: "CHR '','' \<notin> set t \<Longrightarrow> cut_at (CHR '','' # p) (t @ s) = t @ cut_at (CHR '','' # p) s"
  by (induction t) (auto simp: starts_with_def)

lemma starts_with_token:
  assumes "CHR '','' \<notin> set p" and "tail = [] \<or> hd tail = CHR '',''"
  shows "starts_with (t @ tail) p = starts_with t p"
proof (cases "length p \<le> length t")
  case True
  then show ?thesis by (simp add: starts_with_def)
next
  case False
  have "take (length p) (t @ tail) \<noteq> p"
  proof
    assume e: "take (length p) (t @ tail) = p"
    with False have "tail \<noteq> []" by (metis append_Nil2 length_take min.cobounded1 nat_le_linear take_all)
    with assms(2) obtain r where "tail = CHR '','' # r" by (cases tail) auto
    with False have "CHR '','' \<in> set (take (length p) (t @ tail))"
      by (cases "length p - length t") auto
    with e assms(1) show False by simp
  qed
  with False show ?thesis by (auto simp: starts_with_def)
qed

lemma starts_with_join:
  assumes "CHR '','' \<notin> set p"
  shows "starts_with (join CHR '','' (t # ts)) p = starts_with t p"
proof (cases "ts = []")
  case False
  then have "join CHR '','' (t # ts) = t @ CHR '','' # join CHR '','' ts" by (rule join_Cons)
  with starts_with_token [OF assms, of "CHR '','' # join CHR '','' ts" t] show ?thesis by simp
qed simp

lemma cut_extensions:
  assumes "CHR '','' \<notin> set p" and "cs \<noteq> []" and "\<forall>t \<in> set cs. CHR '','' \<notin> set t \<and> \<not> starts_with t p" and "starts_with e p"
  shows "cut_at (CHR '','' # p) (join CHR '','' (cs @ e # es)) = join CHR '','' cs"
  using assms(2,3)
proof (induction cs)
  case (Cons c cs)
  have "join CHR '','' ((c # cs) @ e # es) = c @ CHR '','' # join CHR '','' (cs @ e # es)" by (simp add: join_Cons)
  moreover have "cut_at (CHR '','' # p) (CHR '','' # s) = (if starts_with s p then [] else CHR '','' # cut_at (CHR '','' # p) s)" for s
    by (simp add: starts_with_def)
  ultimately have cut: "cut_at (CHR '','' # p) (join CHR '','' ((c # cs) @ e # es)) = c @
      (if starts_with (join CHR '','' (cs @ e # es)) p then [] else CHR '','' # cut_at (CHR '','' # p) (join CHR '','' (cs @ e # es)))"
    using Cons.prems(2) by (simp add: cut_skip)
  show ?case
  proof (cases cs)
    case Nil
    with assms(4) have "starts_with (join CHR '','' (cs @ e # es)) p" by (simp add: starts_with_join [OF assms(1)] del: join.simps)
    with cut Nil show ?thesis by (simp del: join.simps) simp
  next
    case (Cons c2 cs2)
    then have "\<not> starts_with (join CHR '','' (cs @ e # es)) p"
      using starts_with_join [OF assms(1), of c2 "cs2 @ e # es"] Cons.prems(2) by auto
    with cut Cons.IH Cons.prems Cons show ?thesis by (simp add: join_Cons)
  qed
qed simp

end
