(* ===== verification/KexProps.thy ===== *)
theory KexProps
  imports Kex KexNameProps RecvProps PackProps
begin

text \<open>
  The \<open>KEXINIT\<close> messages: what \<open>write_kexinit\<close> writes is read back by the handler of the peer, both sides hash the
  same bytes, and both choose the same methods.
\<close>

section \<open>Text on the wire\<close>

definition methods_wire :: "string list \<Rightarrow> bytes" where
  "methods_wire ts = concat (map (\<lambda>t. string_image (text_bytes t)) ts)"

lemma methods_wire_simps [simp]:
  "methods_wire [] = []" "methods_wire (t # ts) = string_image (text_bytes t) @ methods_wire ts"
  by (simp_all add: methods_wire_def)

context allocator
begin

lemma string_from_char:
  assumes "ssh_string_from_char mem (Some w) = Some s" and "length w < 4294967296"
  shows "string_wf s" and "string_content s = w"
proof -
  from assms(1) obtain p where p: "ssh_string_new mem (of_nat (length w)) = Some p" "s = p\<lparr>str_data := blit 0 w (str_data p)\<rparr>"
    by (auto simp: ssh_string_from_char_def split: option.splits)
  note n = ssh_string_new_wf [OF p(1)]
  have u: "unat (of_nat (length w) :: usize) = length w" using assms(2) by (intro unat_of_nat64) simp
  show "string_wf s" using n u by (simp add: p(2) string_wf_def length_blit string_content_def)
  show "string_content s = w" using n(3) u by (simp add: p(2) string_content_def take_blit_0)
qed

section \<open>The offer written\<close>

lemma add_methods_wire:
  assumes "add_methods mem (map Some ts) hash out = (hash', out', True)" and "buffer_inv hash" and "buffer_inv out"
    and "\<forall>t \<in> set ts. length t < 4294967296"
  shows "buffer_inv hash'" and "contents hash' = contents hash @ methods_wire ts"
    and "buffer_inv out'" and "contents out' = contents out @ methods_wire ts"
proof -
  have "buffer_inv hash' \<and> contents hash' = contents hash @ methods_wire ts \<and> buffer_inv out' \<and>
    contents out' = contents out @ methods_wire ts"
    using assms
  proof (induction ts arbitrary: hash out)
    case (Cons t ts)
    from Cons.prems(1) obtain str h o1 where
      s: "ssh_string_from_char mem (Some (text_bytes t)) = Some str"
      and h: "ssh_buffer_add_ssh_string mem hash (Some str) = h" "\<not> snd h < 0"
      and o1: "ssh_buffer_add_ssh_string mem out (Some str) = o1" "\<not> snd o1 < 0"
      and r: "add_methods mem (map Some ts) (fst h) (fst o1) = (hash', out', True)"
      by (auto split: option.splits prod.splits if_splits)
    have "length (text_bytes t) < 4294967296" using Cons.prems(4) by (simp add: text_bytes_def)
    note str = string_from_char [OF s this]
    have a: "appends hash (string_image (text_bytes t)) h" "appends out (string_image (text_bytes t)) o1"
      using add_ssh_string_appends [OF _ str(1)] Cons.prems(2,3) str(2) h(1) o1(1) by (auto simp: string_image_def)
    with h(2) o1(2) have "buffer_inv (fst h)" "contents (fst h) = contents hash @ string_image (text_bytes t)"
      "buffer_inv (fst o1)" "contents (fst o1) = contents out @ string_image (text_bytes t)"
      by (auto simp: appends_def)
    with Cons.IH [OF r] Cons.prems(4) show ?case by simp
  qed simp
  then show "buffer_inv hash'" "contents hash' = contents hash @ methods_wire ts" "buffer_inv out'"
    "contents out' = contents out @ methods_wire ts" by simp_all
qed

lemma hashbuf_cookie:
  assumes "hashbuf_add_cookie mem needed cookie = (r, rc)" and "length cookie = 16"
  shows "rc = - 1 \<or> (\<exists>b. r = Some b \<and> rc = 0 \<and> buffer_inv b \<and> contents b = 20 # cookie)"
proof (cases rule: new_cases)
  case fail
  with assms(1) show ?thesis by (simp add: hashbuf_add_cookie_def)
next
  case (ok b0)
  have "same_content b0 (fst (ssh_buffer_allocate_size mem b0 needed))"
    using ok(2) by (cases rule: allocate_size_cases [of b0 needed]) auto
  then obtain b1 rc1 where b1: "ssh_buffer_allocate_size mem b0 needed = (b1, rc1)" "buffer_inv b1" "contents b1 = []"
    using ok(3) by (cases "ssh_buffer_allocate_size mem b0 needed") (auto simp: same_content_def)
  obtain b2 rc2 where b2: "ssh_buffer_add_u8 mem b1 20 = (b2, rc2)" by fastforce
  obtain b3 rc3 where b3: "ssh_buffer_add_data mem b2 (Some cookie) 16 = (b3, rc3)" by fastforce
  show ?thesis
  proof (cases "rc1 < 0 \<or> rc2 < 0 \<or> rc3 < 0")
    case True
    with assms(1) ok(1) b1 b2 b3 show ?thesis by (auto simp: hashbuf_add_cookie_def split: if_splits)
  next
    case False
    with add_ints(1) [OF b1(2), of 20] b2 b1(3) have "buffer_inv b2" "contents b2 = [20]" by (auto simp: appends_def)
    with add_data_whole [of b2 16 cookie] assms(2) b3 False have "buffer_inv b3" "contents b3 = 20 # cookie"
      by (auto simp: appends_def)
    with False assms(1) ok(1) b1 b2 b3 show ?thesis by (auto simp: hashbuf_add_cookie_def)
  qed
qed

end

text \<open>The bytes behind the message number, and the structure that is sent.\<close>

definition kexinit_body :: "bytes \<Rightarrow> string list \<Rightarrow> u8 \<Rightarrow> bytes" where
  "kexinit_body cookie ts follows = cookie @ methods_wire ts @ [follows] @ be32 0"

definition sent_kex :: "kex_session \<Rightarrow> ssh_kex" where
  "sent_kex s = (if ses_server (kx_session s) then kx_server_kex s else kx_client_kex s)"

lemma le32_zero: "le32 0 = be32 0"
  by code_simp

lemma drop_kexinit_rc: "drop_kexinit env s \<noteq> (s', 0)"
  by (simp add: drop_kexinit_def Let_def)

lemma write_kexinit_wire:
  assumes "write_kexinit env s = Some (s', SSH_OK)" and "pack_setting (env_mem (kex_packet env)) (kex_bignum env) v"
    and "ses_out_buffer (kx_session s) = Some out" and "buffer_inv out" and "contents out = []"
    and "kex_methods (sent_kex s) = map Some ts" and "length (kex_cookie (sent_kex s)) = 16"
    and "\<forall>t \<in> set ts. length t < 4294967296"
  shows "\<exists>out' hash. ses_out_buffer (kx_session s') = Some out' \<and> buffer_inv out' \<and>
      contents out' = 20 # kexinit_body (kex_cookie (sent_kex s)) ts (first_kex_packet_follows s) \<and>
    kx_out_hashbuf s' = Some hash \<and> buffer_inv hash \<and>
      contents hash = 20 # kexinit_body (kex_cookie (sent_kex s)) ts (first_kex_packet_follows s)"
proof -
  let ?mem = "env_mem (kex_packet env)" and ?kex = "sent_kex s" and ?f = "first_kex_packet_follows s"
  from assms(1,3,6) obtain o1 h0 rc0 h1 o2 o3 h2 h3 where
    o1: "ssh_buffer_pack ?mem (kex_bignum env) out ''bP''
      [VA_int (ucast SSH2_MSG_KEXINIT), VA_long 16, VA_pointer (Some (kex_cookie ?kex))] = Some (o1, 0)"
    and h0: "hashbuf_add_cookie ?mem 17 (kex_cookie ?kex) = (Some h0, rc0)" "\<not> rc0 < 0"
    and m: "add_methods ?mem (map Some ts) h0 o1 = (h1, o2, True)"
    and o3: "ssh_buffer_pack ?mem (kex_bignum env) o2 ''bd'' [VA_int (ucast ?f), VA_int 0] = Some (o3, 0)"
    and h2: "ssh_buffer_add_u8 ?mem h1 ?f = h2" "\<not> snd h2 < 0" and h3: "ssh_buffer_add_u32 ?mem (fst h2) 0 = h3" "\<not> snd h3 < 0"
    and s': "ses_out_buffer (kx_session s') = Some o3" "kx_out_hashbuf s' = Some (fst h3)"
    by (auto simp: write_kexinit_def Let_def sent_kex_def ssh_hashbufout_add_cookie_def drop_kexinit_rc
        split: option.splits prod.splits if_splits)
  have a: "allocator ?mem" using assms(2) by (simp add: pack_setting_def)
  note packs = pack_setting.packs_fields [OF assms(2)]
  have o1w: "buffer_inv o1" "contents o1 = 20 # kex_cookie ?kex"
    using packs [OF o1 assms(4), of "[F_byte SSH2_MSG_KEXINIT, F_data (kex_cookie ?kex)]"] assms(5,7) by simp_all
  have h0w: "buffer_inv h0" "contents h0 = 20 # kex_cookie ?kex"
    using allocator.hashbuf_cookie [OF a h0(1) assms(7)] h0(2) by auto
  note mw = allocator.add_methods_wire [OF a m h0w(1) o1w(1) assms(8)]
  have o3w: "buffer_inv o3" "contents o3 = contents o2 @ [?f] @ be32 0"
    using packs [OF o3 mw(3), of "[F_byte ?f, F_dword 0]"] by simp_all
  have h2w: "buffer_inv (fst h2)" "contents (fst h2) = contents h1 @ [?f]"
    using allocator.add_ints(1) [OF a mw(1), of ?f] h2 by (auto simp: appends_def)
  have h3w: "buffer_inv (fst h3)" "contents (fst h3) = contents (fst h2) @ be32 0"
    using allocator.add_ints(3) [OF a h2w(1), of 0] h3 by (auto simp: appends_def le32_zero)
  from s' o3w h3w show ?thesis by (simp add: kexinit_body_def mw o1w(2) h0w(2) h2w(2))
qed

section \<open>The offer read\<close>

lemma string_new_live:
  assumes "\<forall>n. mem n \<noteq> None" and "unat sz \<le> 0x10000000"
  shows "ssh_string_new mem sz \<noteq> None"
  using assms by (auto simp: ssh_string_new_def STRING_SIZE_MAX_def word_less_nat_alt split: option.splits)

lemma to_char_live:
  assumes "\<forall>n. mem n \<noteq> None"
  shows "ssh_string_to_char mem (Some s) \<noteq> None"
proof -
  have "\<not> ssh_string_len (Some s) + 1 < ssh_string_len (Some s)"
    using ssh_string_len_le [of "Some s"] by (simp add: word_less_nat_alt unat_word_ariths)
  with assms show ?thesis by (auto simp: ssh_string_to_char_def Let_def split: option.splits)
qed

lemma add_bytes_live:
  assumes "appends b bs r" and "snd r = 0"
  obtains b' where "r = (b', 0)" and "buffer_inv b'" and "contents b' = contents b @ bs"
  using assms by (cases rule: appends_cases) auto

lemma add_string_live:
  assumes "\<forall>n. mem n \<noteq> None" and "buffer_inv b" and "string_wf s"
    and "length (contents b) + length (string_content s) + 4 < 0x10000000"
  shows "snd (ssh_buffer_add_ssh_string mem b (Some s)) = 0"
proof -
  have "unat (ssh_string_len (Some s) + 4) = length (string_content s) + 4"
    using assms(4) unat_ssh_string_len [OF assms(3)] by (simp add: unat_word_ariths)
  then have "unat (ucast (ssh_string_len (Some s) + 4) :: u32) = length (string_content s) + 4"
    using assms(4) by (simp add: unat_ucast_down)
  with add_data_live [of mem b "ucast (ssh_string_len (Some s) + 4)" "le32 (str_size s) @ str_data s"] assms
  show ?thesis by (auto simp: ssh_buffer_add_ssh_string_def split: prod.splits)
qed

lemma add_u8_live:
  assumes "\<forall>n. mem n \<noteq> None" and "buffer_inv b" and "length (contents b) + 1 < 0x10000000"
  shows "snd (ssh_buffer_add_u8 mem b w) = 0"
  using add_data_live [of mem b 1 "[w]"] assms by (auto simp: ssh_buffer_add_u8_def split: prod.splits)

lemma add_u32_live:
  assumes "\<forall>n. mem n \<noteq> None" and "buffer_inv b" and "length (contents b) + 4 < 0x10000000"
  shows "snd (ssh_buffer_add_u32 mem b w) = 0"
  using add_data_live [of mem b 4 "le32 w"] assms by (auto simp: ssh_buffer_add_u32_def split: prod.splits)

context allocator
begin

lemma read_methods_wire:
  assumes "\<forall>n. mem n \<noteq> None" and "buffer_inv p" and "contents p = methods_wire ts @ rest" and "buffer_inv h"
    and "length (contents h) + length (methods_wire ts) < 0x10000000" and "\<forall>t \<in> set ts. CHR 0x00 \<notin> set t"
  shows "\<exists>p' h'. read_methods mem (length ts) p (Some h) acc = (p', Some h', Inr (acc @ map Some ts)) \<and>
    buffer_inv p' \<and> contents p' = rest \<and> buffer_inv h' \<and> contents h' = contents h @ methods_wire ts"
  using assms(2-6)
proof (induction ts arbitrary: p h acc)
  case (Cons t ts)
  let ?t = "text_bytes t"
  have l: "length ?t + 4 + length (methods_wire ts) + length (contents h) < 0x10000000"
    using Cons.prems(4) by (simp add: string_image_def)
  then have u: "unat (of_nat (length ?t) :: u32) = length ?t" by (intro unat_of_nat32) simp
  have p: "contents p = be32 (of_nat (length ?t)) @ ?t @ methods_wire ts @ rest"
    using Cons.prems(2) by (simp add: string_image_def)
  obtain p1 str where str: "ssh_buffer_get_ssh_string mem p = (p1, Some str)" "buffer_inv p1" "string_wf str"
    "string_content str = ?t" "contents p1 = methods_wire ts @ rest"
  proof (cases rule: get_ssh_string_cases [OF Cons.prems(1)])
    case 1 with p show ?thesis by simp
  next
    case (2 b w r)
    then have e: "w = of_nat (length ?t)" "r = ?t @ methods_wire ts @ rest" using p be32_app_eq by metis+
    with 2(5) u show ?thesis by simp
  next
    case (3 b w r)
    then have e: "w = of_nat (length ?t)" "r = ?t @ methods_wire ts @ rest" using p be32_app_eq by metis+
    with 3(6) string_new_live [OF assms(1), of "ucast w"] u l show ?thesis by (simp add: unat_ucast_up)
  next
    case (4 b str w r)
    then have e: "w = of_nat (length ?t)" "r = ?t @ methods_wire ts @ rest" using p be32_app_eq by metis+
    with 4 u show ?thesis by (intro that) simp_all
  qed
  obtain h1 where h1: "ssh_buffer_add_ssh_string mem h (Some str) = (h1, 0)" "buffer_inv h1"
    "contents h1 = contents h @ string_image ?t"
    by (rule add_bytes_live [OF add_ssh_string_appends [OF Cons.prems(3) str(3)] add_string_live [OF assms(1) Cons.prems(3) str(3)]])
      (use str(4) l in \<open>auto simp: string_image_def\<close>)
  obtain c where c: "ssh_string_to_char mem (Some str) = Some c" using to_char_live [OF assms(1)] by blast
  with ssh_string_to_char_content [OF str(3)] str(4) have "bytes_text c = t"
    using Cons.prems(5) by (simp add: bytes_text_bytes)
  moreover from Cons.IH [OF str(2,5) h1(2), of "acc @ [Some t]"] h1(3) Cons.prems(4,5) obtain p' h' where
    "read_methods mem (length ts) p1 (Some h1) (acc @ [Some t]) = (p', Some h', Inr ((acc @ [Some t]) @ map Some ts))"
    "buffer_inv p'" "contents p' = rest" "buffer_inv h'" "contents h' = contents h1 @ methods_wire ts" by auto
  ultimately show ?case using str(1) h1 c by simp
qed simp

lemma hashbuf_live:
  assumes "\<forall>n. mem n \<noteq> None" and "length cookie = 16" and "unat needed < 0x10000000"
  obtains b where "hashbuf_add_cookie mem needed cookie = (Some b, 0)" and "buffer_inv b" and "contents b = 20 # cookie"
proof (cases rule: new_cases)
  case fail
  with new_live [OF assms(1)] show ?thesis by simp
next
  case (ok b0)
  have sz: "snd (ssh_buffer_allocate_size mem b0 needed) = 0"
    using realloc_live [of mem needed] assms(1,3)
    by (auto simp: ssh_buffer_allocate_size_def split: prod.split) (metis less_irrefl snd_conv)+
  obtain b1 where b1: "ssh_buffer_allocate_size mem b0 needed = (b1, 0)" "buffer_inv b1" "contents b1 = []"
    by (rule allocate_size_cases [OF ok(2), of needed]) (use ok(3) sz in \<open>auto simp: same_content_def\<close>)
  obtain b2 where b2: "ssh_buffer_add_u8 mem b1 20 = (b2, 0)" "buffer_inv b2" "contents b2 = [20]"
    by (rule add_bytes_live [OF add_ints(1) [OF b1(2)] add_u8_live [OF assms(1) b1(2)]]) (use b1(3) in auto)
  have "snd (ssh_buffer_add_data mem b2 (Some cookie) 16) = 0"
    by (rule add_data_live) (use assms(1) b2 in auto)
  with add_data_whole [OF b2(2), of 16 cookie] assms(2) obtain b3 where
    "ssh_buffer_add_data mem b2 (Some cookie) 16 = (b3, 0)" "buffer_inv b3" "contents b3 = [20] @ cookie"
    by (auto elim!: add_bytes_live simp: b2(3))
  with ok(1) b1(1) b2(1) show ?thesis by (intro that [of b3]) (auto simp: hashbuf_add_cookie_def)
qed

end

lemma kexinit_expected_session:
  "kexinit_expected session = Some s \<Longrightarrow> \<exists>flags. s = session\<lparr>ses_flags := flags\<rparr>"
  by (auto simp: kexinit_expected_def split: if_splits intro: exI [of _ "ses_flags session"])

text \<open>The handler of a client whose own offer is made.\<close>

lemma kexinit_read:
  assumes "allocator (env_mem (kex_packet env))" and "\<forall>n. env_mem (kex_packet env) n \<noteq> None"
    and "buffer_inv packet" and "contents packet = kexinit_body cookie ts follows"
    and "length (contents packet) < 0x1000000" and "length cookie = 16" and "length ts = SSH_KEX_METHODS"
    and "\<forall>t \<in> set ts. CHR 0x00 \<notin> set t"
    and "\<not> ses_server (kx_session r)" and "ses_next_crypto (kx_session r) \<noteq> None"
    and "kexinit_expected (kx_session r) \<noteq> None" and "kex_methods (kx_client_kex r) ! 0 \<noteq> None"
    and "length (kex_cookie (kx_server_kex r)) = 16"
  shows "\<exists>r' h. ssh_packet_kexinit env packet r = Some (kexinit_received env follows r') \<and>
    kx_in_hashbuf r' = Some h \<and> contents h = 20 # kexinit_body cookie ts follows \<and>
    kx_server_kex r' = \<lparr>kex_cookie = cookie, kex_methods = map Some ts\<rparr> \<and> kx_client_kex r' = kx_client_kex r \<and>
    kx_session r' = the (kexinit_expected (kx_session r))"
proof -
  let ?mem = "env_mem (kex_packet env)"
  note alloc = assms(1) and live = assms(2)
  obtain ks where ks: "kexinit_expected (kx_session r) = Some ks" using assms(11) by blast
  then have k: "\<not> ses_server ks" "ses_next_crypto ks \<noteq> None" using kexinit_expected_session [OF ks] assms(9,10) by auto
  have l: "length cookie + length (methods_wire ts) + 5 < 0x1000000"
    using assms(4,5) by (simp add: kexinit_body_def)
  obtain p1 where p1: "ssh_buffer_get_data packet 16 = (p1, cookie, 16)" "buffer_inv p1"
    "contents p1 = methods_wire ts @ [follows] @ be32 0"
    by (rule get_data_cases [OF assms(3), of 16]) (use assms(4,6) in \<open>auto simp: kexinit_body_def\<close>)
  obtain h0 where h0: "hashbuf_add_cookie ?mem 37 cookie = (Some h0, 0)" "buffer_inv h0" "contents h0 = 20 # cookie"
    by (rule allocator.hashbuf_live [OF alloc live assms(6), of 37]) auto
  let ?r1 = "r\<lparr>kx_session := ks, kx_server_kex := (kx_server_kex r)\<lparr>kex_cookie := cookie\<rparr>, kx_in_hashbuf := Some h0\<rparr>"
  have c: "read_cookie env packet (r\<lparr>kx_session := ks\<rparr>) = Some (p1, ?r1, True)"
    using k p1(1) h0(1) assms(6,12,13) by (simp add: read_cookie_def blit_def ssh_hashbufin_add_cookie_def ssh_set_client_kex_def Let_def)
  have "length (contents h0) + length (methods_wire ts) < 0x10000000" using h0(3) l by simp
  from allocator.read_methods_wire [OF alloc live p1(2,3) h0(2) this assms(8), of "[]"] obtain p2 h1 where
    m: "read_methods ?mem SSH_KEX_METHODS p1 (Some h0) [] = (p2, Some h1, Inr (map Some ts))" "buffer_inv p2"
      "contents p2 = [follows] @ be32 0" "buffer_inv h1" "contents h1 = 20 # cookie @ methods_wire ts"
    using assms(7) h0(3) by auto
  obtain p3 where p3: "ssh_buffer_get_u8 p2 0 = (p3, follows, 1)"
    by (rule get_data_cases [OF m(2), of 1]) (use m(3) in \<open>auto simp: ssh_buffer_get_u8_def\<close>)
  have lh: "length (contents h1) + 5 < 0x10000000" using m(5) l by simp
  obtain h2 where h2: "ssh_buffer_add_u8 ?mem h1 follows = (h2, 0)" "buffer_inv h2" "contents h2 = contents h1 @ [follows]"
    by (rule add_bytes_live [OF allocator.add_ints(1) [OF alloc m(4)] add_u8_live [OF live m(4)]]) (use lh in auto)
  obtain h3 where h3: "ssh_buffer_add_u32 ?mem h2 0 = (h3, 0)" "buffer_inv h3" "contents h3 = contents h2 @ be32 0"
    by (rule add_bytes_live [OF allocator.add_ints(3) [OF alloc h2(2), of 0] add_u32_live [OF live h2(2)]])
      (use lh h2(3) in \<open>auto simp: le32_zero\<close>)
  have kex: "(kx_server_kex r)\<lparr>kex_cookie := cookie, kex_methods := map Some ts\<rparr> = \<lparr>kex_cookie = cookie, kex_methods = map Some ts\<rparr>"
    by simp
  let ?r' = "r\<lparr>kx_session := ks, kx_server_kex := \<lparr>kex_cookie = cookie, kex_methods = map Some ts\<rparr>, kx_in_hashbuf := Some h3\<rparr>"
  have "ssh_packet_kexinit env packet r = Some (kexinit_received env follows ?r')"
    using assms(9,10) ks k c m(1) p3 h2(1) h3(1) by (simp add: ssh_packet_kexinit_def Let_def kex)
  moreover have "contents h3 = 20 # kexinit_body cookie ts follows" using h3(3) h2(3) m(5) by (simp add: kexinit_body_def)
  ultimately show ?thesis using ks by (intro exI [of _ ?r'] exI [of _ h3]) simp
qed

section \<open>Both sides hash the same offer\<close>

text \<open>C5: the \<open>KEXINIT\<close> of a server, received by a client that has made its own offer: whatever the client's state, if
  the message may arrive and there is memory, the client goes on with the cookie and the methods the server sent, and
  the bytes of the server's message that both sides will hash are the same.\<close>

theorem kexinit_transcripts_agree:
  assumes "write_kexinit senv s = Some (s', SSH_OK)" and "pack_setting (env_mem (kex_packet senv)) (kex_bignum senv) v"
    and "ses_out_buffer (kx_session s) = Some out" and "buffer_inv out" and "contents out = []"
    and "kex_methods (sent_kex s) = map Some ts" and "length ts = SSH_KEX_METHODS" and "length (kex_cookie (sent_kex s)) = 16"
    and "\<forall>t \<in> set ts. CHR 0x00 \<notin> set t \<and> length t < 4294967296"
    and "allocator (env_mem (kex_packet renv))" and "\<forall>n. env_mem (kex_packet renv) n \<noteq> None"
    and "buffer_inv packet" and "\<forall>b. ses_out_buffer (kx_session s') = Some b \<longrightarrow> contents b = 20 # contents packet"
    and "length (contents packet) \<le> 262144"
    and "\<not> ses_server (kx_session r)" and "ses_next_crypto (kx_session r) \<noteq> None"
    and "kexinit_expected (kx_session r) \<noteq> None" and "kex_methods (kx_client_kex r) ! 0 \<noteq> None"
    and "length (kex_cookie (kx_server_kex r)) = 16"
  shows "\<exists>r' h h'. ssh_packet_kexinit renv packet r = Some (kexinit_received renv (first_kex_packet_follows s) r') \<and>
    kx_server_kex r' = sent_kex s \<and> kx_client_kex r' = kx_client_kex r \<and>
    kx_in_hashbuf r' = Some h \<and> kx_out_hashbuf s' = Some h' \<and> contents h = contents h'"
proof -
  have "\<forall>t \<in> set ts. length t < 4294967296" "\<forall>t \<in> set ts. CHR 0x00 \<notin> set t" using assms(9) by simp_all
  with write_kexinit_wire [OF assms(1-6,8)] obtain h' where
    p: "contents packet = kexinit_body (kex_cookie (sent_kex s)) ts (first_kex_packet_follows s)"
    and h': "kx_out_hashbuf s' = Some h'" "contents h' = 20 # contents packet" using assms(13) by auto
  have "length (contents packet) < 0x1000000" using assms(14) by simp
  from kexinit_read [OF assms(10-12) p this assms(8,7) \<open>\<forall>t \<in> set ts. CHR 0x00 \<notin> set t\<close> assms(15-19)]
  show ?thesis using h' p assms(6) by (fastforce simp flip: assms(6))
qed

definition sample_kex :: kex_env where
  "sample_kex = \<lparr>kex_packet = sample_env\<lparr>env_mem := zero_alloc 1000\<rparr>, kex_bignum = word_bignum, kex_room = (\<lambda>_. True),
     kex_fips = False, kex_known = None, kex_revert = (\<lambda>s. s), kex_dh_handshake = (\<lambda>s. (s, SSH_OK)),
     kex_connection_callback = (\<lambda>s. s)\<rparr>"

definition sample_offer :: "string list" where "sample_offer = [''k1,k2'', ''h''] @ replicate 8 ''c''"

definition sample_kex_session :: "bool \<Rightarrow> kex_session" where
  "sample_kex_session server = (let kex = \<lparr>kex_cookie = replicate 16 9, kex_methods = map Some sample_offer\<rparr> in
     \<lparr>kx_session = sample_session\<lparr>ses_server := server, ses_client := \<not> server, ses_out_buffer := Some empty_buffer,
        ses_session_state := SSH_SESSION_STATE_INITIAL_KEX\<rparr>, kx_client_kex = kex, kx_server_kex = kex,
      kx_kex_methods = replicate 10 None, kx_wanted_methods = replicate 10 None, kx_in_hashbuf = None, kx_out_hashbuf = None,
      kx_send_first_kex_follows = False, kx_first_kex_follows_guess_wrong = False\<rparr>)"

definition full_buffer :: "bytes \<Rightarrow> ssh_buffer" where
  "full_buffer bs = \<lparr>buf_secure = False, buf_used = of_nat (length bs), buf_allocated = of_nat (length bs), buf_pos = 0,
     buf_data = bs, buf_freed = []\<rparr>"

lemma full_buffer: "bs \<noteq> [] \<Longrightarrow> length bs \<le> 0x10000000 \<Longrightarrow> buffer_inv (full_buffer bs) \<and> contents (full_buffer bs) = bs"
  by (simp add: full_buffer_def buffer_inv_def contents_def segment_def unat_of_nat32)

definition sample_kexinit :: ssh_buffer where
  "sample_kexinit = full_buffer (kexinit_body (replicate 16 9) sample_offer 0)"

theorem kexinit_transcripts_agree_witness:
  "\<exists>s' r' h h'. write_kexinit sample_kex (sample_kex_session True) = Some (s', SSH_OK) \<and>
    ssh_packet_kexinit (sample_kex\<lparr>kex_packet := sample_env\<lparr>env_mem := endless_mem\<rparr>\<rparr>) sample_kexinit (sample_kex_session False) = Some r' \<and>
    kex_methods (kx_server_kex r') = map Some sample_offer \<and>
    kx_in_hashbuf r' = Some h \<and> kx_out_hashbuf s' = Some h' \<and> contents h = contents h'"
proof -
  let ?s = "sample_kex_session True" and ?r = "sample_kex_session False"
  let ?renv = "sample_kex\<lparr>kex_packet := sample_env\<lparr>env_mem := endless_mem\<rparr>\<rparr>"
  have "map_option snd (write_kexinit sample_kex ?s) = Some 0" by code_simp
  then obtain s' where w: "write_kexinit sample_kex ?s = Some (s', SSH_OK)" by auto
  have kx: "kex_methods (sent_kex ?s) = map Some sample_offer" "kex_cookie (sent_kex ?s) = replicate 16 9"
    "ses_out_buffer (kx_session ?s) = Some empty_buffer" "first_kex_packet_follows ?s = 0"
    by (simp_all add: sample_kex_session_def sent_kex_def Let_def first_kex_packet_follows_def)
  have ts: "length sample_offer = SSH_KEX_METHODS" "\<forall>t \<in> set sample_offer. CHR 0x00 \<notin> set t \<and> length t < 4294967296"
    by (simp_all add: sample_offer_def SSH_KEX_METHODS_def)
  have ps: "pack_setting (env_mem (kex_packet sample_kex)) (kex_bignum sample_kex) unat"
    using sample_pack.pack_setting_axioms by (simp add: sample_kex_def)
  have n: "length (kexinit_body (replicate 16 9) sample_offer 0) = 75"
    by (simp add: kexinit_body_def sample_offer_def string_image_def text_bytes_def numeral_eq_Suc)
  then have "kexinit_body (replicate 16 9) sample_offer 0 \<noteq> []" by auto
  from full_buffer [OF this] n have p: "buffer_inv sample_kexinit"
    "contents sample_kexinit = kexinit_body (replicate 16 9) sample_offer 0" by (simp_all add: sample_kexinit_def)
  with n have l: "length (contents sample_kexinit) \<le> 262144" by simp
  have b: "\<forall>b. ses_out_buffer (kx_session s') = Some b \<longrightarrow> contents b = 20 # contents sample_kexinit"
    using write_kexinit_wire [OF w ps kx(3) empty_buffer_inv kx(1)] kx(2,4) ts(2) p(2) by auto
  have r: "\<not> ses_server (kx_session ?r)" "ses_next_crypto (kx_session ?r) \<noteq> None" "kexinit_expected (kx_session ?r) \<noteq> None"
    "kex_methods (kx_client_kex ?r) ! 0 \<noteq> None" "length (kex_cookie (kx_server_kex ?r)) = 16"
    by (simp_all add: sample_kex_session_def Let_def sample_session_def kexinit_expected_def sample_offer_def)
  have m: "allocator (env_mem (kex_packet ?renv))" "\<forall>n. env_mem (kex_packet ?renv) n \<noteq> None"
    using endless_mem.allocator_axioms by (simp_all add: endless_mem_def)
  have c: "length (kex_cookie (sent_kex ?s)) = 16" by (simp add: kx)
  have rcv: "\<exists>q. kexinit_received ?renv 0 r' = q \<and> kx_server_kex q = kx_server_kex r' \<and> kx_in_hashbuf q = kx_in_hashbuf r'" for r'
    by (simp add: kexinit_received_def Let_def sample_kex_def)
  from kexinit_transcripts_agree [OF w ps kx(3) empty_buffer_inv kx(1) ts(1) c ts(2) m p(1) b l r]
  obtain r' h h' where t: "ssh_packet_kexinit ?renv sample_kexinit ?r = Some (kexinit_received ?renv 0 r')"
    "kx_server_kex r' = sent_kex ?s" "kx_in_hashbuf r' = Some h" "kx_out_hashbuf s' = Some h'" "contents h = contents h'"
    using kx(4) by auto
  from rcv [of r'] obtain q where "kexinit_received ?renv 0 r' = q" "kx_server_kex q = kx_server_kex r'"
    "kx_in_hashbuf q = kx_in_hashbuf r'" by blast
  with t w kx(1) show ?thesis by (intro exI [of _ s'] exI [of _ q] exI [of _ h] exI [of _ h']) simp
qed

end
