(* ===== verification/NegotiationProps.thy ===== *)
theory NegotiationProps
  imports KexProps
begin

text \<open>
  Both sides of a key exchange choose the same methods, although each of them cuts the extensions off its own
  list only.
\<close>

section \<open>Both sides choose the same methods\<close>

lemma select_methods_cong:
  assumes "\<forall>i \<in> set is. ssh_find_matching room (sv ! i) (cl ! i) = ssh_find_matching room' (sv' ! i) (cl' ! i)"
    and "\<forall>n. room n" and "\<forall>n. room' n"
  shows "select_methods room sv cl chosen is = select_methods room' sv' cl' chosen is"
  using assms(1)
proof (induction "is" arbitrary: chosen)
  case (Cons i "is")
  have "room = room'" using assms(2,3) by auto
  with Cons.prems have "select_method room sv cl chosen i = select_method room' sv' cl' chosen i"
    by (simp add: select_method_def)
  with Cons show ?case by (simp add: Let_def)
qed simp

lemma select_methods_keep: "j \<notin> set is \<Longrightarrow> fst (select_methods room sv cl chosen is) ! j = chosen ! j"
  by (induction "is" arbitrary: chosen) (auto simp: Let_def)

lemma select_methods_first:
  assumes "select_methods room sv cl e (0 # is) = (chosen, found)" and "0 \<notin> set is" and "e \<noteq> []"
  shows "chosen ! 0 = select_method room sv cl e 0"
proof -
  let ?e = "e[0 := select_method room sv cl e 0]"
  have "chosen = ?e \<or> chosen = fst (select_methods room sv cl ?e is)"
    using assms(1) by (auto simp: Let_def split: if_splits dest: arg_cong [of _ _ fst])
  moreover have "?e ! 0 = select_method room sv cl e 0" using assms(3) by simp
  ultimately show ?thesis using select_methods_keep [OF assms(2)] by metis
qed

definition plain_names :: "string list \<Rightarrow> bool" where
  "plain_names ts \<longleftrightarrow> ts \<noteq> [] \<and> (\<forall>t \<in> set ts. t \<noteq> [] \<and> CHR '','' \<notin> set t \<and> \<not> starts_with t KEX_EXTENSION_CLIENT \<and>
     \<not> starts_with t KEX_STRICT_SERVER \<and> t \<noteq> KEX_STRICT_CLIENT)"

definition client_list :: "string list \<Rightarrow> string" where
  "client_list cs = join CHR '','' (cs @ [KEX_EXTENSION_CLIENT, KEX_STRICT_CLIENT])"

definition server_list :: "string list \<Rightarrow> string" where
  "server_list ss = join CHR '','' (ss @ [KEX_STRICT_SERVER])"

lemma extension_names:
  "CHR '','' \<notin> set KEX_EXTENSION_CLIENT" "CHR '','' \<notin> set KEX_STRICT_CLIENT" "CHR '','' \<notin> set KEX_STRICT_SERVER"
  "KEX_EXTENSION_CLIENT \<noteq> []" "KEX_STRICT_CLIENT \<noteq> []" "KEX_STRICT_SERVER \<noteq> []"
  "starts_with KEX_EXTENSION_CLIENT KEX_EXTENSION_CLIENT" "starts_with KEX_STRICT_SERVER KEX_STRICT_SERVER"
  by (simp_all add: KEX_EXTENSION_CLIENT_def KEX_STRICT_CLIENT_def KEX_STRICT_SERVER_def starts_with_def)

lemma cut_lists:
  assumes "plain_names ts"
  shows "cut_at (CHR '','' # KEX_EXTENSION_CLIENT) (client_list ts) = join CHR '','' ts"
    and "cut_at (CHR '','' # KEX_STRICT_SERVER) (server_list ts) = join CHR '','' ts"
  using assms cut_extensions [OF extension_names(1) _ _ extension_names(7), of ts]
    cut_extensions [OF extension_names(3) _ _ extension_names(8), of ts]
  by (auto simp: plain_names_def client_list_def server_list_def)

lemma tokens_lists:
  assumes "plain_names ts"
  shows "tokens (join CHR '','' ts) = ts" and "tokens (client_list ts) = ts @ [KEX_EXTENSION_CLIENT, KEX_STRICT_CLIENT]"
    and "tokens (server_list ts) = ts @ [KEX_STRICT_SERVER]"
proof -
  have "last ts \<noteq> []" using assms last_in_set [of ts] by (auto simp: plain_names_def)
  then show "tokens (join CHR '','' ts) = ts" using assms by (intro tokens_join) (auto simp: plain_names_def)
  show "tokens (client_list ts) = ts @ [KEX_EXTENSION_CLIENT, KEX_STRICT_CLIENT]" unfolding client_list_def
    using assms extension_names by (intro tokens_join) (auto simp: plain_names_def)
  show "tokens (server_list ts) = ts @ [KEX_STRICT_SERVER]" unfolding server_list_def
    using assms extension_names by (intro tokens_join) (auto simp: plain_names_def)
qed

lemma find_append: "List.find P (xs @ ys) = (case List.find P xs of None \<Rightarrow> List.find P ys | x \<Rightarrow> x)"
  by (induction xs) auto

lemma plain_disjoint:
  assumes "plain_names ts"
  shows "KEX_EXTENSION_CLIENT \<notin> set ts" "KEX_STRICT_CLIENT \<notin> set ts" "KEX_STRICT_SERVER \<notin> set ts"
  using assms extension_names(7,8) by (auto simp: plain_names_def)

lemma find_first_kex:
  assumes "\<forall>n. room n" and "plain_names cs" and "plain_names ss"
  shows "ssh_find_matching room (Some (server_list ss)) (Some (join CHR '','' cs)) = List.find (\<lambda>t. t \<in> set ss) cs"
    and "ssh_find_matching room (Some (join CHR '','' ss)) (Some (client_list cs)) = List.find (\<lambda>t. t \<in> set ss) cs"
proof -
  have "List.find (\<lambda>t. t \<in> set ss \<or> t = KEX_STRICT_SERVER) cs = List.find (\<lambda>t. t \<in> set ss) cs"
    using plain_disjoint(3) [OF assms(2)] by (intro find_cong) auto
  then show "ssh_find_matching room (Some (server_list ss)) (Some (join CHR '','' cs)) = List.find (\<lambda>t. t \<in> set ss) cs"
    by (simp add: find_matching_find [OF assms(1)] tokens_lists [OF assms(2)] tokens_lists [OF assms(3)] disj_commute)
  show "ssh_find_matching room (Some (join CHR '','' ss)) (Some (client_list cs)) = List.find (\<lambda>t. t \<in> set ss) cs"
    using plain_disjoint [OF assms(3)]
    by (simp add: find_matching_find [OF assms(1)] tokens_lists [OF assms(2)] tokens_lists [OF assms(3)] find_append
        split: option.split)
qed

text \<open>What a side computes once the extensions are cut off.\<close>

lemma select_outcome:
  assumes "without_extensions (ses_client (kx_session s)) KEX_EXTENSION_CLIENT (kex_methods (kx_client_kex s)) = Some cl"
    and "without_extensions (ses_server (kx_session s)) KEX_STRICT_SERVER (kex_methods (kx_server_kex s)) = Some sv"
    and "ses_next_crypto (kx_session s) \<noteq> None" and "\<And>t. ses_next_crypto (kex_revert env t) = ses_next_crypto t"
    and "select_methods (kex_room env) sv cl (kx_kex_methods s) [0..<SSH_KEX_METHODS] = (chosen, found)"
  shows "\<exists>s' rc. ssh_kex_select_methods env s = Some (s', rc) \<and> kx_kex_methods s' = chosen \<and>
    rc = (if found then SSH_OK else SSH_ERROR) \<and>
    (found \<longrightarrow> map_option cry_kex_type (ses_next_crypto (kx_session s')) = Some (kex_select_kex_type (the (chosen ! SSH_KEX))))"
  using assms by (auto simp: ssh_kex_select_methods_def Let_def kx_error_def)

text \<open>C6: client and server, each with both offers, end the negotiation alike: the same result, the same ten methods and
  the same kind of key exchange, the first name of the client that the server has too. Each side has cut the
  extensions off its own list only, and neither takes an extension of the other for a method.\<close>

theorem negotiation_agrees:
  assumes "\<forall>n. kex_room cenv n" and "\<forall>n. kex_room senv n" and "plain_names cs" and "plain_names ss"
    and "\<forall>t. ses_next_crypto (kex_revert cenv t) = ses_next_crypto t" and "\<forall>t. ses_next_crypto (kex_revert senv t) = ses_next_crypto t"
    and "ses_client (kx_session c)" and "\<not> ses_server (kx_session c)" and "ses_next_crypto (kx_session c) \<noteq> None"
    and "\<not> ses_client (kx_session v)" and "ses_server (kx_session v)" and "ses_next_crypto (kx_session v) \<noteq> None"
    and "kex_methods (kx_client_kex c) = Some (client_list cs) # ms" and "kex_methods (kx_server_kex c) = Some (server_list ss) # ns"
    and "kex_methods (kx_client_kex v) = Some (client_list cs) # ms" and "kex_methods (kx_server_kex v) = Some (server_list ss) # ns"
    and "kx_kex_methods c = replicate SSH_KEX_METHODS None" and "kx_kex_methods v = replicate SSH_KEX_METHODS None"
  shows "\<exists>c' v' rc. ssh_kex_select_methods cenv c = Some (c', rc) \<and> ssh_kex_select_methods senv v = Some (v', rc) \<and>
    kx_kex_methods c' = kx_kex_methods v' \<and>
    (rc = SSH_OK \<longrightarrow> kx_kex_methods c' ! SSH_KEX = List.find (\<lambda>t. t \<in> set ss) cs \<and>
       map_option cry_kex_type (ses_next_crypto (kx_session c')) = map_option cry_kex_type (ses_next_crypto (kx_session v')))"
proof -
  let ?e = "replicate SSH_KEX_METHODS (None :: string option)"
  let ?cl = "Some (join CHR '','' cs) # ms" and ?sv = "Some (server_list ss) # ns"
  let ?cl' = "Some (client_list cs) # ms" and ?sv' = "Some (join CHR '','' ss) # ns"
  obtain chosen found where r: "select_methods (kex_room cenv) ?sv ?cl ?e [0..<SSH_KEX_METHODS] = (chosen, found)" by fastforce
  have "ssh_find_matching (kex_room cenv) (?sv ! i) (?cl ! i) = ssh_find_matching (kex_room senv) (?sv' ! i) (?cl' ! i)" for i
  proof (cases i)
    case 0
    then show ?thesis using find_first_kex(1) [OF assms(1,3,4)] find_first_kex(2) [OF assms(2,3,4)] by simp
  next
    case (Suc j)
    have "ssh_find_matching (kex_room cenv) a b = ssh_find_matching (kex_room senv) a b" for a b
      using find_matching_find assms(1,2) by (cases a; cases b) (simp_all add: ssh_find_matching_def)
    with Suc show ?thesis by simp
  qed
  then have r': "select_methods (kex_room senv) ?sv' ?cl' ?e [0..<SSH_KEX_METHODS] = (chosen, found)"
    using select_methods_cong [OF _ assms(1,2)] r by metis
  have wc: "without_extensions (ses_client (kx_session c)) KEX_EXTENSION_CLIENT (kex_methods (kx_client_kex c)) = Some ?cl"
    "without_extensions (ses_server (kx_session c)) KEX_STRICT_SERVER (kex_methods (kx_server_kex c)) = Some ?sv"
    using assms(7,8,13,14) cut_lists(1) [OF assms(3)] by (simp_all add: without_extensions_def)
  have wv: "without_extensions (ses_client (kx_session v)) KEX_EXTENSION_CLIENT (kex_methods (kx_client_kex v)) = Some ?cl'"
    "without_extensions (ses_server (kx_session v)) KEX_STRICT_SERVER (kex_methods (kx_server_kex v)) = Some ?sv'"
    using assms(10,11,15,16) cut_lists(2) [OF assms(4)] by (simp_all add: without_extensions_def)
  from select_outcome [OF wc assms(9) spec [OF assms(5)] r [folded assms(17)]] obtain c' rc where
    c: "ssh_kex_select_methods cenv c = Some (c', rc)" "kx_kex_methods c' = chosen" "rc = (if found then SSH_OK else SSH_ERROR)"
      "found \<longrightarrow> map_option cry_kex_type (ses_next_crypto (kx_session c')) = Some (kex_select_kex_type (the (chosen ! SSH_KEX)))"
    by blast
  from select_outcome [OF wv assms(12) spec [OF assms(6)] r' [folded assms(18)]] obtain v' rc' where
    v: "ssh_kex_select_methods senv v = Some (v', rc')" "kx_kex_methods v' = chosen" "rc' = (if found then SSH_OK else SSH_ERROR)"
      "found \<longrightarrow> map_option cry_kex_type (ses_next_crypto (kx_session v')) = Some (kex_select_kex_type (the (chosen ! SSH_KEX)))"
    by blast
  have "chosen ! SSH_KEX = List.find (\<lambda>t. t \<in> set ss) cs"
  proof -
    have u: "[0..<SSH_KEX_METHODS] = 0 # [1..<SSH_KEX_METHODS]" by (simp add: SSH_KEX_METHODS_def upt_rec)
    have m: "select_method (kex_room cenv) ?sv ?cl ?e 0 = List.find (\<lambda>t. t \<in> set ss) cs"
      using find_first_kex(1) [OF assms(1,3,4)] by (simp add: select_method_def)
    have "?e \<noteq> []" by (simp add: SSH_KEX_METHODS_def)
    from select_methods_first [OF r [unfolded u] _ this] m show ?thesis by simp
  qed
  with c v show ?thesis by auto
qed

definition sample_negotiation :: "bool \<Rightarrow> kex_session" where
  "sample_negotiation server = (let rest = map Some [''ssh-ed25519'', ''aes256-gcm@openssh.com'', ''aes256-ctr,aes128-ctr'',
       ''hmac-sha1'', ''hmac-sha2-256'', ''none'', ''none'', '''', '''']
     in (sample_kex_session server)\<lparr>
       kx_client_kex := \<lparr>kex_cookie = replicate 16 1, kex_methods = Some (client_list [''curve25519-sha256'', ''ecdh-sha2-nistp256'']) # rest\<rparr>,
       kx_server_kex := \<lparr>kex_cookie = replicate 16 2, kex_methods = Some (server_list [''ecdh-sha2-nistp521'', ''ecdh-sha2-nistp256'']) # rest\<rparr>\<rparr>)"

theorem negotiation_agrees_witness:
  "\<exists>c' v'. ssh_kex_select_methods sample_kex (sample_negotiation False) = Some (c', SSH_OK) \<and>
    ssh_kex_select_methods sample_kex (sample_negotiation True) = Some (v', SSH_OK) \<and>
    kx_kex_methods c' = kx_kex_methods v' \<and> kx_kex_methods c' ! SSH_KEX = Some ''ecdh-sha2-nistp256''"
proof -
  let ?c = "sample_negotiation False" and ?v = "sample_negotiation True"
  have p: "plain_names [''curve25519-sha256'', ''ecdh-sha2-nistp256'']" "plain_names [''ecdh-sha2-nistp521'', ''ecdh-sha2-nistp256'']"
    by code_simp+
  have rc: "map_option snd (ssh_kex_select_methods sample_kex ?c) = Some SSH_OK" by code_simp
  have f: "List.find (\<lambda>t. t \<in> set [''ecdh-sha2-nistp521'', ''ecdh-sha2-nistp256'']) [''curve25519-sha256'', ''ecdh-sha2-nistp256''] =
    Some ''ecdh-sha2-nistp256''" by code_simp
  have e: "\<forall>n. kex_room sample_kex n" "\<forall>t. ses_next_crypto (kex_revert sample_kex t) = ses_next_crypto t"
    by (simp_all add: sample_kex_def)
  have s: "ses_client (kx_session ?c)" "\<not> ses_server (kx_session ?c)" "ses_next_crypto (kx_session ?c) \<noteq> None"
    "\<not> ses_client (kx_session ?v)" "ses_server (kx_session ?v)" "ses_next_crypto (kx_session ?v) \<noteq> None"
    by (simp_all add: sample_negotiation_def sample_kex_session_def sample_session_def Let_def)
  let ?ms = "map Some [''ssh-ed25519'', ''aes256-gcm@openssh.com'', ''aes256-ctr,aes128-ctr'',
       ''hmac-sha1'', ''hmac-sha2-256'', ''none'', ''none'', '''', '''']"
  have k: "kex_methods (kx_client_kex ?c) = Some (client_list [''curve25519-sha256'', ''ecdh-sha2-nistp256'']) # ?ms"
    "kex_methods (kx_server_kex ?c) = Some (server_list [''ecdh-sha2-nistp521'', ''ecdh-sha2-nistp256'']) # ?ms"
    "kex_methods (kx_client_kex ?v) = Some (client_list [''curve25519-sha256'', ''ecdh-sha2-nistp256'']) # ?ms"
    "kex_methods (kx_server_kex ?v) = Some (server_list [''ecdh-sha2-nistp521'', ''ecdh-sha2-nistp256'']) # ?ms"
    "kx_kex_methods ?c = replicate SSH_KEX_METHODS None" "kx_kex_methods ?v = replicate SSH_KEX_METHODS None"
    by (simp_all add: sample_negotiation_def sample_kex_session_def Let_def SSH_KEX_METHODS_def)
  from negotiation_agrees [OF e(1) e(1) p e(2) e(2) s k] rc f show ?thesis by fastforce
qed

end
