(* ===== verification/Kdf.thy ===== *)
theory Kdf
  imports PacketSend PackSpec
begin

text \<open>
  The keys of a session: the derivation function of \<open>kdf.c\<close>, for crypto libraries without one of their own, and
  \<open>ssh_generate_session_keys\<close> of \<open>kex.c\<close>.

  The hash functions belong to the crypto library: \<open>sha_lib\<close> holds the start, the update and the end of a
  computation, \<open>None\<close> for an error; \<open>alloc\<close> is the memory of a computation. The loop of the derivation has no
  bound in the code: if the digest length were 0 it would not end, which is the value \<open>None\<close>.
\<close>

section \<open>Hashing\<close>

datatype ssh_kdf_digest = SSH_KDF_SHA1 | SSH_KDF_SHA256 | SSH_KDF_SHA384 | SSH_KDF_SHA512

record 'c sha_lib =
  sha_init :: "ssh_kdf_digest \<Rightarrow> 'c option"
  sha_update :: "ssh_kdf_digest \<Rightarrow> 'c \<Rightarrow> bytes \<Rightarrow> 'c option"
  sha_final :: "ssh_kdf_digest \<Rightarrow> 'c \<Rightarrow> bytes option"

record 'c ssh_mac_ctx =
  mac_digest_type :: ssh_kdf_digest
  mac_ctx :: 'c

definition ssh_mac_ctx_init :: "bool \<Rightarrow> 'c sha_lib \<Rightarrow> ssh_kdf_digest \<Rightarrow> 'c ssh_mac_ctx option" where
  "ssh_mac_ctx_init alloc lib type = (if \<not> alloc then None
     else map_option (\<lambda>c. \<lparr>mac_digest_type = type, mac_ctx = c\<rparr>) (sha_init lib type))"

definition ssh_mac_update :: "'c sha_lib \<Rightarrow> 'c ssh_mac_ctx \<Rightarrow> bytes \<Rightarrow> 'c ssh_mac_ctx option" where
  "ssh_mac_update lib ctx data =
     map_option (\<lambda>c. ctx\<lparr>mac_ctx := c\<rparr>) (sha_update lib (mac_digest_type ctx) (mac_ctx ctx) data)"

definition ssh_mac_final :: "'c sha_lib \<Rightarrow> 'c ssh_mac_ctx \<Rightarrow> bytes option" where
  "ssh_mac_final lib ctx = sha_final lib (mac_digest_type ctx) (mac_ctx ctx)"

section \<open>The derivation\<close>

text \<open>The fields of a crypto context that the derivation reads.\<close>

record kdf_crypto =
  kdf_digest_type :: ssh_kdf_digest
  kdf_digest_len :: nat
  kdf_secret_hash :: bytes
  kdf_session_id :: bytes

partial_function (option) derive_loop ::
  "bool \<Rightarrow> 'c sha_lib \<Rightarrow> kdf_crypto \<Rightarrow> bytes \<Rightarrow> bytes \<Rightarrow> nat \<Rightarrow> nat \<Rightarrow> (bytes \<times> int) option" where
  "derive_loop alloc lib crypto key output output_len requested_len =
    (if requested_len > output_len
     then (case do {
             ctx \<leftarrow> ssh_mac_ctx_init alloc lib (kdf_digest_type crypto);
             ctx \<leftarrow> ssh_mac_update lib ctx key;
             ctx \<leftarrow> ssh_mac_update lib ctx (take (kdf_digest_len crypto) (kdf_secret_hash crypto));
             ctx \<leftarrow> ssh_mac_update lib ctx (take output_len output);
             ssh_mac_final lib ctx } of
             None \<Rightarrow> Some (output, - 1)
           | Some digest \<Rightarrow>
               derive_loop alloc lib crypto key
                 (blit output_len
                    (take (if requested_len < output_len + kdf_digest_len crypto then requested_len - output_len
                           else kdf_digest_len crypto) digest) output)
                 (output_len + kdf_digest_len crypto) requested_len)
     else Some (output, 0))"

definition sshkdf_derive_key ::
  "bool \<Rightarrow> 'c sha_lib \<Rightarrow> kdf_crypto \<Rightarrow> bytes \<Rightarrow> u8 \<Rightarrow> bytes \<Rightarrow> nat \<Rightarrow> (bytes \<times> int) option" where
  "sshkdf_derive_key alloc lib crypto key key_type output requested_len =
    (if DIGEST_MAX_LEN < kdf_digest_len crypto then Some (output, - 1)
     else case do {
             ctx \<leftarrow> ssh_mac_ctx_init alloc lib (kdf_digest_type crypto);
             ctx \<leftarrow> ssh_mac_update lib ctx key;
             ctx \<leftarrow> ssh_mac_update lib ctx (take (kdf_digest_len crypto) (kdf_secret_hash crypto));
             ctx \<leftarrow> ssh_mac_update lib ctx [key_type];
             ctx \<leftarrow> ssh_mac_update lib ctx (kdf_session_id crypto);
             ssh_mac_final lib ctx } of
       None \<Rightarrow> Some (output, - 1)
     | Some digest \<Rightarrow>
         let output_len = (if requested_len < kdf_digest_len crypto then requested_len else kdf_digest_len crypto)
         in derive_loop alloc lib crypto key (blit 0 (take output_len digest) output) output_len requested_len)"

section \<open>The keys of a session\<close>

text \<open>
  The session in the form this function needs it: which side it is, the secrets of the exchange, the hashes and the sizes
  the ciphers and MACs chosen ask for (key sizes in bits), and the six results. \<open>kdf\<close> is \<open>ssh_kdf\<close>: \<open>sshkdf_derive_key\<close>
  or the function of the crypto library, \<open>None\<close> for an error.
\<close>

record 'bn key_session =
  key_client :: bool
  key_kex_type :: ssh_key_exchange
  key_shared_secret :: 'bn
  key_hybrid_secret :: "ssh_string option"
  key_kdf :: kdf_crypto
  key_in_keysize :: nat
  key_out_keysize :: nat
  key_in_hmac :: ssh_hmac
  key_out_hmac :: ssh_hmac
  key_encryptIV :: bytes
  key_decryptIV :: bytes
  key_encryptkey :: bytes
  key_decryptkey :: bytes
  key_encryptMAC :: bytes
  key_decryptMAC :: bytes

definition shared_secret_string :: "allocator \<Rightarrow> 'bn bignum_lib \<Rightarrow> 'bn key_session \<Rightarrow> ssh_string option" where
  "shared_secret_string mem lib s =
    (if key_kex_type s \<in> {SSH_KEX_SNTRUP761X25519_SHA512, SSH_KEX_SNTRUP761X25519_SHA512_OPENSSH_COM}
     then ssh_make_padded_bignum_string mem lib (key_shared_secret s) (kdf_digest_len (key_kdf s))
     else if key_kex_type s \<in> {SSH_KEX_MLKEM768X25519_SHA256, SSH_KEX_MLKEM768NISTP256_SHA256, SSH_KEX_MLKEM1024NISTP384_SHA384}
     then ssh_string_copy mem (key_hybrid_secret s)
     else ssh_make_bignum_string mem lib (key_shared_secret s))"

definition ssh_generate_session_keys :: "allocator \<Rightarrow> 'bn bignum_lib \<Rightarrow> (kdf_crypto \<Rightarrow> bytes \<Rightarrow> u8 \<Rightarrow> nat \<Rightarrow> bytes option) \<Rightarrow>
    'bn key_session \<Rightarrow> 'bn key_session \<times> int" where
  "ssh_generate_session_keys mem lib kdf s = (case shared_secret_string mem lib s of
     None \<Rightarrow> (s, - 1)
   | Some k_string \<Rightarrow>
       let key_len = unat (ssh_string_len (Some k_string)) + 4;
           key = take key_len (le32 (str_size k_string) @ str_data k_string);
           IV_len = kdf_digest_len (key_kdf s);
           enckey_cli_to_srv_len = (if key_client s then key_out_keysize s else key_in_keysize s) div 8;
           enckey_srv_to_cli_len = (if key_client s then key_in_keysize s else key_out_keysize s) div 8;
           intkey_cli_to_srv_len = hmac_digest_len (if key_client s then key_out_hmac s else key_in_hmac s);
           intkey_srv_to_cli_len = hmac_digest_len (if key_client s then key_in_hmac s else key_out_hmac s)
       in if None \<in> set (map mem [IV_len, IV_len, enckey_cli_to_srv_len, enckey_srv_to_cli_len, intkey_cli_to_srv_len,
               intkey_srv_to_cli_len]) then (s, - 1)
          else (case do {
             IV_cli_to_srv \<leftarrow> kdf (key_kdf s) key 0x41 IV_len;
             IV_srv_to_cli \<leftarrow> kdf (key_kdf s) key 0x42 IV_len;
             enckey_cli_to_srv \<leftarrow> kdf (key_kdf s) key 0x43 enckey_cli_to_srv_len;
             enckey_srv_to_cli \<leftarrow> kdf (key_kdf s) key 0x44 enckey_srv_to_cli_len;
             intkey_cli_to_srv \<leftarrow> kdf (key_kdf s) key 0x45 intkey_cli_to_srv_len;
             intkey_srv_to_cli \<leftarrow> kdf (key_kdf s) key 0x46 intkey_srv_to_cli_len;
             Some (if key_client s
               then s\<lparr>key_encryptIV := IV_cli_to_srv, key_decryptIV := IV_srv_to_cli, key_encryptkey := enckey_cli_to_srv,
                      key_decryptkey := enckey_srv_to_cli, key_encryptMAC := intkey_cli_to_srv, key_decryptMAC := intkey_srv_to_cli\<rparr>
               else s\<lparr>key_encryptIV := IV_srv_to_cli, key_decryptIV := IV_cli_to_srv, key_encryptkey := enckey_srv_to_cli,
                      key_decryptkey := enckey_cli_to_srv, key_encryptMAC := intkey_srv_to_cli, key_decryptMAC := intkey_cli_to_srv\<rparr>) } of
             None \<Rightarrow> (s, - 1)
           | Some s \<Rightarrow> (s, 0)))"

end
