(* ===== verification/KdfProps.thy ===== *)
theory KdfProps
  imports Kdf RecvProps PackProps
begin

text \<open>
  The derivation of \<open>kdf.c\<close> against the key stream of RFC 4253, and the agreement of the two sides on the keys.
\<close>

section \<open>What the derivation computes\<close>

text \<open>The documented behaviour of the hash functions: the parts of a message may be given one by one.\<close>

definition hash_chain :: "'c sha_lib \<Rightarrow> ssh_kdf_digest \<Rightarrow> bytes list \<Rightarrow> bytes option" where
  "hash_chain lib type ms = do {
     c \<leftarrow> sha_init lib type;
     c \<leftarrow> foldl (\<lambda>c m. c \<bind> (\<lambda>c. sha_update lib type c m)) (Some c) ms;
     sha_final lib type c }"

definition hash_library :: "'c sha_lib \<Rightarrow> ssh_kdf_digest \<Rightarrow> (bytes \<Rightarrow> bytes) \<Rightarrow> nat \<Rightarrow> bool" where
  "hash_library lib type H n \<longleftrightarrow> (\<forall>ms. hash_chain lib type ms = Some (H (concat ms))) \<and> (\<forall>m. length (H m) = n)"

text \<open>The key stream of RFC 4253, 7.2: \<open>n\<close> blocks.\<close>

fun key_stream :: "(bytes \<Rightarrow> bytes) \<Rightarrow> bytes \<Rightarrow> bytes \<Rightarrow> u8 \<Rightarrow> bytes \<Rightarrow> nat \<Rightarrow> bytes" where
  "key_stream H K h X sid 0 = []"
| "key_stream H K h X sid (Suc 0) = H (K @ h @ [X] @ sid)"
| "key_stream H K h X sid (Suc (Suc n)) =
     key_stream H K h X sid (Suc n) @ H (K @ h @ key_stream H K h X sid (Suc n))"

lemma key_stream_step: "0 < n \<Longrightarrow> key_stream H K h X sid (Suc n) =
    key_stream H K h X sid n @ H (K @ h @ key_stream H K h X sid n)"
  by (cases n) auto

lemma length_key_stream:
  assumes "\<And>m. length (H m) = d"
  shows "length (key_stream H K h X sid n) = n * d"
proof (induction n)
  case (Suc n)
  then show ?case using assms by (cases n) auto
qed simp

lemma take_key_stream:
  assumes "\<And>m. length (H m) = d" and "n \<le> k" and "r \<le> n * d" and "0 < n"
  shows "take r (key_stream H K h X sid k) = take r (key_stream H K h X sid n)"
  using assms(2)
proof (induction k)
  case (Suc k)
  show ?case
  proof (cases "n = Suc k")
    case False
    with Suc.prems have n: "n \<le> k" by simp
    then have "r \<le> k * d" using mult_le_mono1 [OF n, of d] assms(3) by linarith
    with n Suc.IH assms(4) show ?thesis by (simp add: key_stream_step length_key_stream [OF assms(1)])
  qed simp
qed (use assms(4) in simp)

lemma mac_chain:
  "do { ctx \<leftarrow> ssh_mac_ctx_init True lib type; ctx \<leftarrow> ssh_mac_update lib ctx a; ctx \<leftarrow> ssh_mac_update lib ctx b;
     ctx \<leftarrow> ssh_mac_update lib ctx c; ssh_mac_final lib ctx } = hash_chain lib type [a, b, c]"
  "do { ctx \<leftarrow> ssh_mac_ctx_init True lib type; ctx \<leftarrow> ssh_mac_update lib ctx a; ctx \<leftarrow> ssh_mac_update lib ctx b;
     ctx \<leftarrow> ssh_mac_update lib ctx c; ctx \<leftarrow> ssh_mac_update lib ctx d; ssh_mac_final lib ctx } = hash_chain lib type [a, b, c, d]"
  by (auto simp: ssh_mac_ctx_init_def ssh_mac_update_def ssh_mac_final_def hash_chain_def split: Option.bind_splits)

lemma derive_loop_stream:
  assumes "hash_library lib (kdf_digest_type crypto) H (kdf_digest_len crypto)" and "0 < kdf_digest_len crypto"
    and "length (kdf_secret_hash crypto) = kdf_digest_len crypto" and "requested_len \<le> k * kdf_digest_len crypto"
    and "length block = requested_len" and "0 < n"
    and "take (n * kdf_digest_len crypto) block = take requested_len (key_stream H key (kdf_secret_hash crypto) X sid n)"
  shows "derive_loop True lib crypto key block (n * kdf_digest_len crypto) requested_len =
    Some (take requested_len (key_stream H key (kdf_secret_hash crypto) X sid k), 0)"
  using assms(5-7)
proof (induction "requested_len - n * kdf_digest_len crypto" arbitrary: n block rule: less_induct)
  case less
  let ?d = "kdf_digest_len crypto" and ?h = "kdf_secret_hash crypto" and ?S = "key_stream H key (kdf_secret_hash crypto) X sid"
  have H: "\<And>m. length (H m) = ?d" and chain: "\<And>ms. hash_chain lib (kdf_digest_type crypto) ms = Some (H (concat ms))"
    using assms(1) by (auto simp: hash_library_def)
  note len = length_key_stream [OF H]
  show ?case
  proof (cases "requested_len > n * ?d")
    case False
    have "0 < k \<or> requested_len = 0" using assms(4) by (cases k) auto
    then have "take requested_len (?S k) = take requested_len (?S n)"
      using take_key_stream [OF H, of n k requested_len] take_key_stream [OF H, of k n requested_len] False less.prems(2) assms(4)
      by (cases "n \<le> k") auto
    with False less.prems show ?thesis by (subst derive_loop.simps) simp
  next
    case True
    then have out: "take (n * ?d) block = ?S n" using less.prems(3) by (simp add: len)
    let ?t = "if requested_len < n * ?d + ?d then requested_len - n * ?d else ?d"
    let ?o = "blit (n * ?d) (take ?t (H (key @ ?h @ ?S n))) block"
    have t: "length (take ?t (H (key @ ?h @ ?S n))) = ?t" by (simp add: H)
    have lo: "length ?o = requested_len" using True less.prems(1) t by (subst length_blit) auto
    have "take (Suc n * ?d) ?o = take requested_len (?S (Suc n))"
    proof (cases "requested_len < n * ?d + ?d")
      case short: True
      then have "take (Suc n * ?d) ?o = ?o" using lo by simp
      also have "\<dots> = ?S n @ take ?t (H (key @ ?h @ ?S n))" using True short t out less.prems(1) by (simp add: blit_def H)
      finally show ?thesis using short True less.prems(2) by (simp add: key_stream_step len)
    next
      case False
      then have "take (Suc n * ?d) ?o = take (n * ?d) block @ take ?t (H (key @ ?h @ ?S n))"
        using take_blit_through [of "n * ?d" block "take ?t (H (key @ ?h @ ?S n))"] t less.prems(1) True
        by (simp add: add.commute)
      with False out less.prems(2) show ?thesis by (simp add: key_stream_step len H)
    qed
    with less.hyps [OF _ lo, of "Suc n"] True assms(2) have
      "derive_loop True lib crypto key ?o (Suc n * ?d) requested_len = Some (take requested_len (?S k), 0)"
      by simp
    with True assms(3) out chain [of "[key, ?h, ?S n]"] show ?thesis
      by (subst derive_loop.simps) (simp add: mac_chain add.commute)
  qed
qed

text \<open>C11: the derivation returns, and gives the first bytes of the key stream of RFC 4253: for every length asked for, a
  hash that is extended by hashing all the bytes so far, started with the letter and the session identifier.\<close>

theorem sshkdf_derive_key_stream:
  assumes "hash_library lib (kdf_digest_type crypto) H (kdf_digest_len crypto)" and "0 < kdf_digest_len crypto"
    and "kdf_digest_len crypto \<le> DIGEST_MAX_LEN" and "length (kdf_secret_hash crypto) = kdf_digest_len crypto"
    and "length output = requested_len" and "requested_len \<le> k * kdf_digest_len crypto"
  shows "sshkdf_derive_key True lib crypto key X output requested_len = Some
    (take requested_len (key_stream H key (kdf_secret_hash crypto) X (kdf_session_id crypto) k), 0)"
proof -
  let ?d = "kdf_digest_len crypto" and ?h = "kdf_secret_hash crypto" and ?sid = "kdf_session_id crypto"
  let ?S = "key_stream H key ?h X ?sid" and ?m = "if requested_len < ?d then requested_len else ?d"
  have H: "\<And>m. length (H m) = ?d" and chain: "\<And>ms. hash_chain lib (kdf_digest_type crypto) ms = Some (H (concat ms))"
    using assms(1) by (auto simp: hash_library_def)
  have start: "sshkdf_derive_key True lib crypto key X output requested_len =
      derive_loop True lib crypto key (blit 0 (take ?m (H (key @ ?h @ [X] @ ?sid))) output) ?m requested_len"
    using assms(3,4) chain [of "[key, ?h, [X], ?sid]"] by (simp add: sshkdf_derive_key_def mac_chain Let_def)
  let ?o = "blit 0 (take ?m (H (key @ ?h @ [X] @ ?sid))) output"
  show ?thesis
  proof (cases "requested_len < ?d")
    case True
    have k: "0 < k \<or> requested_len = 0" using assms(6) by (cases k) auto
    then have "take requested_len (?S k) = take requested_len (?S 1)"
      using take_key_stream [OF H, of 1 k requested_len] True by auto
    with True assms(5) show ?thesis unfolding start
      by (subst derive_loop.simps) (simp add: blit_def H)
  next
    case False
    then have "length ?o = requested_len" using assms(5) H by (subst length_blit) auto
    moreover have "take (1 * ?d) ?o = take requested_len (?S 1)" using False H by (simp add: blit_def)
    ultimately have "derive_loop True lib crypto key ?o (1 * ?d) requested_len = Some (take requested_len (?S k), 0)"
      by (intro derive_loop_stream [OF assms(1,2,4,6)]) simp_all
    with False show ?thesis unfolding start by simp
  qed
qed

text \<open>A library whose hash is the sum and the length.\<close>

definition sum_sha :: "bytes sha_lib" where
  "sum_sha = \<lparr>sha_init = (\<lambda>_. Some []), sha_update = (\<lambda>_ c m. Some (c @ m)),
     sha_final = (\<lambda>_ c. Some [sum_list c, of_nat (length c)])\<rparr>"

lemma sum_sha: "hash_library sum_sha type (\<lambda>m. [sum_list m, of_nat (length m)]) 2"
proof -
  have "foldl (\<lambda>c m. c \<bind> (\<lambda>c. sha_update sum_sha type c m)) (Some c) ms = Some (c @ concat ms)" for c ms
    by (induction ms arbitrary: c) (simp_all add: sum_sha_def)
  then show ?thesis by (simp add: hash_library_def hash_chain_def) (simp add: sum_sha_def)
qed

theorem sshkdf_derive_key_stream_witness:
  "sshkdf_derive_key True sum_sha \<lparr>kdf_digest_type = SSH_KDF_SHA256, kdf_digest_len = 2, kdf_secret_hash = [1, 2],
     kdf_session_id = [3]\<rparr> [5] 0x41 [0, 0, 0, 0, 0] 5 = Some ([76, 5, 89, 5, 183], 0)"
proof -
  have "take 5 (key_stream (\<lambda>m. [sum_list m, of_nat (length m)]) [5] [1, 2] 0x41 [3] 3) = [76, 5, 89, 5, 183]" by code_simp
  with sshkdf_derive_key_stream [of sum_sha "\<lparr>kdf_digest_type = SSH_KDF_SHA256, kdf_digest_len = 2, kdf_secret_hash = [1, 2],
     kdf_session_id = [3]\<rparr>" "\<lambda>m. [sum_list m, of_nat (length m)]" "[0, 0, 0, 0, 0]" 5 3 "[5]" "0x41"]
  show ?thesis by (simp add: sum_sha DIGEST_MAX_LEN_def)
qed

section \<open>Both sides have the same keys\<close>

lemma string_bytes:
  assumes "string_wf s"
  shows "take (unat (ssh_string_len (Some s)) + 4) (le32 (str_size s) @ str_data s) = string_image (string_content s)"
proof -
  have "of_nat (length (string_content s)) = ntohl (str_size s)" "take (length (string_content s)) (str_data s) = string_content s"
    using assms by (simp_all add: string_wf_def string_content_def)
  then show ?thesis
    by (simp add: unat_ssh_string_len [OF assms] string_image_def add.commute [of _ 4] take_4_le32 be32_htonl)
qed

definition secret_content :: "'bn bignum_lib \<Rightarrow> 'bn key_session \<Rightarrow> bytes" where
  "secret_content lib s =
    (if key_kex_type s \<in> {SSH_KEX_SNTRUP761X25519_SHA512, SSH_KEX_SNTRUP761X25519_SHA512_OPENSSH_COM}
     then bn_bytes lib (key_shared_secret s) (kdf_digest_len (key_kdf s))
     else if key_kex_type s \<in> {SSH_KEX_MLKEM768X25519_SHA256, SSH_KEX_MLKEM768NISTP256_SHA256, SSH_KEX_MLKEM1024NISTP384_SHA384}
     then string_content (the (key_hybrid_secret s))
     else bn_bytes lib (key_shared_secret s) 0)"

lemma string_copy_content:
  assumes "allocator mem" and "ssh_string_copy mem (Some s) = Some t" and "string_wf s"
  shows "string_wf t" and "string_content t = string_content s"
proof -
  let ?n = "length (string_content s)"
  from assms(2) obtain new where new: "ssh_string_new mem (ssh_string_len (Some s)) = Some new"
    and t: "t = new\<lparr>str_data := blit 0 (take ?n (str_data s)) (str_data new)\<rparr>"
    by (auto simp: ssh_string_copy_def Let_def unat_ssh_string_len [OF assms(3)] split: option.splits)
  note n = allocator.ssh_string_new_wf [OF assms(1) new, unfolded unat_ssh_string_len [OF assms(3)]]
  have c: "take ?n (str_data s) = string_content s" "length (string_content s) = ?n"
    using assms(3) by (auto simp: string_wf_def string_content_def)
  show "string_wf t" using n(1,3) by (simp add: t c(1) string_wf_def length_blit)
  have "string_content t = take ?n (blit 0 (string_content s) (str_data new))"
    using n(3) by (simp only: string_content_def [of t]) (simp add: t c(1))
  then show "string_content t = string_content s" by (simp add: take_blit_0)
qed

lemma secret_string:
  assumes "pack_setting mem lib v" and "shared_secret_string mem lib s = Some k"
    and "\<forall>h. key_hybrid_secret s = Some h \<longrightarrow> string_wf h" and "kdf_digest_len (key_kdf s) \<le> DIGEST_MAX_LEN"
  shows "string_wf k \<and> string_content k = secret_content lib s"
proof -
  have m: "allocator mem" using assms(1) by (simp add: pack_setting_def)
  have "kdf_digest_len (key_kdf s) < 18446744073709551616" using assms(4) by (simp add: DIGEST_MAX_LEN_def)
  then have big: "make_bignum_string mem lib b (kdf_digest_len (key_kdf s)) = Some k \<Longrightarrow>
      string_wf k \<and> string_content k = bn_bytes lib b (kdf_digest_len (key_kdf s))"
    "make_bignum_string mem lib b 0 = Some k \<Longrightarrow> string_wf k \<and> string_content k = bn_bytes lib b 0" for b
    using pack_setting.bignum_string [OF assms(1)] by simp_all
  have "ssh_string_copy mem (key_hybrid_secret s) = Some k \<Longrightarrow>
      string_wf k \<and> string_content k = string_content (the (key_hybrid_secret s))"
    using string_copy_content [OF m, of _ k] assms(3) by (cases "key_hybrid_secret s") (simp_all add: ssh_string_copy_def)
  with assms(2) big show ?thesis
    unfolding shared_secret_string_def secret_content_def ssh_make_padded_bignum_string_def ssh_make_bignum_string_def
    by (cases "key_kex_type s \<in> {SSH_KEX_SNTRUP761X25519_SHA512, SSH_KEX_SNTRUP761X25519_SHA512_OPENSSH_COM}"; cases
        "key_kex_type s \<in> {SSH_KEX_MLKEM768X25519_SHA256, SSH_KEX_MLKEM768NISTP256_SHA256, SSH_KEX_MLKEM1024NISTP384_SHA384}")
      (simp_all only: if_True if_False simp_thms)
qed

text \<open>The two ends of a connection after the exchange of the secrets.\<close>

definition mirrored :: "'bn key_session \<Rightarrow> 'bn key_session \<Rightarrow> bool" where
  "mirrored c v \<longleftrightarrow> key_client c \<and> \<not> key_client v \<and> key_kex_type v = key_kex_type c \<and> key_shared_secret v = key_shared_secret c \<and>
     map_option string_content (key_hybrid_secret v) = map_option string_content (key_hybrid_secret c) \<and>
     key_kdf v = key_kdf c \<and> key_in_keysize v = key_out_keysize c \<and> key_out_keysize v = key_in_keysize c \<and>
     key_in_hmac v = key_out_hmac c \<and> key_out_hmac v = key_in_hmac c"

lemma secret_live:
  assumes "mirrored c v" and "shared_secret_string mem lib c \<noteq> None" and "\<forall>n. mem' n \<noteq> None"
    and "\<forall>h. key_hybrid_secret v = Some h \<longrightarrow> string_wf h"
  shows "shared_secret_string mem' lib v \<noteq> None"
proof -
  have new: "ssh_string_new mem' sz \<noteq> None" if "ssh_string_new mem sz \<noteq> None" for sz
    using that assms(3) by (auto simp: ssh_string_new_def split: if_splits option.splits)
  have big: "make_bignum_string mem' lib b n \<noteq> None" if "make_bignum_string mem lib b n \<noteq> None" for b n
  proof -
    define pad where "pad = (if n = 0 then if bignum_num_bits lib b mod 8 = 0 \<and>
      bignum_is_bit_set lib b (int (bignum_num_bits lib b) - 1) then 1 else 0 else n - bignum_num_bytes lib b)"
    have "make_bignum_string m lib b n = None \<longleftrightarrow> n \<noteq> 0 \<and> bignum_num_bytes lib b > n \<or>
        ssh_string_new m (of_nat (bignum_num_bytes lib b + pad)) = None" for m
      by (auto simp: make_bignum_string_def Let_def simp flip: pad_def split: option.split)
    note this [of mem] this [of mem']
    with that new [of "of_nat (bignum_num_bytes lib b + pad)"] show ?thesis by auto
  qed
  have "ssh_string_new mem' (ssh_string_len t) \<noteq> None" for t
    using assms(3) ssh_string_len_le [of t]
    by (auto simp: ssh_string_new_def STRING_SIZE_MAX_def word_less_nat_alt split: option.splits)
  then have copied: "ssh_string_copy mem' (Some t) \<noteq> None" for t
    by (auto simp: ssh_string_copy_def Let_def split: option.split)
  have copy: "ssh_string_copy mem' (key_hybrid_secret v) \<noteq> None" if "ssh_string_copy mem (key_hybrid_secret c) \<noteq> None"
    using that assms(1) copied by (cases "key_hybrid_secret c"; cases "key_hybrid_secret v") (auto simp: mirrored_def ssh_string_copy_def)
  from assms(1,2) big copy show ?thesis
    by (auto simp: mirrored_def shared_secret_string_def ssh_make_padded_bignum_string_def ssh_make_bignum_string_def)
qed

lemma secret_mirrored: "mirrored c v \<Longrightarrow> shared_secret_string mem lib c \<noteq> None \<Longrightarrow> secret_content lib v = secret_content lib c"
  by (auto simp: mirrored_def secret_content_def shared_secret_string_def ssh_string_copy_def split: option.splits)

text \<open>C7: both sides derive the same six keys, and each encrypts with what the other decrypts with: if the client has its
  keys then the server, with the ciphers and MACs of its directions the other way round, gets the keys that match.\<close>

theorem session_keys_agree:
  assumes "mirrored c v" and "pack_setting mem lib val" and "pack_setting mem' lib val" and "\<forall>n. mem' n \<noteq> None"
    and "\<forall>h. key_hybrid_secret c = Some h \<longrightarrow> string_wf h" and "\<forall>h. key_hybrid_secret v = Some h \<longrightarrow> string_wf h"
    and "kdf_digest_len (key_kdf c) \<le> DIGEST_MAX_LEN"
    and "ssh_generate_session_keys mem lib kdf c = (c', 0)"
  shows "\<exists>v'. ssh_generate_session_keys mem' lib kdf v = (v', 0) \<and>
    key_decryptIV v' = key_encryptIV c' \<and> key_encryptIV v' = key_decryptIV c' \<and>
    key_decryptkey v' = key_encryptkey c' \<and> key_encryptkey v' = key_decryptkey c' \<and>
    key_decryptMAC v' = key_encryptMAC c' \<and> key_encryptMAC v' = key_decryptMAC c'"
proof -
  from assms(8) obtain k where k: "shared_secret_string mem lib c = Some k"
    by (auto simp: ssh_generate_session_keys_def split: option.splits)
  with secret_live [OF assms(1) _ assms(4,6)] obtain k' where k': "shared_secret_string mem' lib v = Some k'" by blast
  have kdf: "key_kdf v = key_kdf c" using assms(1) by (simp add: mirrored_def)
  have s: "string_wf k" "string_content k = secret_content lib c" using secret_string [OF assms(2) k assms(5,7)] by simp_all
  have s': "string_wf k'" "string_content k' = secret_content lib c"
    using secret_string [OF assms(3) k' assms(6)] assms(7) secret_mirrored [OF assms(1), of mem lib] k kdf by simp_all
  have "mem' n \<noteq> None" "None \<noteq> mem' n" for n using assms(4) by (metis, metis)
  then show ?thesis
    using assms(1,8) k k' string_bytes [OF s(1)] string_bytes [OF s'(1)] s(2) s'(2)
    by (auto simp: ssh_generate_session_keys_def mirrored_def Let_def split: option.splits if_splits Option.bind_splits)
qed

definition sample_kdf :: "kdf_crypto \<Rightarrow> bytes \<Rightarrow> u8 \<Rightarrow> nat \<Rightarrow> bytes option" where
  "sample_kdf crypto key X n = Some (take n (X # rev key @ kdf_secret_hash crypto @ replicate n 0))"

definition sample_keys :: "bool \<Rightarrow> u64 key_session" where
  "sample_keys client = \<lparr>key_client = client, key_kex_type = SSH_KEX_MLKEM768X25519_SHA256, key_shared_secret = 0,
     key_hybrid_secret = Some \<lparr>str_size = 0x02000000, str_data = [7, 8, 0]\<rparr>, key_kdf = \<lparr>kdf_digest_type = SSH_KDF_SHA256, kdf_digest_len = 2, kdf_secret_hash = [1, 2], kdf_session_id = [3]\<rparr>,
     key_in_keysize = (if client then 16 else 32), key_out_keysize = (if client then 32 else 16), key_in_hmac = SSH_HMAC_NONE,
     key_out_hmac = SSH_HMAC_NONE, key_encryptIV = [], key_decryptIV = [], key_encryptkey = [], key_decryptkey = [],
     key_encryptMAC = [], key_decryptMAC = []\<rparr>"

theorem session_keys_agree_witness:
  "\<exists>c' v'. ssh_generate_session_keys endless_mem word_bignum sample_kdf (sample_keys True) = (c', 0) \<and>
    ssh_generate_session_keys endless_mem word_bignum sample_kdf (sample_keys False) = (v', 0) \<and>
    key_encryptkey c' = [67, 8, 7, 2] \<and> key_decryptkey v' = [67, 8, 7, 2]"
proof -
  have ps: "pack_setting endless_mem word_bignum unat"
    using endless_mem.allocator_axioms sample_pack.pack_setting_axioms by (simp add: pack_setting_def)
  have "(case ssh_generate_session_keys endless_mem word_bignum sample_kdf (sample_keys True) of (c', rc) \<Rightarrow> (key_encryptkey c', rc)) =
    ([67, 8, 7, 2], 0)" by code_simp
  then obtain c' where c: "ssh_generate_session_keys endless_mem word_bignum sample_kdf (sample_keys True) = (c', 0)"
    "key_encryptkey c' = [67, 8, 7, 2]" by (auto split: prod.splits)
  have m: "mirrored (sample_keys True) (sample_keys False)" by (simp add: mirrored_def sample_keys_def)
  have w: "string_wf \<lparr>str_size = 0x02000000, str_data = [7, 8, 0]\<rparr>" using sample_string_wf .
  have h: "\<forall>h. key_hybrid_secret (sample_keys b) = Some h \<longrightarrow> string_wf h" for b using w by (simp add: sample_keys_def)
  have l: "\<forall>n. endless_mem n \<noteq> None" "kdf_digest_len (key_kdf (sample_keys True)) \<le> DIGEST_MAX_LEN"
    by (simp_all add: endless_mem_def sample_keys_def DIGEST_MAX_LEN_def)
  from session_keys_agree [OF m ps ps l(1) h h l(2) c(1)] c show ?thesis by auto
qed

end
