(* ===== verification/Auth.thy ===== *)
theory Auth
  imports Channels Text
begin

text \<open>
  The authentication of a client (\<open>auth.c\<close>, without GSSAPI, the agent and the automatic choice of keys) and the
  service request in front of it (\<open>client.c\<close>): the calls that send a request and wait for the answer, the handlers
  of the answers, and the dialog of the keyboard-interactive method.

  A call takes the turns of the event loop that happen while it waits and hands on those it has not used, as in
  \<open>Channels\<close>. The packet a handler gets is the in buffer. A user name or a password is the memory block of a C string.
  What the code asks of \<open>pki.c\<close> about a key is the record \<open>pubkey_env\<close>. \<open>None\<close> is a crash, or a call that
  does not return.
\<close>

section \<open>The environment\<close>

abbreviation (input) SSH_AUTH_SUCCESS :: int where "SSH_AUTH_SUCCESS \<equiv> 0"
abbreviation (input) SSH_AUTH_DENIED :: int where "SSH_AUTH_DENIED \<equiv> 1"
abbreviation (input) SSH_AUTH_PARTIAL :: int where "SSH_AUTH_PARTIAL \<equiv> 2"
abbreviation (input) SSH_AUTH_INFO :: int where "SSH_AUTH_INFO \<equiv> 3"
abbreviation (input) SSH_AUTH_AGAIN :: int where "SSH_AUTH_AGAIN \<equiv> 4"
abbreviation (input) SSH_AUTH_ERROR :: int where "SSH_AUTH_ERROR \<equiv> - 1"

abbreviation (input) SSH_AUTH_METHOD_UNKNOWN :: u32 where "SSH_AUTH_METHOD_UNKNOWN \<equiv> 0x00"
abbreviation (input) SSH_AUTH_METHOD_NONE :: u32 where "SSH_AUTH_METHOD_NONE \<equiv> 0x01"
abbreviation (input) SSH_AUTH_METHOD_PASSWORD :: u32 where "SSH_AUTH_METHOD_PASSWORD \<equiv> 0x02"
abbreviation (input) SSH_AUTH_METHOD_PUBLICKEY :: u32 where "SSH_AUTH_METHOD_PUBLICKEY \<equiv> 0x04"
abbreviation (input) SSH_AUTH_METHOD_HOSTBASED :: u32 where "SSH_AUTH_METHOD_HOSTBASED \<equiv> 0x08"
abbreviation (input) SSH_AUTH_METHOD_INTERACTIVE :: u32 where "SSH_AUTH_METHOD_INTERACTIVE \<equiv> 0x10"

definition KBDINT_MAX_PROMPT :: u32 where "KBDINT_MAX_PROMPT = 256"

text \<open>The sizes of \<open>struct ssh_kbdint_struct\<close> and of a pointer.\<close>

definition sizeof_ssh_kbdint :: nat where "sizeof_ssh_kbdint = 48"
definition sizeof_pointer :: nat where "sizeof_pointer = 8"

record auth_env =
  aut_chan :: channel_env
  aut_username :: "bytes option"

type_synonym auth_result = "(ssh_session \<times> int \<times> poll_turn list) option"

section \<open>Waiting for an answer\<close>

definition ssh_service_request_termination :: "ssh_session \<Rightarrow> bool" where
  "ssh_service_request_termination session \<longleftrightarrow>
     ses_session_state session = SSH_SESSION_STATE_ERROR \<or> ses_auth_service_state session \<noteq> SSH_AUTH_SERVICE_SENT"

text \<open>The label \<open>pending\<close>: a denial leaves the result of the wait.\<close>

definition service_answer :: "auth_env \<Rightarrow> poll_turn list \<Rightarrow> ssh_session \<Rightarrow> auth_result" where
  "service_answer env turns session = do {
     (session, rc, turns) \<leftarrow> ssh_handle_packets_termination (aut_chan env) SSH_TIMEOUT_USER
        (Some \<circ> ssh_service_request_termination) turns session;
     Some (if rc = SSH_ERROR then (session, SSH_ERROR, turns)
       else case ses_auth_service_state session of
         SSH_AUTH_SERVICE_DENIED \<Rightarrow> (ssh_set_error SSH_FATAL session, rc, turns)
       | SSH_AUTH_SERVICE_ACCEPTED \<Rightarrow> (session, SSH_OK, turns)
       | SSH_AUTH_SERVICE_SENT \<Rightarrow> (session, SSH_AGAIN, turns)
       | SSH_AUTH_SERVICE_NONE \<Rightarrow> (session, SSH_ERROR, turns)) }"

definition ssh_service_request :: "auth_env \<Rightarrow> string \<Rightarrow> poll_turn list \<Rightarrow> ssh_session \<Rightarrow> auth_result" where
  "ssh_service_request env service turns session =
    (if ses_auth_service_state session \<noteq> SSH_AUTH_SERVICE_NONE then service_answer env turns session
     else do {
       (session, rc) \<leftarrow> pack_out (aut_chan env) ''bs'' [VA_int (ucast SSH2_MSG_SERVICE_REQUEST),
          VA_pointer (Some (c_string service))] session;
       (if rc \<noteq> SSH_OK then Some (ssh_set_error SSH_FATAL session, SSH_ERROR, turns)
        else do {
          (session, rc) \<leftarrow> ssh_packet_send (chn_send (aut_chan env))
             (session\<lparr>ses_auth_service_state := SSH_AUTH_SERVICE_SENT\<rparr>);
          (if rc = SSH_ERROR then Some (ssh_set_error SSH_FATAL session, SSH_ERROR, turns)
           else service_answer env turns session) }) })"

definition ssh_userauth_request_service :: "auth_env \<Rightarrow> poll_turn list \<Rightarrow> ssh_session \<Rightarrow> auth_result" where
  "ssh_userauth_request_service env turns session = ssh_service_request env ''ssh-userauth'' turns session"

definition ssh_auth_response_termination :: "ssh_session \<Rightarrow> bool" where
  "ssh_auth_response_termination session \<longleftrightarrow> ses_auth_state session \<notin>
     {SSH_AUTH_STATE_NONE, SSH_AUTH_STATE_KBDINT_SENT, SSH_AUTH_STATE_GSSAPI_REQUEST_SENT, SSH_AUTH_STATE_GSSAPI_TOKEN,
      SSH_AUTH_STATE_GSSAPI_MIC_SENT, SSH_AUTH_STATE_GSSAPI_KEYEX_MIC_SENT, SSH_AUTH_STATE_PUBKEY_AUTH_SENT,
      SSH_AUTH_STATE_PUBKEY_OFFER_SENT, SSH_AUTH_STATE_PASSWORD_AUTH_SENT, SSH_AUTH_STATE_AUTH_NONE_SENT}"

definition ssh_userauth_get_response :: "auth_env \<Rightarrow> poll_turn list \<Rightarrow> ssh_session \<Rightarrow> auth_result" where
  "ssh_userauth_get_response env turns session = do {
     (session, rc, turns) \<leftarrow> ssh_handle_packets_termination (aut_chan env) SSH_TIMEOUT_USER
        (Some \<circ> ssh_auth_response_termination) turns session;
     Some (session,
       if rc = SSH_ERROR then SSH_AUTH_ERROR
       else if \<not> ssh_auth_response_termination session then SSH_AUTH_AGAIN
       else case ses_auth_state session of
         SSH_AUTH_STATE_ERROR \<Rightarrow> SSH_AUTH_ERROR
       | SSH_AUTH_STATE_FAILED \<Rightarrow> SSH_AUTH_DENIED
       | SSH_AUTH_STATE_INFO \<Rightarrow> SSH_AUTH_INFO
       | SSH_AUTH_STATE_PARTIAL \<Rightarrow> SSH_AUTH_PARTIAL
       | SSH_AUTH_STATE_PK_OK \<Rightarrow> SSH_AUTH_SUCCESS
       | SSH_AUTH_STATE_SUCCESS \<Rightarrow> SSH_AUTH_SUCCESS
       | _ \<Rightarrow> SSH_AUTH_ERROR, turns) }"

section \<open>Handlers\<close>

definition ssh_packet_service_accept :: "ssh_session \<Rightarrow> ssh_session" where
  "ssh_packet_service_accept session = session\<lparr>ses_auth_service_state := SSH_AUTH_SERVICE_ACCEPTED\<rparr>"

definition ssh_packet_userauth_banner :: "auth_env \<Rightarrow> ssh_session \<Rightarrow> ssh_session option" where
  "ssh_packet_userauth_banner env session = do {
     packet \<leftarrow> ses_in_buffer session;
     Some (case ssh_buffer_get_ssh_string (chn_mem (aut_chan env)) packet of
       (packet, banner) \<Rightarrow> session\<lparr>ses_in_buffer := Some packet,
         ses_banner := (if banner = None then ses_banner session else banner)\<rparr>) }"

text \<open>\<open>strstr\<close>, as a truth value.\<close>

fun occurs :: "string \<Rightarrow> string \<Rightarrow> bool" where
  "occurs p [] \<longleftrightarrow> p = []"
| "occurs p (c # s) \<longleftrightarrow> take (length p) (c # s) = p \<or> occurs p s"

definition methods_named :: "string \<Rightarrow> u32" where
  "methods_named auth_methods =
     (if occurs ''password'' auth_methods then SSH_AUTH_METHOD_PASSWORD else 0) OR
     (if occurs ''keyboard-interactive'' auth_methods then SSH_AUTH_METHOD_INTERACTIVE else 0) OR
     (if occurs ''publickey'' auth_methods then SSH_AUTH_METHOD_PUBLICKEY else 0) OR
     (if occurs ''hostbased'' auth_methods then SSH_AUTH_METHOD_HOSTBASED else 0)"

definition ssh_packet_userauth_failure :: "auth_env \<Rightarrow> ssh_session \<Rightarrow> ssh_session option" where
  "ssh_packet_userauth_failure env session = do {
     (session, args, rc) \<leftarrow> unpack_in (aut_chan env) ''sb'' [Out_cstring None, Out_u8 0] session;
     session \<leftarrow> (if rc \<noteq> SSH_OK
       then Some ((ssh_set_error SSH_FATAL session)\<lparr>ses_auth_state := SSH_AUTH_STATE_ERROR\<rparr>)
       else do {
         auth_methods \<leftarrow> out_cstring (args ! 0);
         let session = (if out_u8 (args ! 1) \<noteq> 0 then session\<lparr>ses_auth_state := SSH_AUTH_STATE_PARTIAL\<rparr>
               else ssh_set_error SSH_REQUEST_DENIED (session\<lparr>ses_auth_state := SSH_AUTH_STATE_FAILED\<rparr>));
         Some (session\<lparr>ses_auth_supported_methods := methods_named (bytes_text auth_methods)\<rparr>) });
     Some (session\<lparr>ses_auth_current_method := SSH_AUTH_METHOD_UNKNOWN\<rparr>) }"

definition ssh_packet_userauth_success :: "ssh_session \<Rightarrow> ssh_session" where
  "ssh_packet_userauth_success session =
    (let session = session\<lparr>ses_auth_state := SSH_AUTH_STATE_SUCCESS,
           ses_session_state := SSH_SESSION_STATE_AUTHENTICATED,
           ses_flags := ses_flags session OR SSH_SESSION_FLAG_AUTHENTICATED\<rparr>;
         session = (case ssh_packet_get_current_crypto session SSH_DIRECTION_OUT of None \<Rightarrow> session
           | Some slot \<Rightarrow> crypto_update slot
               (\<lambda>c. if cry_delayed_compress_out c then c\<lparr>cry_do_compress_out := True\<rparr> else c) session);
         session = (case ssh_packet_get_current_crypto session SSH_DIRECTION_IN of None \<Rightarrow> session
           | Some slot \<Rightarrow> crypto_update slot
               (\<lambda>c. if cry_delayed_compress_in c then c\<lparr>cry_do_compress_in := True\<rparr> else c) session)
     in session\<lparr>ses_error := None, ses_auth_current_method := SSH_AUTH_METHOD_UNKNOWN\<rparr>)"

section \<open>Keyboard-interactive: the questions\<close>

definition ssh_kbdint_new :: "allocator \<Rightarrow> ssh_kbdint option" where
  "ssh_kbdint_new mem = (if mem sizeof_ssh_kbdint = None then None
     else Some \<lparr>kbd_nprompts = 0, kbd_nanswers = 0, kbd_name = None, kbd_instruction = None, kbd_prompts = None,
       kbd_echo = None, kbd_answers = None\<rparr>)"

text \<open>The prompts and answers are burnt before they are freed, without a test for \<open>NULL\<close>.\<close>

definition ssh_kbdint_clean :: "ssh_kbdint \<Rightarrow> ssh_kbdint option" where
  "ssh_kbdint_clean kbd =
    (if (case kbd_prompts kbd of None \<Rightarrow> False | Some ps \<Rightarrow> None \<in> set (take (unat (kbd_nprompts kbd)) ps)) \<or>
        (case kbd_answers kbd of None \<Rightarrow> False | Some as \<Rightarrow> None \<in> set (take (unat (kbd_nanswers kbd)) as)) then None
     else Some \<lparr>kbd_nprompts = 0, kbd_nanswers = 0, kbd_name = None, kbd_instruction = None, kbd_prompts = None,
       kbd_echo = None, kbd_answers = None\<rparr>)"

text \<open>The loop over the prompts; false where the packet is too short.\<close>

fun read_prompts :: "auth_env \<Rightarrow> nat list \<Rightarrow> bytes option list \<Rightarrow> bytes \<Rightarrow> ssh_session \<Rightarrow>
    (ssh_session \<times> bytes option list \<times> bytes \<times> bool) option" where
  "read_prompts env [] prompts echo session = Some (session, prompts, echo, True)"
| "read_prompts env (i # is) prompts echo session = do {
     (session, args, rc) \<leftarrow> unpack_in (aut_chan env) ''sb'' [Out_cstring (prompts ! i), Out_u8 (echo ! i)] session;
     let prompts = prompts[i := out_cstring (args ! 0)];
     let echo = echo[i := out_u8 (args ! 1)];
     (if rc = SSH_ERROR then Some (session, prompts, echo, False) else read_prompts env is prompts echo session) }"

fun out_string :: "u64 out_arg \<Rightarrow> ssh_string option" where "out_string (Out_string s) = s" | "out_string _ = None"

definition ssh_packet_userauth_info_request :: "auth_env \<Rightarrow> ssh_session \<Rightarrow> ssh_session option" where
  "ssh_packet_userauth_info_request env session =
    (let mem = chn_mem (aut_chan env); refuse = (\<lambda>session. (ssh_set_error SSH_FATAL session)\<lparr>ses_kbdint := None\<rparr>)
     in case (case ses_kbdint session of None \<Rightarrow> Some (ssh_kbdint_new mem) | Some kbd \<Rightarrow> map_option Some (ssh_kbdint_clean kbd)) of
       None \<Rightarrow> None
     | Some None \<Rightarrow> Some (ssh_set_error SSH_FATAL session)
     | Some (Some kbd) \<Rightarrow> do {
         (session, args, rc) \<leftarrow> unpack_in (aut_chan env) ''ssSd''
            [Out_cstring None, Out_cstring None, Out_string None, Out_u32 0] session;
         let nprompts = out_u32 (args ! 3);
         (if rc \<noteq> SSH_OK then Some (refuse session)
          else if nprompts > KBDINT_MAX_PROMPT then Some (refuse session)
          else if mem (sizeof_pointer * unat nprompts) = None then Some (refuse session)
          else if mem (unat nprompts) = None then Some (refuse session)
          else do {
            (session, prompts, echo, whole) \<leftarrow> read_prompts env [0..<unat nprompts]
               (replicate (unat nprompts) None) (replicate (unat nprompts) 0) session;
            Some (if \<not> whole then refuse session
              else session\<lparr>ses_kbdint := Some (kbd\<lparr>kbd_nprompts := nprompts, kbd_nanswers := nprompts,
                       kbd_name := out_cstring (args ! 0), kbd_instruction := out_cstring (args ! 1),
                       kbd_prompts := Some prompts, kbd_echo := Some echo\<rparr>),
                     ses_auth_state := SSH_AUTH_STATE_INFO\<rparr>) }) })"

definition ssh_packet_userauth_pk_ok :: "auth_env \<Rightarrow> ssh_session \<Rightarrow> ssh_session option" where
  "ssh_packet_userauth_pk_ok env session =
    (if ses_auth_state session = SSH_AUTH_STATE_KBDINT_SENT then ssh_packet_userauth_info_request env session
     else if ses_auth_state session = SSH_AUTH_STATE_PUBKEY_OFFER_SENT
     then Some (session\<lparr>ses_auth_state := SSH_AUTH_STATE_PK_OK\<rparr>)
     else Some (session\<lparr>ses_auth_state := SSH_AUTH_STATE_ERROR\<rparr>))"

section \<open>Requests\<close>

definition ssh_userauth_list :: "ssh_session \<Rightarrow> u32" where
  "ssh_userauth_list session = ses_auth_supported_methods session"

text \<open>The labels \<open>pending\<close> and \<open>fail\<close> that end every call.\<close>

definition auth_pending :: "auth_env \<Rightarrow> poll_turn list \<Rightarrow> ssh_session \<Rightarrow> auth_result" where
  "auth_pending env turns session = do {
     (session, rc, turns) \<leftarrow> ssh_userauth_get_response env turns session;
     Some (if rc \<noteq> SSH_AUTH_AGAIN then session\<lparr>ses_pending_call_state := SSH_PENDING_CALL_NONE\<rparr> else session, rc, turns) }"

definition auth_fail :: "auth_env \<Rightarrow> poll_turn list \<Rightarrow> ssh_session \<Rightarrow> auth_result" where
  "auth_fail env turns session = Some (reinit_out (aut_chan env) (ssh_set_error SSH_FATAL session), SSH_AUTH_ERROR, turns)"

text \<open>The sending of a request that is packed, with the states it leaves for the answer.\<close>

definition auth_send :: "auth_env \<Rightarrow> u32 \<Rightarrow> ssh_auth_state \<Rightarrow> ssh_pending_call \<Rightarrow> poll_turn list \<Rightarrow> ssh_session \<Rightarrow> auth_result" where
  "auth_send env method state call turns session = do {
     (session, rc) \<leftarrow> ssh_packet_send (chn_send (aut_chan env)) (session\<lparr>ses_auth_current_method := method,
        ses_auth_state := state, ses_pending_call_state := call\<rparr>);
     (if rc = SSH_ERROR then Some (session, SSH_AUTH_ERROR, turns) else auth_pending env turns session) }"

text \<open>The start of a call: it goes on if it is the pending one, is refused if another is, and asks for the service.\<close>

definition auth_begin :: "auth_env \<Rightarrow> ssh_pending_call \<Rightarrow> poll_turn list \<Rightarrow> ssh_session \<Rightarrow>
    (poll_turn list \<Rightarrow> ssh_session \<Rightarrow> auth_result) \<Rightarrow> auth_result" where
  "auth_begin env call turns session request =
    (if ses_pending_call_state session = call then auth_pending env turns session
     else if ses_pending_call_state session \<noteq> SSH_PENDING_CALL_NONE
     then Some (ssh_set_error SSH_FATAL session, SSH_AUTH_ERROR, turns)
     else do {
       (session, rc, turns) \<leftarrow> ssh_userauth_request_service env turns session;
       (if rc = SSH_AGAIN then Some (session, SSH_AUTH_AGAIN, turns)
        else if rc = SSH_ERROR then Some (session, SSH_AUTH_ERROR, turns)
        else request turns session) })"

definition user_name :: "auth_env \<Rightarrow> bytes option \<Rightarrow> bytes option" where
  "user_name env username = (if username \<noteq> None then username else aut_username env)"

definition ssh_userauth_none :: "auth_env \<Rightarrow> bytes option \<Rightarrow> poll_turn list \<Rightarrow> ssh_session \<Rightarrow> auth_result" where
  "ssh_userauth_none env username turns session =
     auth_begin env SSH_PENDING_CALL_AUTH_NONE turns session (\<lambda>turns session. do {
       (session, rc) \<leftarrow> pack_out (aut_chan env) ''bsss'' [VA_int (ucast SSH2_MSG_USERAUTH_REQUEST),
          VA_pointer (user_name env username), VA_pointer (Some (c_string ''ssh-connection'')),
          VA_pointer (Some (c_string ''none''))] session;
       (if rc < 0 then auth_fail env turns session
        else auth_send env SSH_AUTH_METHOD_NONE SSH_AUTH_STATE_AUTH_NONE_SENT SSH_PENDING_CALL_AUTH_NONE turns session) })"

definition ssh_userauth_password :: "auth_env \<Rightarrow> bytes option \<Rightarrow> bytes option \<Rightarrow> poll_turn list \<Rightarrow> ssh_session \<Rightarrow> auth_result" where
  "ssh_userauth_password env username password turns session =
     auth_begin env SSH_PENDING_CALL_AUTH_PASSWORD turns session (\<lambda>turns session. do {
       (session, rc) \<leftarrow> pack_out (aut_chan env) ''bsssbs'' [VA_int (ucast SSH2_MSG_USERAUTH_REQUEST),
          VA_pointer (user_name env username), VA_pointer (Some (c_string ''ssh-connection'')),
          VA_pointer (Some (c_string ''password'')), VA_int 0, VA_pointer password] session;
       (if rc < 0 then auth_fail env turns session
        else let session = session\<lparr>ses_out_buffer := map_option ssh_buffer_set_secure (ses_out_buffer session)\<rparr>
          in auth_send env SSH_AUTH_METHOD_PASSWORD SSH_AUTH_STATE_PASSWORD_AUTH_SENT SSH_PENDING_CALL_AUTH_PASSWORD
               turns session) })"

section \<open>Public keys\<close>

text \<open>What \<open>pki.c\<close> says of the key in the present session, the public key of the server for the host-bound extension,
  and the signature of what is in the out buffer.\<close>

record pubkey_env =
  pk_valid :: bool
  pk_sig_type :: "ssh_session \<Rightarrow> bytes option"
  pk_algorithm_allowed :: "ssh_session \<Rightarrow> bytes \<Rightarrow> bool"
  pk_size_allowed :: "ssh_session \<Rightarrow> bool"
  pk_blob :: "ssh_string option"
  pk_hostbound :: "ssh_session \<Rightarrow> bool"
  pk_server_blob :: "ssh_session \<Rightarrow> ssh_string option"
  pk_sign :: "ssh_session \<Rightarrow> ssh_string option"

definition add_string_out :: "auth_env \<Rightarrow> ssh_string option \<Rightarrow> ssh_session \<Rightarrow> (ssh_session \<times> int) option" where
  "add_string_out env s session = do {
     out_buffer \<leftarrow> ses_out_buffer session;
     (case ssh_buffer_add_ssh_string (chn_mem (aut_chan env)) out_buffer s of (out_buffer, rc) \<Rightarrow>
        Some (session\<lparr>ses_out_buffer := Some out_buffer\<rparr>, rc)) }"

definition add_hostbound_pubkey :: "auth_env \<Rightarrow> pubkey_env \<Rightarrow> ssh_session \<Rightarrow> (ssh_session \<times> int) option" where
  "add_hostbound_pubkey env pk session =
    (if ses_current_crypto session = None then Some (ssh_set_error SSH_FATAL session, SSH_ERROR)
     else case pk_server_blob pk session of None \<Rightarrow> Some (session, SSH_ERROR)
     | Some s \<Rightarrow> add_string_out env (Some s) session)"

definition build_pubkey_auth_request :: "auth_env \<Rightarrow> pubkey_env \<Rightarrow> bytes option \<Rightarrow> u32 \<Rightarrow> bytes \<Rightarrow> ssh_string \<Rightarrow> ssh_session \<Rightarrow>
    (ssh_session \<times> int) option" where
  "build_pubkey_auth_request env pk username has_signature sig_type_c pubkey_s session = do {
     let auth_method = (if pk_hostbound pk session then ''publickey-hostbound-v00@openssh.com'' else ''publickey'');
     (session, rc) \<leftarrow> pack_out (aut_chan env) ''bsssbsS'' [VA_int (ucast SSH2_MSG_USERAUTH_REQUEST),
        VA_pointer (user_name env username), VA_pointer (Some (c_string ''ssh-connection'')),
        VA_pointer (Some (c_string auth_method)), VA_int has_signature, VA_pointer (Some sig_type_c),
        VA_string (Some pubkey_s)] session;
     (if rc < 0 then Some (session, SSH_ERROR)
      else if pk_hostbound pk session
      then do {
        (session, rc) \<leftarrow> add_hostbound_pubkey env pk session;
        Some (session, if rc < 0 then SSH_ERROR else SSH_OK) }
      else Some (session, SSH_OK)) }"

text \<open>The tests on the algorithm and the size of a key; \<open>None\<close> for a refusal.\<close>

definition usable_sig_type :: "pubkey_env \<Rightarrow> ssh_session \<Rightarrow> bytes option" where
  "usable_sig_type pk session = (case pk_sig_type pk session of None \<Rightarrow> None
     | Some sig_type_c \<Rightarrow> if pk_algorithm_allowed pk session sig_type_c \<and> pk_size_allowed pk session
         then Some sig_type_c else None)"

definition ssh_userauth_try_publickey :: "auth_env \<Rightarrow> bytes option \<Rightarrow> pubkey_env \<Rightarrow> poll_turn list \<Rightarrow> ssh_session \<Rightarrow> auth_result" where
  "ssh_userauth_try_publickey env username pk turns session =
    (if \<not> pk_valid pk then Some (ssh_set_error SSH_FATAL session, SSH_AUTH_ERROR, turns)
     else auth_begin env SSH_PENDING_CALL_AUTH_OFFER_PUBKEY turns session (\<lambda>turns session.
       case usable_sig_type pk session of None \<Rightarrow> Some (ssh_set_error SSH_REQUEST_DENIED session, SSH_AUTH_DENIED, turns)
       | Some sig_type_c \<Rightarrow> (case pk_blob pk of None \<Rightarrow> auth_fail env turns session
         | Some pubkey_s \<Rightarrow> do {
             (session, rc) \<leftarrow> build_pubkey_auth_request env pk username 0 sig_type_c pubkey_s session;
             (if rc < 0 then auth_fail env turns session
              else auth_send env SSH_AUTH_METHOD_PUBLICKEY SSH_AUTH_STATE_PUBKEY_OFFER_SENT
                SSH_PENDING_CALL_AUTH_OFFER_PUBKEY turns session) })))"

definition ssh_userauth_publickey :: "auth_env \<Rightarrow> bytes option \<Rightarrow> pubkey_env \<Rightarrow> poll_turn list \<Rightarrow> ssh_session \<Rightarrow> auth_result" where
  "ssh_userauth_publickey env username pk turns session =
    (if \<not> pk_valid pk then Some (ssh_set_error SSH_FATAL session, SSH_AUTH_ERROR, turns)
     else auth_begin env SSH_PENDING_CALL_AUTH_PUBKEY turns session (\<lambda>turns session.
       case usable_sig_type pk session of None \<Rightarrow> Some (ssh_set_error SSH_REQUEST_DENIED session, SSH_AUTH_DENIED, turns)
       | Some sig_type_c \<Rightarrow> (case pk_blob pk of None \<Rightarrow> auth_fail env turns session
         | Some str \<Rightarrow> do {
             (session, rc) \<leftarrow> build_pubkey_auth_request env pk username 1 sig_type_c str session;
             (if rc < 0 then auth_fail env turns session
              else case pk_sign pk session of None \<Rightarrow> auth_fail env turns session
              | Some str \<Rightarrow> do {
                  (session, rc) \<leftarrow> add_string_out env (Some str) session;
                  (if rc < 0 then auth_fail env turns session
                   else auth_send env SSH_AUTH_METHOD_PUBLICKEY SSH_AUTH_STATE_PUBKEY_AUTH_SENT
                     SSH_PENDING_CALL_AUTH_PUBKEY turns session) }) })))"

section \<open>Keyboard-interactive: the calls\<close>

definition ssh_userauth_kbdint_init :: "auth_env \<Rightarrow> bytes option \<Rightarrow> bytes option \<Rightarrow> poll_turn list \<Rightarrow> ssh_session \<Rightarrow> auth_result" where
  "ssh_userauth_kbdint_init env username submethods turns session =
    (if ses_pending_call_state session = SSH_PENDING_CALL_AUTH_KBDINT_INIT then auth_pending env turns session
     else if ses_pending_call_state session \<noteq> SSH_PENDING_CALL_NONE
     then Some (ssh_set_error SSH_FATAL session, SSH_ERROR, turns)
     else do {
       (session, rc, turns) \<leftarrow> ssh_userauth_request_service env turns session;
       (if rc = SSH_AGAIN then Some (session, SSH_AUTH_AGAIN, turns)
        else if rc \<noteq> SSH_OK then Some (session, SSH_AUTH_ERROR, turns)
        else do {
          (session, rc) \<leftarrow> pack_out (aut_chan env) ''bsssss'' [VA_int (ucast SSH2_MSG_USERAUTH_REQUEST),
             VA_pointer (user_name env username), VA_pointer (Some (c_string ''ssh-connection'')),
             VA_pointer (Some (c_string ''keyboard-interactive'')), VA_pointer (Some (c_string '''')),
             VA_pointer (if submethods \<noteq> None then submethods else Some (c_string ''''))] session;
          (if rc < 0 then auth_fail env turns session
           else auth_send env (ses_auth_current_method session) SSH_AUTH_STATE_KBDINT_SENT
             SSH_PENDING_CALL_AUTH_KBDINT_INIT turns session) }) })"

text \<open>The loop over the answers: one call of \<open>ssh_buffer_pack\<close> for each.\<close>

fun pack_answers :: "auth_env \<Rightarrow> bytes option list option \<Rightarrow> nat list \<Rightarrow> ssh_session \<Rightarrow> (ssh_session \<times> bool) option" where
  "pack_answers env answers [] session = Some (session, True)"
| "pack_answers env answers (i # is) session = do {
     (session, rc) \<leftarrow> pack_out (aut_chan env) ''s''
        [VA_pointer (case answers of Some as \<Rightarrow> (case as ! i of Some a \<Rightarrow> Some a | None \<Rightarrow> Some (c_string ''''))
                     | None \<Rightarrow> Some (c_string ''''))] session;
     (if rc < 0 then Some (session, False) else pack_answers env answers is session) }"

definition ssh_userauth_kbdint_send :: "auth_env \<Rightarrow> poll_turn list \<Rightarrow> ssh_session \<Rightarrow> auth_result" where
  "ssh_userauth_kbdint_send env turns session =
    (if ses_pending_call_state session = SSH_PENDING_CALL_AUTH_KBDINT_SEND then auth_pending env turns session
     else if ses_pending_call_state session \<noteq> SSH_PENDING_CALL_NONE
     then Some (ssh_set_error SSH_FATAL session, SSH_ERROR, turns)
     else do {
       kbd \<leftarrow> ses_kbdint session;
       (session, rc) \<leftarrow> pack_out (aut_chan env) ''bd'' [VA_int (ucast SSH2_MSG_USERAUTH_INFO_RESPONSE),
          VA_int (kbd_nprompts kbd)] session;
       (if rc < 0 then auth_fail env turns session
        else do {
          (session, packed) \<leftarrow> pack_answers env (kbd_answers kbd) [0..<unat (kbd_nprompts kbd)] session;
          (if \<not> packed then auth_fail env turns session
           else auth_send env SSH_AUTH_METHOD_INTERACTIVE SSH_AUTH_STATE_KBDINT_SENT SSH_PENDING_CALL_AUTH_KBDINT_SEND
                  turns (session\<lparr>ses_kbdint := None\<rparr>)) }) })"

definition ssh_userauth_kbdint :: "auth_env \<Rightarrow> bytes option \<Rightarrow> bytes option \<Rightarrow> poll_turn list \<Rightarrow> ssh_session \<Rightarrow> auth_result" where
  "ssh_userauth_kbdint env username submethods turns session =
    (if (ses_pending_call_state session = SSH_PENDING_CALL_NONE \<and> ses_kbdint session = None) \<or>
        ses_pending_call_state session = SSH_PENDING_CALL_AUTH_KBDINT_INIT
     then ssh_userauth_kbdint_init env username submethods turns session
     else if ses_pending_call_state session = SSH_PENDING_CALL_AUTH_KBDINT_SEND \<or> ses_kbdint session \<noteq> None
     then ssh_userauth_kbdint_send env turns session
     else Some (ssh_set_error SSH_FATAL session, SSH_AUTH_ERROR, turns))"

definition ssh_userauth_kbdint_getnprompts :: "ssh_session \<Rightarrow> ssh_session \<times> int" where
  "ssh_userauth_kbdint_getnprompts session = (case ses_kbdint session of
     None \<Rightarrow> (ssh_set_error SSH_FATAL session, SSH_ERROR) | Some kbd \<Rightarrow> (session, uint (kbd_nprompts kbd)))"

definition ssh_userauth_kbdint_getname :: "ssh_session \<Rightarrow> ssh_session \<times> bytes option" where
  "ssh_userauth_kbdint_getname session = (case ses_kbdint session of
     None \<Rightarrow> (ssh_set_error SSH_FATAL session, None) | Some kbd \<Rightarrow> (session, kbd_name kbd))"

definition ssh_userauth_kbdint_getinstruction :: "ssh_session \<Rightarrow> ssh_session \<times> bytes option" where
  "ssh_userauth_kbdint_getinstruction session = (case ses_kbdint session of
     None \<Rightarrow> (ssh_set_error SSH_FATAL session, None) | Some kbd \<Rightarrow> (session, kbd_instruction kbd))"

text \<open>The element of an array behind a pointer: \<open>None\<close> if the pointer is \<open>NULL\<close> or the index out of bounds.\<close>

definition element :: "'a list option \<Rightarrow> u32 \<Rightarrow> 'a option" where
  "element block i = (case block of None \<Rightarrow> None | Some xs \<Rightarrow> if unat i < length xs then Some (xs ! unat i) else None)"

text \<open>The echo flag is written through the pointer \<open>echo\<close>, if it is not \<open>NULL\<close>.\<close>

definition ssh_userauth_kbdint_getprompt :: "ssh_session \<Rightarrow> u32 \<Rightarrow> u8 option \<Rightarrow>
    (ssh_session \<times> u8 option \<times> bytes option) option" where
  "ssh_userauth_kbdint_getprompt session i echo = (case ses_kbdint session of
     None \<Rightarrow> Some (ssh_set_error SSH_FATAL session, echo, None)
   | Some kbd \<Rightarrow>
       if i > kbd_nprompts kbd then Some (ssh_set_error SSH_FATAL session, echo, None)
       else do {
         echo \<leftarrow> (if echo = None then Some None else map_option Some (element (kbd_echo kbd) i));
         prompt \<leftarrow> element (kbd_prompts kbd) i;
         Some (session, echo, prompt) })"

definition ssh_userauth_kbdint_setanswer :: "auth_env \<Rightarrow> ssh_session \<Rightarrow> u32 \<Rightarrow> bytes option \<Rightarrow> (ssh_session \<times> int) option" where
  "ssh_userauth_kbdint_setanswer env session i answer =
    (let mem = chn_mem (aut_chan env) in case (answer, ses_kbdint session) of
       (Some a, Some kbd) \<Rightarrow>
         if i \<ge> kbd_nprompts kbd then Some (ssh_set_error SSH_FATAL session, - 1)
         else (case (case kbd_answers kbd of Some as \<Rightarrow> Some as
               | None \<Rightarrow> if mem (sizeof_pointer * unat (kbd_nprompts kbd)) = None then None
                         else Some (replicate (unat (kbd_nprompts kbd)) None)) of
            None \<Rightarrow> Some (ssh_set_error SSH_FATAL session, - 1)
          | Some as \<Rightarrow>
              if unat i \<ge> length as then None
              else (let copied = (mem (length (takeWhile (\<lambda>b. b \<noteq> 0) a) + 1) \<noteq> None);
                        new = (if copied then Some (takeWhile (\<lambda>b. b \<noteq> 0) a @ [0]) else None);
                        session = session\<lparr>ses_kbdint := Some (kbd\<lparr>kbd_answers := Some (as[unat i := new])\<rparr>)\<rparr>
                    in Some (if copied then (session, 0) else (ssh_set_error SSH_FATAL session, - 1))))
     | _ \<Rightarrow> Some (ssh_set_error SSH_FATAL session, - 1))"

end
