(* ===== verification/PackPlace.thy ===== *)
theory PackPlace
  imports PackProps RecvSpec
begin

text \<open>
  What a call of \<open>ssh_buffer_pack\<close> leaves in the heap. It computes the size of all fields first and makes room once;
  in an empty buffer nothing that it writes is in a block that it frees.
\<close>

section \<open>Fields written in place\<close>

fun plain_field :: "'bn field \<Rightarrow> bool" where
  "plain_field (F_byte _) \<longleftrightarrow> True" | "plain_field (F_dword _) \<longleftrightarrow> True" | "plain_field (F_cstring _) \<longleftrightarrow> True"
| "plain_field _ \<longleftrightarrow> False"

text \<open>\<open>n\<close> bytes were written behind the used ones; no block was freed.\<close>

definition placed :: "ssh_buffer \<Rightarrow> nat \<Rightarrow> ssh_buffer \<Rightarrow> bool" where
  "placed b n b' \<longleftrightarrow> buffer_inv b' \<and> buf_freed b' = buf_freed b \<and> buf_allocated b' = buf_allocated b \<and>
     unat (buf_used b') = unat (buf_used b) + n"

lemma placed_trans: "placed a m b \<Longrightarrow> placed b n c \<Longrightarrow> placed a (m + n) c"
  by (simp add: placed_def)

lemma add_data_place:
  assumes "buffer_inv b" and "unat (buf_used b) + unat n \<le> unat (buf_allocated b)" and "unat n \<le> length d"
  shows "\<exists>b'. ssh_buffer_add_data mem b (Some d) n = (b', 0) \<and> placed b (unat n) b'"
proof -
  have u: "unat (buf_used b + n) = unat (buf_used b) + unat n"
    using assms(2) unat32_less [of "buf_allocated b"] by (intro unat_add32) simp
  then have "\<not> buf_used b + n < n" "\<not> buf_allocated b < buf_used b + n" using assms(2) by (simp_all add: word_less_nat_alt)
  then show ?thesis using assms u
    by (auto simp: ssh_buffer_add_data_def make_room_def placed_def buffer_inv_def length_blit)
qed

lemma pack_one_place:
  assumes "buffer_inv b" and "field_ok f" and "plain_field f"
    and "unat (buf_used b) + length (field_wire lib f) \<le> unat (buf_allocated b)"
  shows "\<exists>b' more. pack_one mem lib (field_char f) b (field_args f @ tail) = Some (0, tail, more, b') \<and>
    Suc more = length (field_args f) \<and> placed b (length (field_wire lib f)) b'"
proof (cases f)
  case (F_byte w)
  with add_data_place [OF assms(1), of 1 "[w]" mem] assms(4) show ?thesis
    by (auto simp: pack_one_def ssh_buffer_add_u8_def)
next
  case (F_dword w)
  with add_data_place [OF assms(1), of 4 "le32 (htonl w)" mem] assms(4) show ?thesis
    by (auto simp: pack_one_def ssh_buffer_add_u32_def)
next
  case (F_cstring bs)
  then have l: "0 \<notin> set bs" "length bs < 4294967296" using assms(2) by simp_all
  have room: "unat (buf_used b) + 4 + length bs \<le> unat (buf_allocated b)"
    using assms(4) by (simp add: F_cstring string_image_def)
  let ?n = "of_nat (length bs) :: u32"
  obtain b1 where b1: "ssh_buffer_add_data mem b (Some (le32 (htonl ?n))) 4 = (b1, 0)" "placed b 4 b1"
    using add_data_place [OF assms(1), of 4 "le32 (htonl ?n)" mem] room by auto
  have n: "unat ?n = length bs" by (rule unat_of_nat32 [OF l(2)])
  obtain b2 where b2: "ssh_buffer_add_data mem b1 (Some (bs @ [0])) ?n = (b2, 0)" "placed b1 (length bs) b2"
    using add_data_place [of b1 ?n "bs @ [0]" mem] b1(2) room n by (auto simp: placed_def)
  from placed_trans [OF b1(2) b2(2)] b1(1) b2(1) l show ?thesis
    by (simp add: F_cstring pack_one_def strlen_block ssh_buffer_add_u32_def string_image_def)
qed (use assms(3) in simp_all)

lemma pack_loop_place:
  assumes "buffer_inv b" and "list_all field_ok fs" and "list_all plain_field fs"
    and "count + length (fields_args fs) \<le> argc" and "fs = [] \<Longrightarrow> rc0 = 0"
    and "unat (buf_used b) + length (fields_wire lib fs) \<le> unat (buf_allocated b)"
  shows "\<exists>b'. pack_loop mem lib argc (map field_char fs) (fields_args fs @ tail) count rc0 b =
      Some (b', Inr (0, tail, count + length (fields_args fs))) \<and> placed b (length (fields_wire lib fs)) b'"
  using assms
proof (induction fs arbitrary: b count rc0)
  case Nil
  then show ?case by (simp add: placed_def)
next
  case (Cons f fs)
  obtain b1 more where one: "pack_one mem lib (field_char f) b (field_args f @ fields_args fs @ tail) =
      Some (0, fields_args fs @ tail, more, b1)" "Suc more = length (field_args f)" and p: "placed b (length (field_wire lib f)) b1"
    using pack_one_place [OF Cons.prems(1), of f lib mem "fields_args fs @ tail"] Cons.prems by auto
  from Cons.IH [of b1 "count + more + 1" 0] Cons.prems p one(2) obtain b' where
    l: "pack_loop mem lib argc (map field_char fs) (fields_args fs @ tail) (count + more + 1) 0 b1 =
      Some (b', Inr (0, tail, count + more + 1 + length (fields_args fs)))" "placed b1 (length (fields_wire lib fs)) b'"
    by (auto simp: placed_def)
  from placed_trans [OF p l(2)] one l(1) Cons.prems(4) show ?case by simp
qed

lemma size_loop_plain:
  assumes "list_all field_ok fs" and "list_all plain_field fs" and "count + length (fields_args fs) \<le> argc"
  shows "pack_size_loop lib argc (map field_char fs) (fields_args fs @ tail) count sz0 =
    Some (Inr (SSH_OK, tail, count + length (fields_args fs), sz0 + of_nat (length (fields_wire lib fs))))"
  using assms
proof (induction fs arbitrary: count sz0)
  case (Cons f fs)
  obtain k where k: "length (field_args f) = Suc k" using length_field_args_pos [of f] by (cases "length (field_args f)") auto
  have "pack_size_one lib (field_char f) (field_args f @ fields_args fs @ tail) =
      Some (SSH_OK, fields_args fs @ tail, k, of_nat (length (field_wire lib f)))"
    using Cons.prems(1,2) k by (cases f) (simp_all add: pack_size_one_def strlen_block string_image_def)
  then show ?case using Cons.IH [of "count + Suc k"] Cons.prems k by (simp add: add.assoc)
qed simp

text \<open>An empty buffer: the block freed, if there is one, is what the buffer held before.\<close>

lemma allocate_place:
  assumes "buffer_inv b" and "buf_used b = 0" and "allocator mem" and "unat n < 0x10000000"
    and "ssh_buffer_allocate_size mem b n = (b', rc)"
  shows "rc = - 1 \<and> (\<exists>k. mem k = None) \<or>
    rc = 0 \<and> buffer_inv b' \<and> buf_used b' = 0 \<and> unat n \<le> unat (buf_allocated b') \<and>
      buf_freed b' \<in> {buf_freed b, buf_data b # buf_freed b}"
proof (cases "buf_allocated b < n")
  case False
  with assms show ?thesis by (auto simp: ssh_buffer_allocate_size_def word_less_nat_alt)
next
  case True
  have p: "buf_pos b = 0" using assms(1,2) by (simp add: buffer_inv_def unat_eq_0)
  have le: "unat (buf_used b) \<le> length (buf_data b)" "unat (buf_used b) \<le> unat n" using assms(2) by simp_all
  from allocator.realloc_cases [OF assms(3) le] show ?thesis
  proof cases
    case 1
    then have "\<exists>k. mem k = None" using realloc_live [of mem n b] assms(4) by (metis minus_equation_iff snd_conv zero_neq_neg_one)
    with 1 True p assms(5) show ?thesis by (simp add: ssh_buffer_allocate_size_def)
  next
    case (2 c)
    with True p assms(2,5) show ?thesis by (auto simp: ssh_buffer_allocate_size_def buffer_inv_def)
  qed
qed

lemma pack_place:
  assumes "buffer_inv b" and "buf_used b = 0" and "list_all field_ok fs" and "list_all plain_field fs" and "fs \<noteq> []"
    and "length (fields_args fs) \<le> 256" and "length (fields_wire lib fs) < 0x10000000" and "allocator mem"
  shows "\<exists>b' rc. ssh_buffer_pack mem lib b (map field_char fs) (fields_args fs) = Some (b', rc) \<and>
    (rc = - 1 \<and> (\<exists>k. mem k = None) \<or> rc = 0 \<and> buf_freed b' \<in> {buf_freed b, buf_data b # buf_freed b})"
proof -
  let ?n = "length (fields_wire lib fs)" and ?tail = "[VA_int SSH_BUFFER_PACK_END]"
  have sz: "pack_size_loop lib (length (fields_args fs)) (map field_char fs) (fields_args fs @ ?tail) 0 0 =
      Some (Inr (SSH_OK, ?tail, length (fields_args fs), of_nat ?n))"
    using size_loop_plain [OF assms(3,4), of 0 "length (fields_args fs)" lib ?tail 0] by simp
  have n: "unat (ucast (of_nat ?n :: u64) :: u32) = ?n"
    using assms(7) by (simp add: unat_ucast_down unat_of_nat64)
  obtain b1 rc1 where a: "ssh_buffer_allocate_size mem b (ucast (of_nat ?n :: u64)) = (b1, rc1)" by fastforce
  have alloc: "ssh_buffer_pack_allocate_va mem lib b (map field_char fs) (length (fields_args fs))
      (fields_args fs @ ?tail) = Some (b1, if rc1 \<noteq> 0 then SSH_ERROR else SSH_OK)"
    by (simp add: ssh_buffer_pack_allocate_va_def sz a)
  from allocate_place [OF assms(1,2,8) _ a] n assms(7)
  consider (fail) "rc1 = - 1" "\<exists>k. mem k = None" | (room) "rc1 = 0" "buffer_inv b1" "buf_used b1 = 0"
    "?n \<le> unat (buf_allocated b1)" "buf_freed b1 \<in> {buf_freed b, buf_data b # buf_freed b}" by auto
  then show ?thesis
  proof cases
    case fail
    with alloc assms(6) show ?thesis by (auto simp: ssh_buffer_pack_def ssh_buffer_pack_argc_def)
  next
    case room
    from pack_loop_place [of b1 fs 0 "length (fields_args fs)" "- 1" lib mem ?tail] room(2-4) assms(3,4,5)
    obtain b2 where "pack_loop mem lib (length (fields_args fs)) (map field_char fs) (fields_args fs @ ?tail) 0 (- 1) b1 =
        Some (b2, Inr (0, ?tail, length (fields_args fs)))" "placed b1 ?n b2" by auto
    with alloc room(1,5) assms(6) show ?thesis
      by (intro exI [of _ b2] exI [of _ 0])
        (simp add: ssh_buffer_pack_def ssh_buffer_pack_argc_def ssh_buffer_pack_va_def placed_def)
  qed
qed

end
