(* ===== verification/AuthProps.thy ===== *)
theory AuthProps
  imports Auth ChannelProps PackPlace
begin

text \<open>
  The properties of the authentication of a client: what the result of a call says of the session, what a
  request puts on the wire and leaves in memory, and the dialog of the keyboard-interactive method.
\<close>

section \<open>The answers a call waits for\<close>

text \<open>The handlers of the table of \<open>packet.c\<close> for the messages of the authentication.\<close>

definition auth_handler :: "auth_env \<Rightarrow> u8 \<Rightarrow> ssh_session \<Rightarrow> ssh_session option" where
  "auth_handler env type session =
    (if type = SSH2_MSG_SERVICE_ACCEPT then Some (ssh_packet_service_accept session)
     else if type = SSH2_MSG_USERAUTH_FAILURE then ssh_packet_userauth_failure env session
     else if type = SSH2_MSG_USERAUTH_SUCCESS then Some (ssh_packet_userauth_success session)
     else if type = SSH2_MSG_USERAUTH_BANNER then ssh_packet_userauth_banner env session
     else if type = SSH2_MSG_USERAUTH_PK_OK then ssh_packet_userauth_pk_ok env session
     else None)"

text \<open>Any packet arrives; if the filter lets it through, its handler runs.\<close>

inductive auth_message :: "auth_env \<Rightarrow> ssh_session \<Rightarrow> ssh_session \<Rightarrow> bool" for env where
  "allowed (env_gssapi (chn_send (aut_chan env))) (s\<lparr>ses_in_packet := p, ses_in_buffer := b\<rparr>) \<Longrightarrow>
   auth_handler env (pkt_type p) (s\<lparr>ses_in_packet := p, ses_in_buffer := b\<rparr>) = Some s' \<Longrightarrow> auth_message env s s'"

text \<open>What holds while the answer to a request that can succeed is awaited, in a session with this state and
  these flags: only a success changes them.\<close>

definition dialog_ok :: "ssh_session_state \<Rightarrow> u32 \<Rightarrow> ssh_session \<Rightarrow> bool" where
  "dialog_ok state flags s \<longleftrightarrow>
     ses_auth_state s \<noteq> SSH_AUTH_STATE_PK_OK \<and> ses_auth_state s \<noteq> SSH_AUTH_STATE_PUBKEY_OFFER_SENT \<and>
     (if ses_auth_state s = SSH_AUTH_STATE_SUCCESS
      then ses_session_state s = SSH_SESSION_STATE_AUTHENTICATED \<and> has_flag (ses_flags s) SSH_SESSION_FLAG_AUTHENTICATED
      else ses_session_state s = state \<and> ses_flags s = flags)"

lemma dialog_ok_updates [simp]:
  "dialog_ok state flags (s\<lparr>ses_in_buffer := b\<rparr>) = dialog_ok state flags s"
  "dialog_ok state flags (s\<lparr>ses_in_packet := p\<rparr>) = dialog_ok state flags s"
  "dialog_ok state flags (s\<lparr>ses_banner := ba\<rparr>) = dialog_ok state flags s"
  "dialog_ok state flags (s\<lparr>ses_kbdint := k\<rparr>) = dialog_ok state flags s"
  "dialog_ok state flags (s\<lparr>ses_auth_service_state := a\<rparr>) = dialog_ok state flags s"
  "dialog_ok state flags (s\<lparr>ses_auth_supported_methods := m\<rparr>) = dialog_ok state flags s"
  "dialog_ok state flags (s\<lparr>ses_auth_current_method := m\<rparr>) = dialog_ok state flags s"
  "dialog_ok state flags (s\<lparr>ses_error := e\<rparr>) = dialog_ok state flags s"
  "dialog_ok state flags (ssh_set_error c s) = dialog_ok state flags s"
  by (simp_all add: dialog_ok_def ssh_set_error_def)

lemma unpack_in_buffer: "unpack_in env f args s = Some (s', args', rc) \<Longrightarrow> \<exists>b. s' = s\<lparr>ses_in_buffer := Some b\<rparr>"
  by (auto simp: unpack_in_def bind_eq_Some_conv split: prod.splits)

lemma read_prompts_buffer:
  "read_prompts env is ps es s = Some (s', ps', es', r) \<Longrightarrow> \<exists>b. s' = s\<lparr>ses_in_buffer := b\<rparr>"
proof (induction "is" arbitrary: ps es s)
  case Nil
  then have "s' = s\<lparr>ses_in_buffer := ses_in_buffer s\<rparr>" by simp
  then show ?case by blast
next
  case (Cons i "is")
  from Cons.prems obtain s1 args rc where u: "unpack_in (aut_chan env) ''sb'' [Out_cstring (ps ! i), Out_u8 (es ! i)] s =
      Some (s1, args, rc)" by (auto simp: bind_eq_Some_conv)
  from unpack_in_buffer [OF u] obtain b where b: "s1 = s\<lparr>ses_in_buffer := Some b\<rparr>" by blast
  from Cons.prems u have "s' = s1 \<or> (\<exists>ps es. read_prompts env is ps es s1 = Some (s', ps', es', r))"
    by (auto simp: Let_def split: if_splits)
  then show ?case using Cons.IH b by fastforce
qed

lemma failure_dialog:
  assumes "ssh_packet_userauth_failure env s = Some s'" and "dialog_ok state flags s"
    and "ses_session_state s = SSH_SESSION_STATE_AUTHENTICATING"
  shows "dialog_ok state flags s'"
proof -
  from assms(1) obtain s1 args rc where u: "unpack_in (aut_chan env) ''sb'' [Out_cstring None, Out_u8 0] s = Some (s1, args, rc)"
    by (auto simp: ssh_packet_userauth_failure_def bind_eq_Some_conv)
  from unpack_in_buffer [OF u] obtain b where b: "s1 = s\<lparr>ses_in_buffer := Some b\<rparr>" by blast
  have fl: "ses_session_state s = state \<and> ses_flags s = flags"
    using assms(2,3) by (auto simp: dialog_ok_def split: if_split_asm)
  from assms(1) u b fl show ?thesis
    by (auto simp: ssh_packet_userauth_failure_def bind_eq_Some_conv Let_def dialog_ok_def ssh_set_error_def
        split: if_splits)
qed

lemma info_request_dialog:
  assumes "ssh_packet_userauth_info_request env s = Some s'" and "dialog_ok state flags s"
    and "ses_auth_state s = SSH_AUTH_STATE_KBDINT_SENT"
  shows "dialog_ok state flags s'"
proof -
  have fl: "ses_session_state s = state \<and> ses_flags s = flags"
    using assms(2,3) by (auto simp: dialog_ok_def)
  from assms(1) show ?thesis
  proof (cases "s' = ssh_set_error SSH_FATAL s")
    case False
    with assms(1) obtain s1 args rc where
      u: "unpack_in (aut_chan env) ''ssSd'' [Out_cstring None, Out_cstring None, Out_string None, Out_u32 0] s = Some (s1, args, rc)"
      by (auto simp: ssh_packet_userauth_info_request_def bind_eq_Some_conv Let_def split: option.splits)
    from unpack_in_buffer [OF u] obtain b where b: "s1 = s\<lparr>ses_in_buffer := Some b\<rparr>" by blast
    from assms(1) u b show ?thesis using assms(2,3) fl
      by (auto simp: ssh_packet_userauth_info_request_def bind_eq_Some_conv Let_def
          split: option.splits if_splits dest!: read_prompts_buffer) (simp_all add: dialog_ok_def)
  qed (use assms(2) in simp)
qed

lemma crypto_update_same:
  "ses_auth_state (crypto_update slot f s) = ses_auth_state s"
  "ses_session_state (crypto_update slot f s) = ses_session_state s"
  "ses_flags (crypto_update slot f s) = ses_flags s"
  by (cases slot; simp add: crypto_update_def)+

lemma success_dialog: "dialog_ok state flags (ssh_packet_userauth_success s)"
proof -
  have "((w :: u32) OR 2) AND 2 = 2" for w by (rule bit_word_eqI) (auto simp: bit_simps)
  then show ?thesis
    by (simp add: ssh_packet_userauth_success_def dialog_ok_def Let_def crypto_update_same has_flag_def split: option.splits)
qed

text \<open>A message keeps it.\<close>

lemma auth_message_dialog:
  assumes "auth_message env s s'" and "dialog_ok state flags s"
  shows "dialog_ok state flags s'"
  using assms(1)
proof cases
  case (1 b p)
  let ?s = "s\<lparr>ses_in_packet := p, ses_in_buffer := b\<rparr>"
  have d: "dialog_ok state flags ?s" using assms(2) by simp
  have t: "pkt_type p \<in> {6, 51, 52, 53, 60}"
    using 1(2) by (simp add: auth_handler_def split: if_split_asm)
  then show ?thesis
  proof (elim insertE emptyE)
    assume [simp]: "pkt_type p = 51"
    have "ses_session_state ?s = SSH_SESSION_STATE_AUTHENTICATING"
      using 1(1) by (simp add: allowed_def filter_defs split: if_split_asm)
    with failure_dialog [OF _ d] 1(2) show ?thesis by (simp add: auth_handler_def)
  next
    assume [simp]: "pkt_type p = 60"
    have "ssh_packet_userauth_pk_ok env ?s = Some s'" using 1(2) by (simp add: auth_handler_def)
    moreover have "ses_auth_state ?s \<in> {SSH_AUTH_STATE_KBDINT_SENT, SSH_AUTH_STATE_PUBKEY_OFFER_SENT, SSH_AUTH_STATE_GSSAPI_REQUEST_SENT}"
      using 1(1) by (simp add: allowed_def filter_defs split: if_split_asm)
    ultimately show ?thesis using info_request_dialog [OF _ d] d
      by (auto simp: ssh_packet_userauth_pk_ok_def dialog_ok_def)
  next
    assume [simp]: "pkt_type p = 53"
    show ?thesis using 1(2) d
      by (auto simp: auth_handler_def ssh_packet_userauth_banner_def bind_eq_Some_conv case_prod_beta)
  next
    assume [simp]: "pkt_type p = 6"
    show ?thesis using 1(2) d by (auto simp: auth_handler_def ssh_packet_service_accept_def)
  next
    assume [simp]: "pkt_type p = 52"
    show ?thesis using 1(2) success_dialog by (auto simp: auth_handler_def)
  qed
qed

lemma auth_messages_dialog: "(auth_message env)\<^sup>*\<^sup>* s s' \<Longrightarrow> dialog_ok state flags s \<Longrightarrow> dialog_ok state flags s'"
  by (induction rule: rtranclp_induct) (auto intro: auth_message_dialog)

text \<open>What every turn keeps holds at the end of a wait that does not fail.\<close>

lemma wait_loop_keeps:
  assumes "wait_loop ms fct ret turns s = Some (s', rc, turns')" and "P s"
    and "\<And>t x x' r. t \<in> set turns \<Longrightarrow> turn_dopoll t x = (x', r) \<Longrightarrow> P x \<Longrightarrow> P x'"
  shows "rc = SSH_ERROR \<or> P s'"
  using assms
proof (induction turns arbitrary: s ret)
  case (Cons turn turns)
  obtain s1 r1 where h: "ssh_handle_packets turn s = (s1, r1)" by fastforce
  obtain x r where d: "turn_dopoll turn s = (x, r)" by fastforce
  have p1: "r1 = SSH_ERROR \<or> P s1"
    using h d Cons.prems(2) Cons.prems(3) [of turn s x r]
    by (auto simp: ssh_handle_packets_def split: poll_setup.splits if_splits)
  have "rc = SSH_ERROR \<or> s' = s \<or> s' = s1 \<and> r1 \<noteq> SSH_ERROR \<or> r1 \<noteq> SSH_ERROR \<and> wait_loop ms fct r1 turns s1 = Some (s', rc, turns')"
    using Cons.prems(1) h by (auto split: option.splits bool.splits if_splits)
  then show ?case
  proof (elim disjE conjE)
    assume a: "r1 \<noteq> SSH_ERROR" "wait_loop ms fct r1 turns s1 = Some (s', rc, turns')"
    show ?case by (rule Cons.IH [OF a(2)]) (use a(1) p1 Cons.prems(3) in auto)
  qed (use p1 Cons.prems(2) in auto)
qed (auto split: option.splits bool.splits)


text \<open>A client that has sent a password request, and a turn in which the server confirms it.\<close>

definition sample_auth :: auth_env where
  "sample_auth = \<lparr>aut_chan = sample_channels, aut_username = Some (c_string ''joe'')\<rparr>"

definition success_turn :: poll_turn where
  "success_turn = \<lparr>turn_setup = Poll_ready, turn_dopoll = (\<lambda>s.
     let x = s\<lparr>ses_in_packet := \<lparr>pkt_valid = True, pkt_len = 0, pkt_type = 52\<rparr>, ses_in_buffer := None\<rparr>
     in (if allowed False x then ssh_packet_userauth_success x else s, 0)), turn_late = False\<rparr>"


section \<open>The questions of the keyboard-interactive method\<close>

lemma unpack_in_wire:
  assumes "pack_setting (chn_mem env) (chn_bignum env) v" and "ses_in_buffer s = Some b" and "buffer_inv b"
    and "contents b = fields_wire (chn_bignum env) fs @ rest" and "f = map field_char fs" and "cells = concat css"
    and "list_all field_ok fs" and "list_all (unpackable (chn_bignum env)) fs" and "fs \<noteq> []"
    and "list_all2 out_for fs css" and "\<forall>d. F_data d \<notin> set fs" and "length (concat css) \<le> 256"
    and "\<forall>k. chn_mem env k \<noteq> None" and "\<forall>x. F_bignum x \<notin> set fs"
  shows "\<exists>b' css'. unpack_in env f cells s = Some (s\<lparr>ses_in_buffer := Some b'\<rparr>, concat css' @ [Out_canary SSH_BUFFER_PACK_END], 0) \<and>
    buffer_inv b' \<and> contents b' = rest \<and> list_all2 (out_holds v) fs css'"
proof -
  from pack_setting.unpack_wire [OF assms(1,3,7-9,4,10) _ assms(12)] assms(11,13,14) obtain b' css' where
    "ssh_buffer_unpack (chn_mem env) (chn_bignum env) b (map field_char fs) (concat css) =
      Some (b', concat css' @ [Out_canary SSH_BUFFER_PACK_END], 0)" "buffer_inv b'" "contents b' = rest"
    "list_all2 (out_holds v) fs css'" by (auto simp: out_of_memory_def)
  with assms(2,5,6) show ?thesis by (auto simp: unpack_in_def)
qed

text \<open>A question: the prompt, and whether the answer may be shown.\<close>

definition question_wire :: "u64 bignum_lib \<Rightarrow> bytes \<times> u8 \<Rightarrow> bytes" where
  "question_wire lib q = fields_wire lib [F_cstring (fst q), F_byte (snd q)]"

definition question_ok :: "bytes \<times> u8 \<Rightarrow> bool" where
  "question_ok q \<longleftrightarrow> 0 \<notin> set (fst q) \<and> length (fst q) < 4294967296"

lemma read_prompts_wire:
  assumes "pack_setting (chn_mem (aut_chan env)) (chn_bignum (aut_chan env)) v"
    and "\<forall>k. chn_mem (aut_chan env) k \<noteq> None"
    and "ses_in_buffer s = Some b" and "buffer_inv b" and "list_all question_ok qs"
    and "contents b = concat (map (question_wire (chn_bignum (aut_chan env))) qs) @ rest"
    and "length ps = k + length qs" and "length es = k + length qs"
  shows "\<exists>b'. read_prompts env [k..<k + length qs] ps es s = Some (s\<lparr>ses_in_buffer := Some b'\<rparr>,
      take k ps @ map (\<lambda>q. Some (fst q @ [0])) qs, take k es @ map snd qs, True)"
  using assms(3-)
proof (induction qs arbitrary: s b ps es k)
  case Nil
  then show ?case by (intro exI [of _ b]) simp
next
  case (Cons q qs)
  let ?fs = "[F_cstring (fst q), F_byte (snd q)] :: u64 field list"
  let ?css = "[[Out_cstring (ps ! k)], [Out_u8 (es ! k)]] :: u64 out_list list"
  have "\<exists>b1 css. unpack_in (aut_chan env) ''sb'' [Out_cstring (ps ! k), Out_u8 (es ! k)] s =
      Some (s\<lparr>ses_in_buffer := Some b1\<rparr>, concat css @ [Out_canary SSH_BUFFER_PACK_END], 0) \<and>
    buffer_inv b1 \<and> contents b1 = concat (map (question_wire (chn_bignum (aut_chan env))) qs) @ rest \<and>
    list_all2 (out_holds v) ?fs css"
    by (rule unpack_in_wire [OF assms(1) Cons.prems(1,2), of ?fs _ _ _ ?css])
      (use Cons.prems assms(2) in \<open>auto simp: question_wire_def [where q = q] question_ok_def [where q = q]\<close>)
  then obtain b1 css where u: "unpack_in (aut_chan env) ''sb'' [Out_cstring (ps ! k), Out_u8 (es ! k)] s =
      Some (s\<lparr>ses_in_buffer := Some b1\<rparr>, concat css @ [Out_canary SSH_BUFFER_PACK_END], 0)"
    and b1: "buffer_inv b1" "contents b1 = concat (map (question_wire (chn_bignum (aut_chan env))) qs) @ rest"
    and css: "list_all2 (out_holds v) ?fs css" by blast
  have args: "out_cstring ((concat css @ [Out_canary SSH_BUFFER_PACK_END]) ! 0) = Some (fst q @ [0])"
    "out_u8 ((concat css @ [Out_canary SSH_BUFFER_PACK_END]) ! 1) = snd q"
    using css by (auto simp: list_all2_Cons1)
  let ?s = "s\<lparr>ses_in_buffer := Some b1\<rparr>" and ?ps = "ps[k := Some (fst q @ [0])]" and ?es = "es[k := snd q]"
  have "\<exists>b'. read_prompts env [Suc k..<Suc k + length qs] ?ps ?es ?s = Some (?s\<lparr>ses_in_buffer := Some b'\<rparr>,
      take (Suc k) ?ps @ map (\<lambda>q. Some (fst q @ [0])) qs, take (Suc k) ?es @ map snd qs, True)"
    by (rule Cons.IH [of _ b1]) (use Cons.prems b1 in auto)
  moreover have "[k..<k + length (q # qs)] = k # [Suc k..<Suc k + length qs]" by (simp add: upt_rec)
  moreover have "take (Suc k) ?ps = take k ps @ [Some (fst q @ [0])]" "take (Suc k) ?es = take k es @ [snd q]"
    using Cons.prems(5,6) by (simp_all add: take_Suc_conv_app_nth)
  ultimately show ?case using u args by simp
qed

text \<open>C19: the questions of the server reach the user as they were sent. While the first message of the
  keyboard-interactive method waits for its answer, a request for information with a name, an instruction, a
  language and at most 256 questions arrives. Then the call that waits ends with \<open>SSH_AUTH_INFO\<close>, and the getters return
  the name, the instruction and the number of questions; question i is the i-th, with its echo flag, for every i below
  the number, and an error above it. At the number itself the getter reads past the end of both arrays.\<close>

theorem kbdint_questions:
  assumes "pack_setting (chn_mem (aut_chan env)) (chn_bignum (aut_chan env)) v"
    and "\<forall>k. chn_mem (aut_chan env) k \<noteq> None"
    and "ses_auth_state s = SSH_AUTH_STATE_KBDINT_SENT" and "ses_kbdint s = None"
    and "ses_in_buffer s = Some b" and "buffer_inv b"
    and "contents b = fields_wire (chn_bignum (aut_chan env)) [F_cstring name, F_cstring instruction, F_string language,
        F_dword (of_nat (length qs))] @ concat (map (question_wire (chn_bignum (aut_chan env))) qs) @ rest"
    and "list_all question_ok ((name, 0) # (instruction, 0) # qs)" and "string_wf language" and "length qs \<le> 256"
  shows "\<exists>s'. ssh_packet_userauth_pk_ok env s = Some s' \<and> ses_auth_state s' = SSH_AUTH_STATE_INFO \<and>
    ssh_auth_response_termination s' \<and>
    ssh_userauth_kbdint_getname s' = (s', Some (name @ [0])) \<and>
    ssh_userauth_kbdint_getinstruction s' = (s', Some (instruction @ [0])) \<and>
    ssh_userauth_kbdint_getnprompts s' = (s', int (length qs)) \<and>
    (\<forall>i echo. ssh_userauth_kbdint_getprompt s' i (Some echo) =
      (if unat i < length qs then Some (s', Some (snd (qs ! unat i)), Some (fst (qs ! unat i) @ [0]))
       else if unat i = length qs then None
       else Some (ssh_set_error SSH_FATAL s', Some echo, None)))"
proof -
  let ?n = "length qs"
  let ?ps = "map (\<lambda>q. Some (fst q @ [0])) qs"
  let ?fs = "[F_cstring name, F_cstring instruction, F_string language, F_dword (of_nat ?n)] :: u64 field list"
  let ?css = "[[Out_cstring None], [Out_cstring None], [Out_string None], [Out_u32 0]] :: u64 out_list list"
  have n: "unat (of_nat ?n :: u32) = ?n" using assms(10) by (simp add: unat_of_nat32)
  then have un: "uint (of_nat ?n :: u32) = int ?n" by (metis uint_nat)
  have "\<exists>b1 css. unpack_in (aut_chan env) ''ssSd'' [Out_cstring None, Out_cstring None, Out_string None, Out_u32 0] s =
      Some (s\<lparr>ses_in_buffer := Some b1\<rparr>, concat css @ [Out_canary SSH_BUFFER_PACK_END], 0) \<and>
    buffer_inv b1 \<and> contents b1 = concat (map (question_wire (chn_bignum (aut_chan env))) qs) @ rest \<and>
    list_all2 (out_holds v) ?fs css"
    by (rule unpack_in_wire [OF assms(1,5,6), of ?fs _ _ _ ?css])
      (use assms(2,7-9) in \<open>auto simp: question_ok_def\<close>)
  then obtain b1 css where u: "unpack_in (aut_chan env) ''ssSd'' [Out_cstring None, Out_cstring None, Out_string None, Out_u32 0] s =
      Some (s\<lparr>ses_in_buffer := Some b1\<rparr>, concat css @ [Out_canary SSH_BUFFER_PACK_END], 0)"
    and b1: "buffer_inv b1" "contents b1 = concat (map (question_wire (chn_bignum (aut_chan env))) qs) @ rest"
    and css: "list_all2 (out_holds v) ?fs css" by blast
  let ?args = "concat css @ [Out_canary SSH_BUFFER_PACK_END]"
  have args: "out_cstring (?args ! 0) = Some (name @ [0])" "out_cstring (?args ! 1) = Some (instruction @ [0])"
    "out_u32 (?args ! 3) = of_nat ?n"
    using css by (auto simp: list_all2_Cons1 nth_append)
  have "\<exists>y. chn_mem (aut_chan env) k = Some y" for k using assms(2) by simp
  then obtain y1 y2 y3 where mem: "chn_mem (aut_chan env) sizeof_ssh_kbdint = Some y1"
    "chn_mem (aut_chan env) (sizeof_pointer * ?n) = Some y2" "chn_mem (aut_chan env) ?n = Some y3" by metis
  from read_prompts_wire [OF assms(1,2) _ b1(1) _ b1(2), of "s\<lparr>ses_in_buffer := Some b1\<rparr>" "replicate ?n None" 0
      "replicate ?n 0"] assms(8) obtain b2 where
    r: "read_prompts env [0..<?n] (replicate ?n None) (replicate ?n 0) (s\<lparr>ses_in_buffer := Some b1\<rparr>) =
      Some (s\<lparr>ses_in_buffer := Some b2\<rparr>, ?ps, map snd qs, True)" by auto
  define kbd where "kbd = \<lparr>kbd_nprompts = of_nat ?n, kbd_nanswers = of_nat ?n, kbd_name = Some (name @ [0]),
    kbd_instruction = Some (instruction @ [0]), kbd_prompts = Some ?ps, kbd_echo = Some (map snd qs), kbd_answers = None\<rparr>"
  define s' where "s' = s\<lparr>ses_in_buffer := Some b2, ses_kbdint := Some kbd, ses_auth_state := SSH_AUTH_STATE_INFO\<rparr>"
  have "\<not> (of_nat ?n :: u32) > KBDINT_MAX_PROMPT"
    using assms(10) n by (simp add: KBDINT_MAX_PROMPT_def word_less_nat_alt)
  with u args mem r assms(3,4) n have h: "ssh_packet_userauth_pk_ok env s = Some s'"
    by (simp add: ssh_packet_userauth_pk_ok_def ssh_packet_userauth_info_request_def ssh_kbdint_new_def Let_def s'_def kbd_def)
  have k: "ses_kbdint s' = Some kbd" by (simp add: s'_def)
  have "ssh_userauth_kbdint_getprompt s' i (Some echo) =
      (if unat i < ?n then Some (s', Some (snd (qs ! unat i)), Some (fst (qs ! unat i) @ [0]))
       else if unat i = ?n then None else Some (ssh_set_error SSH_FATAL s', Some echo, None))" for i echo
    using n by (simp add: ssh_userauth_kbdint_getprompt_def k) (simp add: kbd_def element_def word_less_nat_alt)
  with h k n un show ?thesis
    by (intro exI [of _ s']) (simp add: ssh_userauth_kbdint_getname_def ssh_userauth_kbdint_getinstruction_def
      ssh_userauth_kbdint_getnprompts_def ssh_auth_response_termination_def, simp add: s'_def kbd_def)
qed

text \<open>A request for information on the wire: the name \<open>n\<close>, no instruction, one question, whose answer is hidden.\<close>

definition sample_questions :: ssh_buffer where
  "sample_questions = \<lparr>buf_secure = False, buf_used = 25, buf_allocated = 32, buf_pos = 0,
     buf_data = [0, 0, 0, 1, 110, 0, 0, 0, 0, 0, 0, 0, 0, 0, 0, 0, 1, 0, 0, 0, 3, 112, 119, 63, 0, 0, 0, 0, 0, 0, 0, 0],
     buf_freed = []\<rparr>"

lemma sample_questions: "buffer_inv sample_questions"
  "contents sample_questions = [0, 0, 0, 1, 110, 0, 0, 0, 0, 0, 0, 0, 0, 0, 0, 0, 1, 0, 0, 0, 3, 112, 119, 63, 0]"
  by (simp_all add: sample_questions_def buffer_inv_def contents_def segment_def)

lemma sample_auth: "\<forall>k. chn_mem (aut_chan sample_auth) k \<noteq> None" "chn_bignum (aut_chan sample_auth) = word_bignum"
  "chn_mem (aut_chan sample_auth) = endless_mem"
  by (simp_all add: sample_auth_def sample_channels_def endless_mem_def)

theorem kbdint_questions_witness:
  "\<exists>s'. ssh_packet_userauth_pk_ok sample_auth (sample_session\<lparr>ses_auth_state := SSH_AUTH_STATE_KBDINT_SENT,
      ses_in_buffer := Some sample_questions\<rparr>) = Some s' \<and>
    ssh_userauth_kbdint_getname s' = (s', Some [110, 0]) \<and>
    ssh_userauth_kbdint_getprompt s' 0 (Some 7) = Some (s', Some 0, Some [112, 119, 63, 0]) \<and>
    ssh_userauth_kbdint_getprompt s' 1 (Some 7) = None \<and>
    ssh_userauth_kbdint_getprompt s' 2 (Some 7) = Some (ssh_set_error SSH_FATAL s', Some 7, None)"
proof -
  let ?s = "sample_session\<lparr>ses_auth_state := SSH_AUTH_STATE_KBDINT_SENT, ses_in_buffer := Some sample_questions\<rparr>"
  let ?lang = "\<lparr>str_size = 0, str_data = [0]\<rparr>" and ?qs = "[([112, 119, 63], 0)] :: (bytes \<times> u8) list"
  have pack: "pack_setting (chn_mem (aut_chan sample_auth)) (chn_bignum (aut_chan sample_auth)) unat"
    using sample_pack_channels.pack_setting_axioms by (simp add: sample_auth)
  have s: "ses_auth_state ?s = SSH_AUTH_STATE_KBDINT_SENT" "ses_kbdint ?s = None" "ses_in_buffer ?s = Some sample_questions"
    by (simp_all add: sample_session_def)
  have z: "ntohl 0 = 0" by code_simp
  have wf: "string_wf ?lang" by (simp add: string_wf_def z)
  have wire: "contents sample_questions = fields_wire (chn_bignum (aut_chan sample_auth))
      [F_cstring [110], F_cstring [], F_string ?lang, F_dword (of_nat (length ?qs))] @
      concat (map (question_wire (chn_bignum (aut_chan sample_auth))) ?qs) @ []"
    by (simp add: sample_questions(2) string_image_def question_wire_def string_content_def be32_def be16_def z)
  have ok: "list_all question_ok (([110], 0) # ([], 0) # ?qs)" "length ?qs \<le> 256" by (simp_all add: question_ok_def)
  from kbdint_questions [OF pack sample_auth(1) s sample_questions(1) wire ok(1) wf ok(2)]
  obtain s' where h: "ssh_packet_userauth_pk_ok sample_auth ?s = Some s'" "ssh_userauth_kbdint_getname s' = (s', Some ([110] @ [0]))"
    and g: "\<And>i echo. ssh_userauth_kbdint_getprompt s' i (Some echo) =
      (if unat i < length ?qs then Some (s', Some (snd (?qs ! unat i)), Some (fst (?qs ! unat i) @ [0]))
       else if unat i = length ?qs then None else Some (ssh_set_error SSH_FATAL s', Some echo, None))" by blast
  show ?thesis using h g [of 0 7] g [of 1 7] g [of 2 7] by (intro exI [of _ s']) simp
qed

section \<open>Any request for information\<close>

lemma unpack_in_typed:
  assumes "allocator (chn_mem env)" and "ses_in_buffer s = Some b" and "buffer_inv b" and "outs_typed p css" and "p \<noteq> []"
    and "cells = concat css"
  shows "\<exists>b' css' rc. unpack_in env p cells s = Some (s\<lparr>ses_in_buffer := Some b'\<rparr>, concat css' @ [Out_canary SSH_BUFFER_PACK_END], rc) \<and>
    buffer_inv b' \<and> outs_typed p css' \<and> (rc = 0 \<or> rc = - 1) \<and> (rc = 0 \<longrightarrow> (\<forall>cells \<in> set css'. list_all terminated cells))"
proof -
  from allocator.unpack_typed [OF assms(1,3-5), of "chn_bignum env"] obtain b' css' rc where
    "ssh_buffer_unpack (chn_mem env) (chn_bignum env) b p cells = Some (b', concat css' @ [Out_canary SSH_BUFFER_PACK_END], rc)"
    "consumed b b'" "outs_typed p css'" "rc = 0 \<or> rc = - 1" "rc = 0 \<longrightarrow> (\<forall>cells \<in> set css'. list_all terminated cells)"
    unfolding assms(6) by blast
  then show ?thesis using assms(2)
    by (intro exI [of _ b'] exI [of _ css'] exI [of _ rc]) (simp add: unpack_in_def consumed_def)
qed

lemma read_prompts_typed:
  assumes "allocator (chn_mem (aut_chan env))" and "ses_in_buffer s = Some b" and "buffer_inv b"
    and "set is \<subseteq> {..<length ps}" and "length es = length ps" and "\<forall>j < length ps. j \<in> set is \<or> strlen (ps ! j) \<noteq> None"
  shows "\<exists>b' ps' es' whole. read_prompts env is ps es s = Some (s\<lparr>ses_in_buffer := Some b'\<rparr>, ps', es', whole) \<and>
    length ps' = length ps \<and> length es' = length ps \<and> (whole \<longrightarrow> (\<forall>j < length ps. strlen (ps' ! j) \<noteq> None))"
  using assms(2-)
proof (induction "is" arbitrary: s b ps es)
  case Nil
  then show ?case by (intro exI [of _ b] exI [of _ ps] exI [of _ es] exI [of _ True]) simp
next
  case (Cons i "is")
  let ?css = "[[Out_cstring (ps ! i)], [Out_u8 (es ! i)]] :: u64 out_list list"
  have t: "outs_typed ''sb'' ?css" by (simp add: outs_typed_def)
  obtain b1 css rc where u: "unpack_in (aut_chan env) ''sb'' [Out_cstring (ps ! i), Out_u8 (es ! i)] s =
      Some (s\<lparr>ses_in_buffer := Some b1\<rparr>, concat css @ [Out_canary SSH_BUFFER_PACK_END], rc)" "buffer_inv b1"
    and css: "outs_typed ''sb'' css" "rc = 0 \<or> rc = - 1" "rc = 0 \<longrightarrow> (\<forall>cells \<in> set css. list_all terminated cells)"
    using unpack_in_typed [OF assms(1) Cons.prems(1,2) t _, of "[Out_cstring (ps ! i), Out_u8 (es ! i)]"] by auto
  from css(1) obtain x y where x: "css = [[Out_cstring x], [Out_u8 y]]"
    by (auto simp: outs_typed_def list_all2_Cons1 elim!: cells_cases)
  let ?ps = "ps[i := x]" and ?es = "es[i := y]"
  show ?case
  proof (cases "rc = 0")
    case True
    with css(3) x have sx: "strlen x \<noteq> None" by simp
    have "\<exists>b' ps' es' whole. read_prompts env is ?ps ?es (s\<lparr>ses_in_buffer := Some b1\<rparr>) =
        Some (s\<lparr>ses_in_buffer := Some b1\<rparr>\<lparr>ses_in_buffer := Some b'\<rparr>, ps', es', whole) \<and>
      length ps' = length ?ps \<and> length es' = length ?ps \<and> (whole \<longrightarrow> (\<forall>j < length ?ps. strlen (ps' ! j) \<noteq> None))"
      by (rule Cons.IH [where b = b1]) (use Cons.prems u(2) sx in \<open>auto simp: nth_list_update\<close>)
    with u(1) x True show ?thesis by simp
  next
    case False
    with css(2) u(1) x Cons.prems(4) show ?thesis
      by (intro exI [of _ b1] exI [of _ ?ps] exI [of _ ?es] exI [of _ False]) simp
  qed
qed

text \<open>A dialog that the getters can read: the arrays have a prompt, terminated, and a flag for each question.\<close>

definition kbdint_ok :: "ssh_kbdint \<Rightarrow> bool" where
  "kbdint_ok kbd \<longleftrightarrow> unat (kbd_nprompts kbd) \<le> 256 \<and> kbd_nanswers kbd = kbd_nprompts kbd \<and>
     strlen (kbd_name kbd) \<noteq> None \<and> strlen (kbd_instruction kbd) \<noteq> None \<and> kbd_answers kbd = None \<and>
     (\<exists>ps es. kbd_prompts kbd = Some ps \<and> kbd_echo kbd = Some es \<and> length ps = unat (kbd_nprompts kbd) \<and>
        length es = unat (kbd_nprompts kbd) \<and> (\<forall>p \<in> set ps. strlen p \<noteq> None))"

text \<open>C20: whatever a request for information contains, the dialog is either complete or absent. While a
  keyboard-interactive request waits, a message 60 arrives, with any content: it is handled without a crash; either the
  session holds a dialog with all its texts and at most 256 prompts, and the call ends with \<open>SSH_AUTH_INFO\<close>, or there
  is no dialog, the error is fatal, and the authentication state is as before: the call does not end, it waits for a
  further message.\<close>

theorem info_request_outcome:
  assumes "allocator (chn_mem (aut_chan env))" and "ses_auth_state s = SSH_AUTH_STATE_KBDINT_SENT"
    and "ses_kbdint s = None" and "ses_in_buffer s = Some b" and "buffer_inv b"
  shows "\<exists>s'. ssh_packet_userauth_pk_ok env s = Some s' \<and>
    (ses_auth_state s' = SSH_AUTH_STATE_INFO \<and> ssh_auth_response_termination s' \<and>
       (\<exists>kbd. ses_kbdint s' = Some kbd \<and> kbdint_ok kbd) \<or>
     ses_auth_state s' = SSH_AUTH_STATE_KBDINT_SENT \<and> ses_kbdint s' = None \<and> ses_error s' = Some SSH_FATAL \<and>
       \<not> ssh_auth_response_termination s')"
proof -
  let ?css = "[[Out_cstring None], [Out_cstring None], [Out_string None], [Out_u32 0]] :: u64 out_list list"
  have t: "outs_typed ''ssSd'' ?css" by (simp add: outs_typed_def)
  obtain b1 css rc where u: "unpack_in (aut_chan env) ''ssSd'' [Out_cstring None, Out_cstring None, Out_string None, Out_u32 0] s =
      Some (s\<lparr>ses_in_buffer := Some b1\<rparr>, concat css @ [Out_canary SSH_BUFFER_PACK_END], rc)" "buffer_inv b1"
    and css: "outs_typed ''ssSd'' css" "rc = 0 \<or> rc = - 1" "rc = 0 \<longrightarrow> (\<forall>cells \<in> set css. list_all terminated cells)"
    using unpack_in_typed [OF assms(1,4,5) t _, of "[Out_cstring None, Out_cstring None, Out_string None, Out_u32 0]"] by auto
  from css(1) obtain name ins lang n where x: "css = [[Out_cstring name], [Out_cstring ins], [Out_string lang], [Out_u32 n]]"
    by (auto simp: outs_typed_def list_all2_Cons1 elim!: cells_cases)
  let ?s1 = "s\<lparr>ses_in_buffer := Some b1\<rparr>" and ?n = "unat n"
  have texts: "rc = 0 \<longrightarrow> strlen name \<noteq> None \<and> strlen ins \<noteq> None" using css(3) x by simp
  obtain b2 ps es whole where r: "read_prompts env [0..<?n] (replicate ?n None) (replicate ?n 0) ?s1 =
      Some (?s1\<lparr>ses_in_buffer := Some b2\<rparr>, ps, es, whole)" and l: "length ps = ?n" "length es = ?n"
    and p: "whole \<longrightarrow> (\<forall>j < ?n. strlen (ps ! j) \<noteq> None)"
    using read_prompts_typed [OF assms(1) _ u(2), of ?s1 "[0..<?n]" "replicate ?n None" "replicate ?n 0"]
    by (auto simp: atLeast0LessThan)
  have n256: "\<not> n > KBDINT_MAX_PROMPT \<Longrightarrow> ?n \<le> 256" by (simp add: KBDINT_MAX_PROMPT_def word_less_nat_alt)
  have all: "whole \<Longrightarrow> \<forall>q \<in> set ps. strlen q \<noteq> None" using p l(1) by (auto simp: in_set_conv_nth)
  show ?thesis using assms(2,3) u(1) x r texts n256 all l
    by (auto simp: ssh_packet_userauth_pk_ok_def ssh_packet_userauth_info_request_def ssh_kbdint_new_def Let_def
      ssh_set_error_def ssh_auth_response_termination_def kbdint_ok_def)
qed

theorem info_request_outcome_witness:
  "\<exists>s'. ssh_packet_userauth_pk_ok sample_auth (sample_session\<lparr>ses_auth_state := SSH_AUTH_STATE_KBDINT_SENT,
      ses_in_buffer := Some sample_wire\<rparr>) = Some s' \<and> ses_error s' = Some SSH_FATAL \<and> \<not> ssh_auth_response_termination s'"
proof -
  let ?s = "sample_session\<lparr>ses_auth_state := SSH_AUTH_STATE_KBDINT_SENT, ses_in_buffer := Some sample_wire\<rparr>"
  have "map_option ses_auth_state (ssh_packet_userauth_pk_ok sample_auth ?s) = Some SSH_AUTH_STATE_KBDINT_SENT" by code_simp
  moreover have "allocator (chn_mem (aut_chan sample_auth))" using endless_mem.allocator_axioms by (simp add: sample_auth)
  moreover have "ses_auth_state ?s = SSH_AUTH_STATE_KBDINT_SENT" "ses_kbdint ?s = None" "ses_in_buffer ?s = Some sample_wire"
    by (simp_all add: sample_session_def)
  ultimately show ?thesis using info_request_outcome [of sample_auth ?s sample_wire] sample_wire_inv(1) by auto
qed

section \<open>A refused request\<close>

lemma occurs_iff: "occurs p s \<longleftrightarrow> (\<exists>a c. s = a @ p @ c)"
proof (induction s)
  case (Cons x s)
  have "take (length p) (x # s) = p \<longleftrightarrow> (\<exists>c. x # s = p @ c)" by (metis append_eq_conv_conj append_take_drop_id)
  moreover have "(\<exists>a c. x # s = a @ p @ c) \<longleftrightarrow> (\<exists>c. x # s = p @ c) \<or> (\<exists>a c. s = a @ p @ c)"
  proof
    assume "\<exists>a c. x # s = a @ p @ c"
    then obtain a c where "x # s = a @ p @ c" by blast
    then show "(\<exists>c. x # s = p @ c) \<or> (\<exists>a c. s = a @ p @ c)" by (cases a) auto
  next
    assume "(\<exists>c. x # s = p @ c) \<or> (\<exists>a c. s = a @ p @ c)"
    then show "\<exists>a c. x # s = a @ p @ c" by (metis append_Cons append_Nil)
  qed
  ultimately show ?case using Cons.IH by simp
qed simp

lemma methods_named_flags:
  "has_flag (methods_named t) SSH_AUTH_METHOD_PASSWORD = occurs ''password'' t"
  "has_flag (methods_named t) SSH_AUTH_METHOD_PUBLICKEY = occurs ''publickey'' t"
  "has_flag (methods_named t) SSH_AUTH_METHOD_HOSTBASED = occurs ''hostbased'' t"
  "has_flag (methods_named t) SSH_AUTH_METHOD_INTERACTIVE = occurs ''keyboard-interactive'' t"
  by (simp_all add: methods_named_def has_flag_def)

text \<open>C31: a refusal tells the caller with what to go on. A failure message that lists the methods left, and says
  whether the last one was a partial success, ends the wait with the result partial or denied, and \<open>ssh_userauth_list\<close>
  reports a method exactly if its name is somewhere in the list, be it inside another name.\<close>

theorem userauth_failure_methods:
  assumes "pack_setting (chn_mem (aut_chan env)) (chn_bignum (aut_chan env)) v"
    and "\<forall>k. chn_mem (aut_chan env) k \<noteq> None" and "ses_in_buffer s = Some b" and "buffer_inv b"
    and "contents b = fields_wire (chn_bignum (aut_chan env)) [F_cstring (text_bytes methods), F_byte partial] @ rest"
    and "CHR 0x00 \<notin> set methods" and "length methods < 4294967296"
  shows "\<exists>s'. ssh_packet_userauth_failure env s = Some s' \<and>
    ssh_userauth_get_response env turns s' = Some (s', if partial \<noteq> 0 then SSH_AUTH_PARTIAL else SSH_AUTH_DENIED, turns) \<and>
    ses_auth_current_method s' = SSH_AUTH_METHOD_UNKNOWN \<and>
    (\<forall>(method, name) \<in> {(SSH_AUTH_METHOD_PASSWORD, ''password''), (SSH_AUTH_METHOD_PUBLICKEY, ''publickey''),
        (SSH_AUTH_METHOD_HOSTBASED, ''hostbased''), (SSH_AUTH_METHOD_INTERACTIVE, ''keyboard-interactive'')}.
      has_flag (ssh_userauth_list s') method \<longleftrightarrow> (\<exists>before after. methods = before @ name @ after))"
proof -
  let ?fs = "[F_cstring (text_bytes methods), F_byte partial] :: u64 field list"
  let ?css = "[[Out_cstring None], [Out_u8 0]] :: u64 out_list list"
  have z: "0 \<notin> set (text_bytes methods)" "length (text_bytes methods) < 4294967296"
    using assms(6,7) by (auto simp: text_bytes_def of_char_zero)
  have "\<exists>b1 css. unpack_in (aut_chan env) ''sb'' [Out_cstring None, Out_u8 0] s =
      Some (s\<lparr>ses_in_buffer := Some b1\<rparr>, concat css @ [Out_canary SSH_BUFFER_PACK_END], 0) \<and>
    buffer_inv b1 \<and> contents b1 = rest \<and> list_all2 (out_holds v) ?fs css"
    by (rule unpack_in_wire [OF assms(1,3,4,5), of _ _ ?css]) (use assms(2) z in auto)
  then obtain b1 css where u: "unpack_in (aut_chan env) ''sb'' [Out_cstring None, Out_u8 0] s =
      Some (s\<lparr>ses_in_buffer := Some b1\<rparr>, concat css @ [Out_canary SSH_BUFFER_PACK_END], 0)"
    and css: "css = [[Out_cstring (Some (text_bytes methods @ [0]))], [Out_u8 partial]]"
    by (auto simp: list_all2_Cons1)
  let ?s1 = "s\<lparr>ses_in_buffer := Some b1\<rparr>"
  define s' where "s' = (if partial \<noteq> 0 then ?s1\<lparr>ses_auth_state := SSH_AUTH_STATE_PARTIAL\<rparr>
      else ssh_set_error SSH_REQUEST_DENIED (?s1\<lparr>ses_auth_state := SSH_AUTH_STATE_FAILED\<rparr>))
    \<lparr>ses_auth_supported_methods := methods_named methods, ses_auth_current_method := SSH_AUTH_METHOD_UNKNOWN\<rparr>"
  have f: "ssh_packet_userauth_failure env s = Some s'"
    using u css bytes_text_bytes [OF assms(6)] by (simp add: ssh_packet_userauth_failure_def s'_def)
  have st: "ses_auth_state s' = (if partial \<noteq> 0 then SSH_AUTH_STATE_PARTIAL else SSH_AUTH_STATE_FAILED)"
    by (simp add: s'_def ssh_set_error_def)
  then have "ssh_auth_response_termination s'" by (simp add: ssh_auth_response_termination_def)
  then have "ssh_userauth_get_response env turns s' = Some (s', if partial \<noteq> 0 then SSH_AUTH_PARTIAL else SSH_AUTH_DENIED, turns)"
    using st by (cases turns) (simp_all add: ssh_userauth_get_response_def ssh_handle_packets_termination_def)
  moreover have "ssh_userauth_list s' = methods_named methods" by (simp add: ssh_userauth_list_def s'_def)
  moreover have "ses_auth_current_method s' = SSH_AUTH_METHOD_UNKNOWN" by (simp add: s'_def)
  ultimately show ?thesis using f by (simp add: methods_named_flags occurs_iff)
qed

text \<open>A refusal that offers one method, with a name of its own.\<close>

definition sample_failure :: ssh_buffer where
  "sample_failure = \<lparr>buf_secure = False, buf_used = 16, buf_allocated = 16, buf_pos = 0,
     buf_data = [0, 0, 0, 11, 110, 111, 45, 112, 97, 115, 115, 119, 111, 114, 100, 0], buf_freed = []\<rparr>"

theorem userauth_failure_methods_witness:
  "\<exists>s'. ssh_packet_userauth_failure sample_auth (sample_session\<lparr>ses_in_buffer := Some sample_failure\<rparr>) = Some s' \<and>
    ssh_userauth_get_response sample_auth [] s' = Some (s', SSH_AUTH_DENIED, []) \<and>
    has_flag (ssh_userauth_list s') SSH_AUTH_METHOD_PASSWORD"
proof -
  let ?s = "sample_session\<lparr>ses_in_buffer := Some sample_failure\<rparr>"
  have pack: "pack_setting (chn_mem (aut_chan sample_auth)) (chn_bignum (aut_chan sample_auth)) unat"
    using sample_pack_channels.pack_setting_axioms by (simp add: sample_auth)
  have inv: "buffer_inv sample_failure" by (simp add: sample_failure_def buffer_inv_def)
  have "contents sample_failure = fields_wire (chn_bignum (aut_chan sample_auth))
      [F_cstring (text_bytes ''no-password''), F_byte 0] @ []"
    by (simp add: sample_failure_def contents_def segment_def string_image_def be32_def be16_def text_bytes_def)
  from userauth_failure_methods [OF pack sample_auth(1) _ inv this, of ?s "[]"]
  obtain s' where h: "ssh_packet_userauth_failure sample_auth ?s = Some s'"
    "ssh_userauth_get_response sample_auth [] s' = Some (s', SSH_AUTH_DENIED, [])"
    and m: "has_flag (ssh_userauth_list s') SSH_AUTH_METHOD_PASSWORD \<longleftrightarrow>
      (\<exists>before after. ''no-password'' = before @ ''password'' @ after)" by auto
  have "''no-password'' = ''no-'' @ ''password'' @ []" by simp
  with m have "has_flag (ssh_userauth_list s') SSH_AUTH_METHOD_PASSWORD" by metis
  with h show ?thesis by blast
qed

section \<open>The password\<close>

lemma service_accepted:
  assumes "ses_auth_service_state s = SSH_AUTH_SERVICE_ACCEPTED"
  shows "ssh_userauth_request_service env turns s = Some (s, SSH_OK, turns)"
proof -
  have "ssh_service_request_termination s" using assms by (simp add: ssh_service_request_termination_def)
  then have "ssh_handle_packets_termination (aut_chan env) SSH_TIMEOUT_USER (Some \<circ> ssh_service_request_termination) turns s =
      Some (s, SSH_OK, turns)" by (cases turns) (simp_all add: ssh_handle_packets_termination_def)
  with assms show ?thesis
    by (simp add: ssh_userauth_request_service_def ssh_service_request_def service_answer_def)
qed

text \<open>C18: what a password request sends, and what it leaves behind. With the service accepted, no call pending and an
  empty out buffer, \<open>ssh_userauth_password\<close> either fails for want of memory before anything is sent, or it sends the request with the
  user name and the password as the protocol lays it out. From then on the buffer is secure, so that it is burnt before it is freed,
  and up to then nothing that was written has got into a freed block: the only block that packing may free is the
  one the empty buffer had.\<close>

theorem ssh_userauth_password_request:
  assumes "pack_setting (chn_mem (aut_chan env)) (chn_bignum (aut_chan env)) v"
    and "ses_pending_call_state s = SSH_PENDING_CALL_NONE" and "ses_auth_service_state s = SSH_AUTH_SERVICE_ACCEPTED"
    and "ses_out_buffer s = Some b" and "buffer_inv b" and "buf_used b = 0"
    and "0 \<notin> set user" and "0 \<notin> set password" and "length user + length password < 0xfffff00"
  shows "(\<exists>s1. ssh_userauth_password env (Some (user @ [0])) (Some (password @ [0])) turns s = auth_fail env turns s1) \<and>
      (\<exists>k. chn_mem (aut_chan env) k = None) \<or>
    (\<exists>b'. ssh_userauth_password env (Some (user @ [0])) (Some (password @ [0])) turns s =
        auth_send env SSH_AUTH_METHOD_PASSWORD SSH_AUTH_STATE_PASSWORD_AUTH_SENT SSH_PENDING_CALL_AUTH_PASSWORD turns
          (s\<lparr>ses_out_buffer := Some b'\<rparr>) \<and>
      buffer_inv b' \<and> buf_secure b' \<and> buf_freed b' \<in> {buf_freed b, buf_data b # buf_freed b} \<and>
      contents b' = [50] @ string_image user @ string_image (text_bytes ''ssh-connection'') @
        string_image (text_bytes ''password'') @ [0] @ string_image password)"
proof -
  let ?mem = "chn_mem (aut_chan env)" and ?lib = "chn_bignum (aut_chan env)"
  let ?fs = "[F_byte 50, F_cstring user, F_cstring (text_bytes ''ssh-connection''), F_cstring (text_bytes ''password''),
    F_byte 0, F_cstring password] :: u64 field list"
  have args: "[VA_int (ucast (50 :: u8)), VA_pointer (user_name env (Some (user @ [0]))), VA_pointer (Some (c_string ''ssh-connection'')),
      VA_pointer (Some (c_string ''password'')), VA_int 0, VA_pointer (Some (password @ [0]))] = fields_args ?fs"
    by (simp add: user_name_def c_string_def text_bytes_def)
  have f: "''bsssbs'' = map field_char ?fs" by simp
  have ok: "list_all field_ok ?fs" using assms(7-9) by (simp add: text_bytes_def)
  have plain: "list_all plain_field ?fs" "?fs \<noteq> []" "length (fields_args ?fs) \<le> 256" by simp_all
  have len: "length (fields_wire ?lib ?fs) < 0x10000000" using assms(9) by (simp add: string_image_def text_bytes_def)
  obtain b1 rc where p: "ssh_buffer_pack ?mem ?lib b (map field_char ?fs) (fields_args ?fs) = Some (b1, rc)"
    and k: "packs b (fields_wire ?lib ?fs) b1 rc"
    using pack_setting.pack_all [OF assms(1,5) ok plain(2,3)] by blast
  have "allocator ?mem" using assms(1) by (simp add: pack_setting_def)
  note place = pack_place [OF assms(5,6) ok plain len this]
  have o: "pack_out (aut_chan env) ''bsssbs'' [VA_int (ucast (50 :: u8)), VA_pointer (user_name env (Some (user @ [0]))),
      VA_pointer (Some (c_string ''ssh-connection'')), VA_pointer (Some (c_string ''password'')), VA_int 0,
      VA_pointer (Some (password @ [0]))] s = Some (s\<lparr>ses_out_buffer := Some b1\<rparr>, rc)"
    unfolding args f using p assms(4) by (simp add: pack_out_def)
  have call: "ssh_userauth_password env (Some (user @ [0])) (Some (password @ [0])) turns s =
      (if rc < 0 then auth_fail env turns (s\<lparr>ses_out_buffer := Some b1\<rparr>)
       else auth_send env SSH_AUTH_METHOD_PASSWORD SSH_AUTH_STATE_PASSWORD_AUTH_SENT SSH_PENDING_CALL_AUTH_PASSWORD turns
         (s\<lparr>ses_out_buffer := Some (ssh_buffer_set_secure b1)\<rparr>))"
    using o service_accepted [OF assms(3)] assms(2) by (simp add: ssh_userauth_password_def auth_begin_def)
  show ?thesis
  proof (cases "rc = 0")
    case True
    with place p have "buf_freed b1 \<in> {buf_freed b, buf_data b # buf_freed b}" by auto
    moreover have "contents b = []" using assms(5,6) by (simp add: contents_def segment_def buffer_inv_def)
    moreover have "buffer_inv b1 \<and> contents b1 = contents b @ fields_wire ?lib ?fs" using k True by (simp add: packs_def)
    ultimately show ?thesis using call True
      by (intro disjI2 exI [of _ "ssh_buffer_set_secure b1"])
        (simp add: ssh_buffer_set_secure_def buffer_inv_def contents_def)
  next
    case False
    with place p have "rc < 0" "\<exists>k. ?mem k = None" by auto
    with call show ?thesis by auto
  qed
qed

theorem ssh_userauth_password_request_witness:
  "\<exists>b'. ssh_userauth_password sample_auth (Some [117, 0]) (Some [112, 113, 0]) [success_turn] sample_session =
      auth_send sample_auth SSH_AUTH_METHOD_PASSWORD SSH_AUTH_STATE_PASSWORD_AUTH_SENT SSH_PENDING_CALL_AUTH_PASSWORD
        [success_turn] (sample_session\<lparr>ses_out_buffer := Some b'\<rparr>) \<and> buf_secure b' \<and>
      (\<exists>front. contents b' = front @ [112, 113])"
proof -
  have pack: "pack_setting (chn_mem (aut_chan sample_auth)) (chn_bignum (aut_chan sample_auth)) unat"
    using sample_pack_channels.pack_setting_axioms by (simp add: sample_auth)
  have s: "ses_pending_call_state sample_session = SSH_PENDING_CALL_NONE"
    "ses_auth_service_state sample_session = SSH_AUTH_SERVICE_ACCEPTED"
    "ses_out_buffer sample_session = Some (sample_wire\<lparr>buf_used := 0\<rparr>)" by (simp_all add: sample_session_def)
  have b: "buffer_inv (sample_wire\<lparr>buf_used := 0\<rparr>)" "buf_used (sample_wire\<lparr>buf_used := 0\<rparr>) = 0"
    by (simp_all add: sample_wire_def buffer_inv_def)
  have t: "0 \<notin> set [117 :: u8]" "0 \<notin> set [112, 113 :: u8]" "length [117 :: u8] + length [112, 113 :: u8] < 0xfffff00" by simp_all
  from ssh_userauth_password_request [OF pack s b t, of "[success_turn]"] sample_auth(1) show ?thesis
    by (auto simp: string_image_def)
qed

text \<open>The answers of the keyboard-interactive method are not treated like a password: each is packed by a call of its own
  into a buffer that is never made secure, so an answer written before the buffer grows stays in the block that is
  freed. Here the first of two answers does.\<close>

theorem kbdint_answers_left:
  "case pack_answers sample_auth (Some [Some [115, 101, 99, 114, 101, 116, 0], Some [112, 113, 114, 0]]) [0, 1] sample_session of
     None \<Rightarrow> False
   | Some (s', packed) \<Rightarrow> packed \<and> (case ses_out_buffer s' of None \<Rightarrow> False
       | Some b \<Rightarrow> \<not> buf_secure b \<and> list_ex (\<lambda>block. take 6 (drop 4 block) = [115, 101, 99, 114, 101, 116]) (buf_freed b))"
  by (simp add: pack_out_def pack_eval sample_auth_def sample_channels_def sample_session_def sample_wire_def
    strlen_def realloc_buffer_def smallest_power.simps endless_mem_def BUFFER_SIZE_MAX_def blit_def le32_def htonl_def be32_def be16_def PULL_LE_U32_def SSH_BUFFER_PACK_END_def)

end
